theory Spec2Isabelle
  imports
    Complex_Main
    "HOL-Library.Word"
    "HOL-Library.Multiset"
    "HOL-Library.AList"
    "HOL-Library.Char_ord"
    "HOL-Library.List_Lexorder"
    "HOL-Library.Product_Lexorder"
begin

unbundle bit_operations_syntax

chapter \<open>CarrierOps dataset generator (tools/generate-dataset.js)\<close>

section \<open>Failure\<close>

text \<open>
  A function of the program fails by throwing an error that carries a message: an
  \<open>Error\<close> thrown by the program itself or a \<open>RangeError\<close> thrown by the runtime.
  The immediately invoked \<open>main\<close> catches it, prints the message and exits with
  status 1. A function that can throw returns \<open>error + 'a\<close>, with \<open>Inl\<close> the error.
\<close>

datatype error = Error string

section \<open>Numbers and the deterministic random source\<close>

text \<open>
  JavaScript numbers are IEEE doubles. Every number the generator handles is an integer,
  so the model uses \<open>int\<close>; the only places where a double cannot hold the exact
  integer result are the running sum \<open>t += 0x6D2B79F5\<close> inside \<open>mulberry32\<close> (it is
  never reduced modulo \<open>2^32\<close> and passes \<open>2^53\<close> after some 4.9 million draws) and
  the product \<open>rng() * span\<close> for the two widest spans. \<open>roundDouble\<close> is the value a
  double keeps of a non-negative integer: unchanged below \<open>2^53\<close>, otherwise rounded
  to 53 significant bits, ties to even.
\<close>

function excessBits :: "int \<Rightarrow> nat" where
  "excessBits n = (if n < 2 ^ 53 then 0 else Suc (excessBits (n div 2)))"
  by pat_completeness auto
termination
  by (relation "measure nat") auto

definition roundDouble :: "int \<Rightarrow> int" where
  "roundDouble n =
     (if n < 2 ^ 53 then n
      else let k = excessBits n;
               q = n div 2 ^ k;
               rm = n mod 2 ^ k;
               h = 2 ^ (k - 1)
           in if rm > h \<or> (rm = h \<and> odd q) then (q + 1) * 2 ^ k else q * 2 ^ k)"

text \<open>\<open>Math.imul\<close>: 32-bit multiplication, wrapping.\<close>

definition imul :: "32 word \<Rightarrow> 32 word \<Rightarrow> 32 word" where
  "imul a b = a * b"

text \<open>
  The closure returned by \<open>mulberry32(seed)\<close> owns one variable, \<open>t\<close>; the model's
  \<open>rng\<close> is that variable. \<open>mulberry32\<close> initialises it with \<open>seed >>> 0\<close> and
  \<open>rand\<close> is one call of the closure: it returns the numerator \<open>d\<close> of the draw
  \<open>d / 4294967296\<close> and the new \<open>t\<close>. The bitwise operators read their operands
  modulo \<open>2^32\<close>, which is \<open>word_of_int\<close>.
\<close>

type_synonym rng = int

definition mulberry32 :: "int \<Rightarrow> rng" where
  "mulberry32 seed = seed mod 2 ^ 32"

definition rand :: "rng \<Rightarrow> int \<times> rng" where
  "rand t0 =
     (let t = roundDouble (t0 + 0x6D2B79F5);
          tw = (word_of_int t :: 32 word);
          r = imul (tw XOR drop_bit 15 tw) (1 OR tw);
          r2 = r XOR (r + imul (r XOR drop_bit 7 r) (61 OR r))
      in (uint (r2 XOR drop_bit 14 r2), t))"

text \<open>
  \<open>Math.floor(rng() * n)\<close> for the draw \<open>d / 2^32\<close> and an integer \<open>n\<close>: the
  product is rounded to a double before the floor is taken.
\<close>

definition floorScaled :: "int \<Rightarrow> int \<Rightarrow> int" where
  "floorScaled d n =
     (let p = d * n
      in (if 0 \<le> p then roundDouble p else - roundDouble (- p)) div 2 ^ 32)"

text \<open>
  \<open>rng() < p/q\<close> for the decimal literals of the source (0.1, 0.5, 0.7, 0.55, 0.75,
  0.15): for a 32-bit numerator \<open>d\<close> the comparison with the double nearest to the
  literal has the same outcome as the comparison with the exact fraction.
\<close>

definition drawBelow :: "int \<Rightarrow> int \<Rightarrow> int \<Rightarrow> bool" where
  "drawBelow d p q = (d * q < p * 2 ^ 32)"

text \<open>
  \<open>choice\<close> reads \<open>arr[Math.floor(rng() * arr.length)]\<close>. Every call site passes a
  non-empty literal array, for which the index is in range (lemma \<open>choice_in_set\<close>).
\<close>

definition choice :: "rng \<Rightarrow> 'a list \<Rightarrow> 'a \<times> rng" where
  "choice g arr =
     (let (d, g') = rand g
      in (arr ! nat (floorScaled d (int (length arr))), g'))"

definition intBetween :: "rng \<Rightarrow> int \<Rightarrow> int \<Rightarrow> int \<times> rng" where
  "intBetween g mn maxInclusive =
     (let span = maxInclusive - mn + 1;
          (d, g') = rand g
      in (mn + floorScaled d span, g'))"

text \<open>
  \<open>shuffle\<close>: the loop \<open>for (i = a.length - 1; i > 0; i--)\<close> on a copy of the array;
  \<open>shuffle_loop i\<close> is the loop entered with that value of \<open>i\<close>.
\<close>

fun shuffle_loop :: "nat \<Rightarrow> 'a list \<Rightarrow> rng \<Rightarrow> 'a list \<times> rng" where
  "shuffle_loop 0 a g = (a, g)"
| "shuffle_loop (Suc i) a g =
     (let (d, g') = rand g;
          j = nat (floorScaled d (int (Suc i) + 1))
      in shuffle_loop i (a[Suc i := a ! j, j := a ! Suc i]) g')"

definition shuffle :: "rng \<Rightarrow> 'a list \<Rightarrow> 'a list \<times> rng" where
  "shuffle g arr = shuffle_loop (length arr - 1) arr g"

text \<open>\<open>arr.slice(0, n)\<close>; a negative \<open>n\<close> counts from the end.\<close>

definition slice0 :: "'a list \<Rightarrow> int \<Rightarrow> 'a list" where
  "slice0 arr n = (if n < 0 then take (length arr - nat (- n)) arr else take (nat n) arr)"

section \<open>Strings\<close>

text \<open>
  \<open>String(n)\<close> for an integer, \<open>padNum\<close> (\<open>padStart\<close> with zeros) and
  \<open>toLowerCase\<close> on ASCII letters.
\<close>

definition digitChar :: "int \<Rightarrow> char" where
  "digitChar d = ''0123456789'' ! nat d"

function digits :: "int \<Rightarrow> string" where
  "digits n =
     (if n < 10 then [digitChar n]
      else digits (n div 10) @ [digitChar (n mod 10)])"
  by pat_completeness auto
termination
  by (relation "measure nat") auto

definition numberToString :: "int \<Rightarrow> string" where
  "numberToString n = (if n < 0 then CHR ''-'' # digits (- n) else digits n)"

definition padNum :: "int \<Rightarrow> nat \<Rightarrow> string" where
  "padNum n width =
     (let s = numberToString n in replicate (width - length s) CHR ''0'' @ s)"

definition lowerOf :: "char \<Rightarrow> char" where
  "lowerOf c =
     (case map_of (zip ''ABCDEFGHIJKLMNOPQRSTUVWXYZ'' ''abcdefghijklmnopqrstuvwxyz'') c of
        None \<Rightarrow> c
      | Some l \<Rightarrow> l)"

definition toLowerCase :: "string \<Rightarrow> string" where
  "toLowerCase s = map lowerOf s"

section \<open>CSV helpers\<close>

text \<open>
  \<open>csvEscape\<close> receives \<open>null\<close>/\<open>undefined\<close> (\<open>None\<close>) or a value already turned
  into its string by \<open>String(val)\<close>. The two \<open>replace\<close> calls run one after the
  other, as in the source.
\<close>

fun replaceCRLF :: "string \<Rightarrow> string" where
  "replaceCRLF [] = []"
| "replaceCRLF [c] = [c]"
| "replaceCRLF (c # c' # cs) =
     (if c = CHR 0x0D \<and> c' = CHR 0x0A then CHR 0x0A # replaceCRLF cs
      else c # replaceCRLF (c' # cs))"

definition replaceCR :: "string \<Rightarrow> string" where
  "replaceCR s = map (\<lambda>c. if c = CHR 0x0D then CHR 0x0A else c) s"

definition doubleQuotes :: "string \<Rightarrow> string" where
  "doubleQuotes s = concat (map (\<lambda>c. if c = CHR 0x22 then [CHR 0x22, CHR 0x22] else [c]) s)"

definition csvEscape :: "string option \<Rightarrow> string" where
  "csvEscape val =
     (case val of
        None \<Rightarrow> []
      | Some v \<Rightarrow>
          (let s = replaceCR (replaceCRLF v);
               needsQuotes = (CHR '','' \<in> set s \<or> CHR 0x22 \<in> set s \<or> CHR 0x0A \<in> set s);
               s' = (if CHR 0x22 \<in> set s then doubleQuotes s else s)
           in if needsQuotes then [CHR 0x22] @ s' @ [CHR 0x22] else s'))"

section \<open>Presets\<close>

record cfg =
  accounts :: int
  subsPerAccountMin :: int
  subsPerAccountMax :: int
  ordersPerAccountMin :: int
  ordersPerAccountMax :: int
  itemsPerOrderMin :: int
  itemsPerOrderMax :: int
  ticketsPerSubscriberMin :: int
  ticketsPerSubscriberMax :: int
  deviceEventsPerDeviceMin :: int
  deviceEventsPerDeviceMax :: int
  usageRecordsPerSubscriber :: int
  days :: int
  embedFeatureCodes :: bool

definition presets :: "string \<Rightarrow> cfg" where
  "presets sz =
     (if sz = ''S'' then
        \<lparr>accounts = 3,
         subsPerAccountMin = 2, subsPerAccountMax = 2,
         ordersPerAccountMin = 1, ordersPerAccountMax = 2,
         itemsPerOrderMin = 2, itemsPerOrderMax = 3,
         ticketsPerSubscriberMin = 0, ticketsPerSubscriberMax = 1,
         deviceEventsPerDeviceMin = 3, deviceEventsPerDeviceMax = 6,
         usageRecordsPerSubscriber = 10,
         days = 2,
         embedFeatureCodes = True\<rparr>
      else if sz = ''M'' then
        \<lparr>accounts = 25,
         subsPerAccountMin = 2, subsPerAccountMax = 5,
         ordersPerAccountMin = 1, ordersPerAccountMax = 4,
         itemsPerOrderMin = 2, itemsPerOrderMax = 5,
         ticketsPerSubscriberMin = 0, ticketsPerSubscriberMax = 2,
         deviceEventsPerDeviceMin = 20, deviceEventsPerDeviceMax = 60,
         usageRecordsPerSubscriber = 250,
         days = 7,
         embedFeatureCodes = True\<rparr>
      else
        \<lparr>accounts = 200,
         subsPerAccountMin = 2, subsPerAccountMax = 6,
         ordersPerAccountMin = 1, ordersPerAccountMax = 5,
         itemsPerOrderMin = 2, itemsPerOrderMax = 6,
         ticketsPerSubscriberMin = 0, ticketsPerSubscriberMax = 2,
         deviceEventsPerDeviceMin = 200, deviceEventsPerDeviceMax = 600,
         usageRecordsPerSubscriber = 2500,
         days = 30,
         embedFeatureCodes = True\<rparr>)"

section \<open>Vocabulary\<close>

definition REGION_CODES :: "string list" where
  "REGION_CODES = [''TX-NORTH'', ''TX-SOUTH'']"

definition ACCOUNT_NAMES :: "string list" where
  "ACCOUNT_NAMES =
     [''Oak Hill Coffee Co'', ''Red River Hardware'', ''Pecan Street Apartments'',
      ''Bluebonnet Clinic'', ''Cedar Ridge Auto'', ''Trinity Bookshop'']"

definition DEVICE_MODELS :: "string list" where
  "DEVICE_MODELS =
     [''Pixel 8'', ''Pixel 7a'', ''iPhone 15'', ''iPhone 14'', ''Galaxy S24'', ''Galaxy A54'']"

record sku_def =
  cat_sku :: string
  cat_priceCents :: int

definition ORDER_SKUS :: "sku_def list" where
  "ORDER_SKUS =
     [\<lparr>cat_sku = ''SIM-ESIM'', cat_priceCents = 0\<rparr>,
      \<lparr>cat_sku = ''SIM-PHYSICAL'', cat_priceCents = 500\<rparr>,
      \<lparr>cat_sku = ''PLAN-UNL-5G'', cat_priceCents = 6500\<rparr>,
      \<lparr>cat_sku = ''PLAN-5G-STARTER'', cat_priceCents = 4500\<rparr>,
      \<lparr>cat_sku = ''ADDON-HOTSPOT'', cat_priceCents = 1000\<rparr>,
      \<lparr>cat_sku = ''ADDON-INTL_ROAM'', cat_priceCents = 1500\<rparr>,
      \<lparr>cat_sku = ''ADDON-DEVICE_PROTECT'', cat_priceCents = 1700\<rparr>,
      \<lparr>cat_sku = ''DEVICE-PHONE'', cat_priceCents = 79900\<rparr>]"

record feature =
  featureId :: int
  feat_code :: string
  feat_name :: string

definition FEATURE_DEFS :: "feature list" where
  "FEATURE_DEFS =
     [\<lparr>featureId = 5001, feat_code = ''HOTSPOT'', feat_name = ''Mobile Hotspot''\<rparr>,
      \<lparr>featureId = 5002, feat_code = ''INTL_ROAM'', feat_name = ''International Roaming Pack''\<rparr>,
      \<lparr>featureId = 5003, feat_code = ''DEVICE_PROTECT'', feat_name = ''Device Protection''\<rparr>,
      \<lparr>featureId = 5004, feat_code = ''VISUAL_VM'', feat_name = ''Visual Voicemail''\<rparr>]"

record ticket_status_code =
  tsc_code :: string
  tsc_description :: string

definition TICKET_STATUS :: "ticket_status_code list" where
  "TICKET_STATUS =
     [\<lparr>tsc_code = ''OPEN'', tsc_description = ''Open / Investigating''\<rparr>,
      \<lparr>tsc_code = ''WIP'', tsc_description = ''Work in Progress''\<rparr>,
      \<lparr>tsc_code = ''RESOLVED'', tsc_description = ''Resolved''\<rparr>]"

definition TICKET_SUMMARIES :: "string list" where
  "TICKET_SUMMARIES =
     [''Intermittent data connectivity in downtown area'',
      ''Unable to activate device after SIM swap'',
      ''Voicemail not syncing'',
      ''Roaming add-on stuck in provisioning'',
      ''High latency during evening hours'',
      ''Dropped calls reported near highway corridor'']"

definition NOTE_AUTHORS :: "string list" where
  "NOTE_AUTHORS = [''opsAgent7'', ''netOps2'', ''care1'', ''care2'', ''fulfill3'', ''netOps4'']"

section \<open>Identifier counters\<close>

record id_ranges =
  ids_accountId :: int
  ids_subscriberId :: int
  ids_deviceId :: int
  ids_orderId :: int
  ids_orderItemId :: int
  ids_subscriberFeatureStateId :: int
  ids_ticketId :: int
  ids_noteId :: int
  ids_orgUnitId :: int
  ids_planId :: int
  ids_regionId :: int
  ids_deviceClassId :: int
  ids_deviceEventId :: int
  ids_usageRecordId :: int

definition idRanges :: id_ranges where
  "idRanges =
     \<lparr>ids_accountId = 1001,
      ids_subscriberId = 2001,
      ids_deviceId = 3001,
      ids_orderId = 4001,
      ids_orderItemId = 4101,
      ids_subscriberFeatureStateId = 6001,
      ids_ticketId = 7001,
      ids_noteId = 8001,
      ids_orgUnitId = 9001,
      ids_planId = 10001,
      ids_regionId = 11001,
      ids_deviceClassId = 12001,
      ids_deviceEventId = 13001,
      ids_usageRecordId = 14001\<rparr>"

section \<open>Canonical entities\<close>

text \<open>
  One record per entity, with the fields of the object literal that the generator pushes.
  A field name that several entities share carries a short entity prefix. Time fields hold
  the instant in epoch milliseconds; the source stores its text \<open>iso(...)\<close>
  (\<open>isoText\<close> below; the instants of a generated row lie a few days to a few weeks
  before 2026-01-18, well inside the range of \<open>Date\<close>), and the one place that reads a stored time back (\<open>new Date(s.createdAt).getTime()\<close> for
  devices) recovers the same instant. \<open>null\<close> is \<open>None\<close>.
\<close>

record account =
  accountId :: int
  accountNumber :: string
  acct_name :: string
  billingRegionCode :: string
  acct_status :: string
  acct_createdAt :: int

record subscriber =
  subscriberId :: int
  sub_accountId :: int
  msisdn :: string
  sub_status :: string
  sub_createdAt :: int

record preferences =
  marketingOptIn :: bool
  paperlessBilling :: bool

text \<open>
  \<open>profile_fields\<close> is a subscriber profile without its key: what the destructuring
  \<open>const { subscriberId, ...rest } = prof\<close> keeps in \<open>rest\<close>.
\<close>

record profile_fields =
  firstName :: string
  lastName :: string
  email :: string
  dob :: string
  piiLast4Ssn :: string
  prof_preferences :: preferences
  updatedAt :: int

record subscriber_profile = profile_fields +
  prof_subscriberId :: int

record device =
  deviceId :: int
  dev_subscriberId :: int
  imei :: string
  model :: string
  dev_createdAt :: int

datatype payload =
    RadioAttach (cellId: string) (rssi: int)
  | Handover (fromCellId: string) (toCellId: string)
  | DataSessionStart (apn: string) (ip: string)
  | DataSessionEnd (bytesUp: int) (bytesDown: int)
  | LatencyProbe (p50Ms: int) (p95Ms: int)
  | AttachFail (cause: string)
  | EmptyPayload

record device_event =
  deviceEventId :: int
  ev_deviceId :: int
  eventType :: string
  ev_ts :: int
  ev_payload :: payload

record order =
  orderId :: int
  ord_accountId :: int
  ord_status :: string
  ord_createdAt :: int

text \<open>
  \<open>item_fields\<close> is the field set of an item embedded in an order of the optimized shape;
  a canonical order item adds \<open>orderId\<close>.
\<close>

record item_fields =
  orderItemId :: int
  sku :: string
  qty :: int
  priceCents :: int

record order_item = item_fields +
  item_orderId :: int

record subscriber_feature =
  sf_subscriberId :: int
  sf_featureId :: int

record subscriber_feature_state =
  subscriberFeatureStateId :: int
  sfs_subscriberId :: int
  sfs_featureId :: int
  effectiveFrom :: int
  effectiveTo :: "int option"
  provisioningState :: string
  sfs_source :: string

record ticket =
  ticketId :: int
  tkt_subscriberId :: int
  statusCode :: string
  openedAt :: int
  closedAt :: "int option"
  summary :: string

record note_row =
  noteId :: int
  refType :: string
  refId :: int
  author :: string
  body :: string
  note_createdAt :: int

record org_unit =
  orgUnitId :: int
  ou_name :: string
  parentOrgUnitId :: "int option"

record plan =
  planId :: int
  plan_code :: string
  plan_name :: string

record region =
  regionId :: int
  reg_code :: string

record device_class =
  deviceClassId :: int
  dc_code :: string

record rate =
  rate_planId :: int
  rate_regionId :: int
  rate_deviceClassId :: int
  rateCents :: int

record usage_record =
  usageRecordId :: int
  ur_subscriberId :: int
  ur_ts :: int
  usageType :: string
  units :: int
  ratedCents :: int

record canonical =
  c_accounts :: "account list"
  c_subscribers :: "subscriber list"
  c_subscriber_profiles :: "subscriber_profile list"
  c_devices :: "device list"
  c_device_events :: "device_event list"
  c_orders :: "order list"
  c_order_items :: "order_item list"
  c_features :: "feature list"
  c_subscriber_features :: "subscriber_feature list"
  c_subscriber_feature_state :: "subscriber_feature_state list"
  c_ticket_status_codes :: "ticket_status_code list"
  c_tickets :: "ticket list"
  c_notes :: "note_row list"
  c_org_units :: "org_unit list"
  c_plans :: "plan list"
  c_regions :: "region list"
  c_device_classes :: "device_class list"
  c_rates :: "rate list"
  c_usage_records :: "usage_record list"

section \<open>Canonical generation\<close>

text \<open>
  The generator's mutable state is the random source and the \<open>ids\<close> object. A
  \<open>for\<close> loop whose body pushes rows is \<open>forEach\<close>: the body receives the loop
  variable and the state and returns the rows it pushes and the new state.
\<close>

type_synonym gen_state = "rng \<times> id_ranges"

fun forEach :: "('a \<Rightarrow> 's \<Rightarrow> 'b list \<times> 's) \<Rightarrow> 'a list \<Rightarrow> 's \<Rightarrow> 'b list \<times> 's" where
  "forEach f [] s = ([], s)"
| "forEach f (x # xs) s =
     (let (ys, s1) = f x s;
          (zs, s2) = forEach f xs s1
      in (ys @ zs, s2))"

definition base :: int where
  "base = 1768694400000"

definition dayMs :: int where
  "dayMs = 24 * 60 * 60 * 1000"

subsection \<open>Static reference entities\<close>

definition gen_plans :: "id_ranges \<Rightarrow> plan list \<times> id_ranges" where
  "gen_plans ids =
     (let p1 = \<lparr>planId = ids_planId ids, plan_code = ''PLAN-UNL-5G'', plan_name = ''Unlimited 5G''\<rparr>;
          ids1 = ids\<lparr>ids_planId := ids_planId ids + 1\<rparr>;
          p2 = \<lparr>planId = ids_planId ids1, plan_code = ''PLAN-5G-STARTER'', plan_name = ''5G Starter''\<rparr>;
          ids2 = ids1\<lparr>ids_planId := ids_planId ids1 + 1\<rparr>
      in ([p1, p2], ids2))"

fun region_body :: "string \<Rightarrow> id_ranges \<Rightarrow> region list \<times> id_ranges" where
  "region_body code ids =
     ([\<lparr>regionId = ids_regionId ids, reg_code = code\<rparr>],
      ids\<lparr>ids_regionId := ids_regionId ids + 1\<rparr>)"

definition gen_deviceClasses :: "id_ranges \<Rightarrow> device_class list \<times> id_ranges" where
  "gen_deviceClasses ids =
     (let c1 = \<lparr>deviceClassId = ids_deviceClassId ids, dc_code = ''PHONE''\<rparr>;
          ids1 = ids\<lparr>ids_deviceClassId := ids_deviceClassId ids + 1\<rparr>;
          c2 = \<lparr>deviceClassId = ids_deviceClassId ids1, dc_code = ''TABLET''\<rparr>;
          ids2 = ids1\<lparr>ids_deviceClassId := ids_deviceClassId ids1 + 1\<rparr>
      in ([c1, c2], ids2))"

definition orgUnits :: "org_unit list" where
  "orgUnits =
     [\<lparr>orgUnitId = 9001, ou_name = ''Network Ops'', parentOrgUnitId = None\<rparr>,
      \<lparr>orgUnitId = 9002, ou_name = ''Core Network'', parentOrgUnitId = Some 9001\<rparr>,
      \<lparr>orgUnitId = 9003, ou_name = ''Radio Access Network'', parentOrgUnitId = Some 9001\<rparr>,
      \<lparr>orgUnitId = 9004, ou_name = ''Customer Care'', parentOrgUnitId = None\<rparr>,
      \<lparr>orgUnitId = 9005, ou_name = ''Field Ops'', parentOrgUnitId = Some 9004\<rparr>]"

definition gen_rate :: "plan \<Rightarrow> region \<Rightarrow> device_class \<Rightarrow> rate" where
  "gen_rate p r dc =
     (let base' = (if plan_code p = ''PLAN-UNL-5G'' then 6500 else 4500);
          regionDelta = (if reg_code r = ''TX-NORTH'' then 0 else - 200);
          classDelta = (if dc_code dc = ''PHONE'' then 0 else - 1000)
      in \<lparr>rate_planId = planId p,
          rate_regionId = regionId r,
          rate_deviceClassId = deviceClassId dc,
          rateCents = base' + regionDelta + classDelta\<rparr>)"

definition gen_rates :: "plan list \<Rightarrow> region list \<Rightarrow> device_class list \<Rightarrow> rate list" where
  "gen_rates plans regions deviceClasses =
     concat (map (\<lambda>p. concat (map (\<lambda>r. map (\<lambda>dc. gen_rate p r dc) deviceClasses) regions)) plans)"

subsection \<open>Accounts\<close>

fun account_body :: "cfg \<Rightarrow> nat \<Rightarrow> gen_state \<Rightarrow> account list \<times> gen_state" where
  "account_body cfg i (g, ids) =
     (let accountId' = ids_accountId ids;
          ids' = ids\<lparr>ids_accountId := accountId' + 1\<rparr>;
          name = ACCOUNT_NAMES ! (i mod length ACCOUNT_NAMES);
          (billingRegionCode', g') = choice g REGION_CODES;
          createdAt = base - (days cfg + 5) * dayMs + int i * 2 * 60 * 60 * 1000
      in ([\<lparr>accountId = accountId',
            accountNumber = ''A-'' @ numberToString accountId',
            acct_name = name,
            billingRegionCode = billingRegionCode',
            acct_status = ''active'',
            acct_createdAt = createdAt\<rparr>],
          (g', ids')))"

definition gen_accounts :: "cfg \<Rightarrow> gen_state \<Rightarrow> account list \<times> gen_state" where
  "gen_accounts cfg s = forEach (account_body cfg) [0..<nat (accounts cfg)] s"

subsection \<open>Subscribers and profiles\<close>

definition firstNames :: "string list" where
  "firstNames = [''Alex'', ''Jordan'', ''Casey'', ''Taylor'', ''Morgan'', ''Riley'', ''Sam'', ''Drew'']"

definition lastNames :: "string list" where
  "lastNames = [''Bennett'', ''Kim'', ''Nguyen'', ''Reed'', ''Patel'', ''Santos'', ''Carter'', ''Lopez'']"

fun subscriber_body ::
  "cfg \<Rightarrow> account \<Rightarrow> nat \<Rightarrow> gen_state \<Rightarrow> (subscriber \<times> subscriber_profile) list \<times> gen_state" where
  "subscriber_body cfg acct j (g0, ids) =
     (let subscriberId' = ids_subscriberId ids;
          ids' = ids\<lparr>ids_subscriberId := subscriberId' + 1\<rparr>;
          msisdn' = ''+1214555'' @ padNum (subscriberId' mod 10000) 4;
          createdAt = base - (days cfg + 3) * dayMs + (subscriberId' mod 20) * 15 * 60 * 1000;
          (d1, g1) = rand g0;
          status = (if drawBelow d1 1 10 then ''suspended'' else ''active'');
          (fn, g2) = choice g1 firstNames;
          (ln, g3) = choice g2 lastNames;
          (dobYear, g4) = intBetween g3 1980 1998;
          (dobMonth, g5) = intBetween g4 1 12;
          (dobDay, g6) = intBetween g5 1 28;
          (h, g7) = intBetween g6 1 12;
          updatedAt' = base - days cfg * dayMs + h * 60 * 60 * 1000;
          (pii, g8) = intBetween g7 0 9999;
          (d9, g9) = rand g8;
          (d10, g10) = rand g9
      in ([(\<lparr>subscriberId = subscriberId',
             sub_accountId = accountId acct,
             msisdn = msisdn',
             sub_status = status,
             sub_createdAt = createdAt\<rparr>,
            \<lparr>firstName = fn,
             lastName = ln,
             email = toLowerCase fn @ ''.'' @ toLowerCase ln @ ''@example.com'',
             dob = numberToString dobYear @ ''-'' @ padNum dobMonth 2 @ ''-'' @ padNum dobDay 2,
             piiLast4Ssn = padNum pii 4,
             prof_preferences =
               \<lparr>marketingOptIn = drawBelow d9 1 2, paperlessBilling = drawBelow d10 7 10\<rparr>,
             updatedAt = updatedAt',
             prof_subscriberId = subscriberId'\<rparr>)],
          (g10, ids')))"

fun subscribers_of_account ::
  "cfg \<Rightarrow> account \<Rightarrow> gen_state \<Rightarrow> (subscriber \<times> subscriber_profile) list \<times> gen_state" where
  "subscribers_of_account cfg acct (g, ids) =
     (let (subsCount, g') = intBetween g (subsPerAccountMin cfg) (subsPerAccountMax cfg)
      in forEach (subscriber_body cfg acct) [0..<nat subsCount] (g', ids))"

definition gen_subscribers ::
  "cfg \<Rightarrow> account list \<Rightarrow> gen_state \<Rightarrow> (subscriber \<times> subscriber_profile) list \<times> gen_state" where
  "gen_subscribers cfg accts s = forEach (subscribers_of_account cfg) accts s"

subsection \<open>Devices\<close>

fun device_body :: "subscriber \<Rightarrow> gen_state \<Rightarrow> device list \<times> gen_state" where
  "device_body s (g, ids) =
     (let deviceId' = ids_deviceId ids;
          ids' = ids\<lparr>ids_deviceId := deviceId' + 1\<rparr>;
          imei' = ''356789012'' @ padNum deviceId' 6;
          (model', g') = choice g DEVICE_MODELS
      in ([\<lparr>deviceId = deviceId',
            dev_subscriberId = subscriberId s,
            imei = imei',
            model = model',
            dev_createdAt = sub_createdAt s + 30 * 60 * 1000\<rparr>],
          (g', ids')))"

definition gen_devices :: "subscriber list \<Rightarrow> gen_state \<Rightarrow> device list \<times> gen_state" where
  "gen_devices subs s = forEach device_body subs s"

subsection \<open>Orders and order items\<close>

fun order_item_body :: "int \<Rightarrow> sku_def \<Rightarrow> gen_state \<Rightarrow> order_item list \<times> gen_state" where
  "order_item_body orderId' s (g, ids) =
     ([\<lparr>orderItemId = ids_orderItemId ids,
        sku = cat_sku s,
        qty = 1,
        priceCents = cat_priceCents s,
        item_orderId = orderId'\<rparr>],
      (g, ids\<lparr>ids_orderItemId := ids_orderItemId ids + 1\<rparr>))"

fun order_body ::
  "cfg \<Rightarrow> account \<Rightarrow> nat \<Rightarrow> gen_state \<Rightarrow> (order \<times> order_item list) list \<times> gen_state" where
  "order_body cfg acct k (g0, ids) =
     (let orderId' = ids_orderId ids;
          ids' = ids\<lparr>ids_orderId := orderId' + 1\<rparr>;
          statuses = [''submitted'', ''fulfilled'', ''canceled''];
          (status, g1) = choice g0 statuses;
          (h, g2) = intBetween g1 1 36;
          createdAt = base - days cfg * dayMs + h * 60 * 60 * 1000;
          (itemsCount, g3) = intBetween g2 (itemsPerOrderMin cfg) (itemsPerOrderMax cfg);
          (shuffled, g4) = shuffle g3 ORDER_SKUS;
          skus = slice0 shuffled itemsCount;
          (items, s') = forEach (order_item_body orderId') skus (g4, ids')
      in ([(\<lparr>orderId = orderId',
             ord_accountId = accountId acct,
             ord_status = status,
             ord_createdAt = createdAt\<rparr>,
            items)],
          s'))"

fun orders_of_account ::
  "cfg \<Rightarrow> account \<Rightarrow> gen_state \<Rightarrow> (order \<times> order_item list) list \<times> gen_state" where
  "orders_of_account cfg acct (g, ids) =
     (let (oCount, g') = intBetween g (ordersPerAccountMin cfg) (ordersPerAccountMax cfg)
      in forEach (order_body cfg acct) [0..<nat oCount] (g', ids))"

definition gen_orders ::
  "cfg \<Rightarrow> account list \<Rightarrow> gen_state \<Rightarrow> (order \<times> order_item list) list \<times> gen_state" where
  "gen_orders cfg accts s = forEach (orders_of_account cfg) accts s"

subsection \<open>Features and the subscriber-feature bridge\<close>

fun subscriber_features_body ::
  "feature list \<Rightarrow> subscriber \<Rightarrow> gen_state \<Rightarrow> subscriber_feature list \<times> gen_state" where
  "subscriber_features_body features s (g0, ids) =
     (let (count, g1) = intBetween g0 1 2;
          (shuffled, g2) = shuffle g1 features;
          chosen = slice0 shuffled count
      in (map (\<lambda>f. \<lparr>sf_subscriberId = subscriberId s, sf_featureId = featureId f\<rparr>) chosen,
          (g2, ids)))"

definition gen_subscriberFeatures ::
  "feature list \<Rightarrow> subscriber list \<Rightarrow> gen_state \<Rightarrow> subscriber_feature list \<times> gen_state" where
  "gen_subscriberFeatures features subs s = forEach (subscriber_features_body features) subs s"

subsection \<open>Subscriber feature state\<close>

definition sources :: "string list" where
  "sources = [''self-serve'', ''call-center'', ''system'']"

definition states :: "string list" where
  "states = [''pending'', ''active'', ''failed'']"

fun feature_state_body ::
  "cfg \<Rightarrow> subscriber_feature \<Rightarrow> gen_state \<Rightarrow> subscriber_feature_state list \<times> gen_state" where
  "feature_state_body cfg sf (g0, ids) =
     (let (d1, g1) = rand g0
      in if drawBelow d1 55 100 then ([], (g1, ids))
         else
           (let (h, g2) = intBetween g1 1 48;
                effectiveFrom' = base - (days cfg + 1) * dayMs + h * 60 * 60 * 1000;
                (d3, g3) = rand g2;
                (provisioningState', g4) =
                  (if drawBelow d3 75 100 then (''active'', g3) else choice g3 states);
                (source, g5) = choice g4 sources;
                (d6, g6) = rand g5;
                effectiveTo' = (if drawBelow d6 15 100 then Some (effectiveFrom' + 3 * dayMs) else None)
            in ([\<lparr>subscriberFeatureStateId = ids_subscriberFeatureStateId ids,
                  sfs_subscriberId = sf_subscriberId sf,
                  sfs_featureId = sf_featureId sf,
                  effectiveFrom = effectiveFrom',
                  effectiveTo = effectiveTo',
                  provisioningState = provisioningState',
                  sfs_source = source\<rparr>],
                (g6, ids\<lparr>ids_subscriberFeatureStateId := ids_subscriberFeatureStateId ids + 1\<rparr>))))"

definition gen_subscriberFeatureState ::
  "cfg \<Rightarrow> subscriber_feature list \<Rightarrow> gen_state \<Rightarrow> subscriber_feature_state list \<times> gen_state" where
  "gen_subscriberFeatureState cfg sfs s = forEach (feature_state_body cfg) sfs s"

subsection \<open>Tickets\<close>

fun ticket_body ::
  "cfg \<Rightarrow> ticket_status_code list \<Rightarrow> subscriber \<Rightarrow> nat \<Rightarrow> gen_state \<Rightarrow> ticket list \<times> gen_state" where
  "ticket_body cfg ticketStatusCodes s i (g0, ids) =
     (let ticketId' = ids_ticketId ids;
          ids' = ids\<lparr>ids_ticketId := ticketId' + 1\<rparr>;
          (sc, g1) = choice g0 ticketStatusCodes;
          statusCode' = tsc_code sc;
          (h, g2) = intBetween g1 1 48;
          openedAt' = base - days cfg * dayMs + h * 60 * 60 * 1000;
          isResolved = (statusCode' = ''RESOLVED'');
          (closedAt', g3) =
            (if isResolved
             then (let (m, g') = intBetween g2 15 180 in (Some (openedAt' + m * 60 * 1000), g'))
             else (None, g2));
          (summary', g4) = choice g3 TICKET_SUMMARIES
      in ([\<lparr>ticketId = ticketId',
            tkt_subscriberId = subscriberId s,
            statusCode = statusCode',
            openedAt = openedAt',
            closedAt = closedAt',
            summary = summary'\<rparr>],
          (g4, ids')))"

fun tickets_of_subscriber ::
  "cfg \<Rightarrow> ticket_status_code list \<Rightarrow> subscriber \<Rightarrow> gen_state \<Rightarrow> ticket list \<times> gen_state" where
  "tickets_of_subscriber cfg ticketStatusCodes s (g, ids) =
     (let (tCount, g') = intBetween g (ticketsPerSubscriberMin cfg) (ticketsPerSubscriberMax cfg)
      in forEach (ticket_body cfg ticketStatusCodes s) [0..<nat tCount] (g', ids))"

definition gen_tickets ::
  "cfg \<Rightarrow> ticket_status_code list \<Rightarrow> subscriber list \<Rightarrow> gen_state \<Rightarrow> ticket list \<times> gen_state" where
  "gen_tickets cfg ticketStatusCodes subs s = forEach (tickets_of_subscriber cfg ticketStatusCodes) subs s"

subsection \<open>Notes\<close>

definition noteBodies :: "string list" where
  "noteBodies =
     [''Investigating.'', ''Collecting logs.'', ''Escalated to ops.'',
      ''Customer contacted.'', ''Retrying provisioning.'', ''Monitoring impact.'']"

fun note_body :: "cfg \<Rightarrow> string \<times> int \<Rightarrow> gen_state \<Rightarrow> note_row list \<times> gen_state" where
  "note_body cfg (refType', refId') (g0, ids) =
     (let (h, g1) = intBetween g0 1 48;
          createdAt = base - days cfg * dayMs + h * 60 * 60 * 1000;
          (author', g2) = choice g1 NOTE_AUTHORS;
          (text, g3) = choice g2 noteBodies
      in ([\<lparr>noteId = ids_noteId ids,
            refType = refType',
            refId = refId',
            author = author',
            body = ''Note on '' @ refType' @ '' '' @ numberToString refId' @ '': '' @ text,
            note_createdAt = createdAt\<rparr>],
          (g3, ids\<lparr>ids_noteId := ids_noteId ids + 1\<rparr>)))"

fun gen_notes ::
  "cfg \<Rightarrow> subscriber list \<Rightarrow> order list \<Rightarrow> ticket list \<Rightarrow> gen_state \<Rightarrow> note_row list \<times> gen_state" where
  "gen_notes cfg subs ords tkts (g0, ids) =
     (let (shuffledSubs, g1) = shuffle g0 subs;
          someSubscribers = slice0 shuffledSubs (min 4 (int (length subs)));
          (shuffledOrders, g2) = shuffle g1 ords;
          someOrders = slice0 shuffledOrders (min 3 (int (length ords)));
          (shuffledTickets, g3) = shuffle g2 tkts;
          someTickets = slice0 shuffledTickets (min 4 (int (length tkts)));
          noteRefs =
            map (\<lambda>s. (''subscriber'', subscriberId s)) someSubscribers
            @ map (\<lambda>o'. (''order'', orderId o')) someOrders
            @ map (\<lambda>t. (''ticket'', ticketId t)) someTickets
      in forEach (note_body cfg) noteRefs (g3, ids))"

subsection \<open>Device events\<close>

definition eventTypes :: "string list" where
  "eventTypes =
     [''radio_attach'', ''handover'', ''data_session_start'', ''data_session_end'',
      ''latency_probe'', ''attach_fail'']"

definition gen_payload :: "string \<Rightarrow> rng \<Rightarrow> payload \<times> rng" where
  "gen_payload eventType' g0 =
     (if eventType' = ''radio_attach'' then
        (let (c, g1) = intBetween g0 100 399;
             (r, g2) = intBetween g1 70 100
         in (RadioAttach (''DFW-'' @ numberToString c) (- r), g2))
      else if eventType' = ''handover'' then
        (let (a, g1) = intBetween g0 100 399;
             (b, g2) = intBetween g1 100 399
         in (Handover (''DFW-'' @ numberToString a) (''DFW-'' @ numberToString b), g2))
      else if eventType' = ''data_session_start'' then
        (let (a, g1) = intBetween g0 0 255;
             (b, g2) = intBetween g1 0 255;
             (c, g3) = intBetween g2 1 254
         in (DataSessionStart ''carrierops''
               (''10.'' @ numberToString a @ ''.'' @ numberToString b @ ''.'' @ numberToString c), g3))
      else if eventType' = ''data_session_end'' then
        (let (u, g1) = intBetween g0 1000000 8000000;
             (d, g2) = intBetween g1 3000000 30000000
         in (DataSessionEnd u d, g2))
      else if eventType' = ''latency_probe'' then
        (let (a, g1) = intBetween g0 20 80;
             (b, g2) = intBetween g1 100 350
         in (LatencyProbe a b, g2))
      else if eventType' = ''attach_fail'' then
        (let (c, g1) = choice g0 [''network_congestion'', ''auth_reject'', ''radio_no_service'']
         in (AttachFail c, g1))
      else (EmptyPayload, g0))"

fun device_event_body :: "cfg \<Rightarrow> device \<Rightarrow> nat \<Rightarrow> gen_state \<Rightarrow> device_event list \<times> gen_state" where
  "device_event_body cfg d i (g0, ids) =
     (let (m, g1) = intBetween g0 1 (days cfg * 24 * 60);
          ts = base - days cfg * dayMs + m * 60 * 1000;
          (eventType', g2) = choice g1 eventTypes;
          (payload', g3) = gen_payload eventType' g2
      in ([\<lparr>deviceEventId = ids_deviceEventId ids,
            ev_deviceId = deviceId d,
            eventType = eventType',
            ev_ts = ts,
            ev_payload = payload'\<rparr>],
          (g3, ids\<lparr>ids_deviceEventId := ids_deviceEventId ids + 1\<rparr>)))"

fun events_of_device :: "cfg \<Rightarrow> device \<Rightarrow> gen_state \<Rightarrow> device_event list \<times> gen_state" where
  "events_of_device cfg d (g, ids) =
     (let (eCount, g') = intBetween g (deviceEventsPerDeviceMin cfg) (deviceEventsPerDeviceMax cfg)
      in forEach (device_event_body cfg d) [0..<nat eCount] (g', ids))"

definition gen_deviceEvents :: "cfg \<Rightarrow> device list \<Rightarrow> gen_state \<Rightarrow> device_event list \<times> gen_state" where
  "gen_deviceEvents cfg devs s = forEach (events_of_device cfg) devs s"

subsection \<open>Usage records\<close>

definition usageTypes :: "string list" where
  "usageTypes = [''voice'', ''sms'', ''data'']"

definition gen_units :: "string \<Rightarrow> rng \<Rightarrow> int \<times> rng" where
  "gen_units usageType' g =
     (if usageType' = ''voice'' then intBetween g 30 600
      else if usageType' = ''sms'' then intBetween g 1 5
      else intBetween g 256 10240)"

text \<open>
  \<open>Math.ceil(units / k)\<close> for integers \<open>units\<close> and \<open>k > 0\<close>: when \<open>k\<close> divides
  \<open>units\<close> the double quotient is the exact integer, and otherwise the exact quotient
  lies at least \<open>1/k\<close> away from every integer, far more than the rounding error of the
  division, so the ceiling of the double is the ceiling of the exact quotient.
\<close>

definition ceilDiv :: "int \<Rightarrow> int \<Rightarrow> int" where
  "ceilDiv a k = - ((- a) div k)"

definition ratedCentsOf :: "string \<Rightarrow> int \<Rightarrow> int" where
  "ratedCentsOf usageType' units' =
     (if usageType' = ''sms'' then 0
      else if usageType' = ''voice'' then ceilDiv units' 60 * 4
      else ceilDiv units' 1024 * 2)"

fun usage_record_body :: "cfg \<Rightarrow> subscriber \<Rightarrow> nat \<Rightarrow> gen_state \<Rightarrow> usage_record list \<times> gen_state" where
  "usage_record_body cfg s i (g0, ids) =
     (let (m, g1) = intBetween g0 1 (days cfg * 24 * 60);
          ts = base - days cfg * dayMs + m * 60 * 1000;
          (usageType', g2) = choice g1 usageTypes;
          (units', g3) = gen_units usageType' g2;
          ratedCents' = ratedCentsOf usageType' units'
      in ([\<lparr>usageRecordId = ids_usageRecordId ids,
            ur_subscriberId = subscriberId s,
            ur_ts = ts,
            usageType = usageType',
            units = units',
            ratedCents = ratedCents'\<rparr>],
          (g3, ids\<lparr>ids_usageRecordId := ids_usageRecordId ids + 1\<rparr>)))"

definition usage_of_subscriber :: "cfg \<Rightarrow> subscriber \<Rightarrow> gen_state \<Rightarrow> usage_record list \<times> gen_state" where
  "usage_of_subscriber cfg s st =
     forEach (usage_record_body cfg s) [0..<nat (usageRecordsPerSubscriber cfg)] st"

definition gen_usageRecords :: "cfg \<Rightarrow> subscriber list \<Rightarrow> gen_state \<Rightarrow> usage_record list \<times> gen_state" where
  "gen_usageRecords cfg subs s = forEach (usage_of_subscriber cfg) subs s"

subsection \<open>The whole canonical graph\<close>

text \<open>
  \<open>arr.sort((a, b) => a.k - b.k)\<close> is a stable sort by the integer key \<open>k\<close>, which is
  \<open>sort_key\<close>; the comparator of \<open>subscriberFeatures\<close> orders by subscriber id and
  then by feature id, the lexicographic order on the pair.
\<close>

definition generateCanonical :: "rng \<Rightarrow> cfg \<Rightarrow> canonical" where
  "generateCanonical g0 cfg =
     (let ids0 = idRanges;
          (plans, ids1) = gen_plans ids0;
          (regions, ids2) = forEach region_body REGION_CODES ids1;
          (deviceClasses, ids3) = gen_deviceClasses ids2;
          rates = gen_rates plans regions deviceClasses;
          (accounts', s1) = gen_accounts cfg (g0, ids3);
          (subsAndProfiles, s2) = gen_subscribers cfg accounts' s1;
          subscribers = map fst subsAndProfiles;
          subscriberProfiles = map snd subsAndProfiles;
          (devices, s3) = gen_devices subscribers s2;
          (ordersAndItems, s4) = gen_orders cfg accounts' s3;
          orders = map fst ordersAndItems;
          orderItems = concat (map snd ordersAndItems);
          features = FEATURE_DEFS;
          (subscriberFeatures, s5) = gen_subscriberFeatures features subscribers s4;
          (subscriberFeatureState, s6) = gen_subscriberFeatureState cfg subscriberFeatures s5;
          ticketStatusCodes = TICKET_STATUS;
          (tickets, s7) = gen_tickets cfg ticketStatusCodes subscribers s6;
          (notes, s8) = gen_notes cfg subscribers orders tickets s7;
          (deviceEvents, s9) = gen_deviceEvents cfg devices s8;
          (usageRecords, s10) = gen_usageRecords cfg subscribers s9
      in \<lparr>c_accounts = sort_key accountId accounts',
          c_subscribers = sort_key subscriberId subscribers,
          c_subscriber_profiles = sort_key prof_subscriberId subscriberProfiles,
          c_devices = sort_key deviceId devices,
          c_device_events = sort_key deviceEventId deviceEvents,
          c_orders = sort_key orderId orders,
          c_order_items = sort_key orderItemId orderItems,
          c_features = features,
          c_subscriber_features =
            sort_key (\<lambda>r. (sf_subscriberId r, sf_featureId r)) subscriberFeatures,
          c_subscriber_feature_state = sort_key subscriberFeatureStateId subscriberFeatureState,
          c_ticket_status_codes = ticketStatusCodes,
          c_tickets = sort_key ticketId tickets,
          c_notes = sort_key noteId notes,
          c_org_units = orgUnits,
          c_plans = plans,
          c_regions = regions,
          c_device_classes = deviceClasses,
          c_rates = rates,
          c_usage_records = sort_key usageRecordId usageRecords\<rparr>)"

section \<open>Document projections\<close>

text \<open>
  A document of the normalized shape is \<open>{ _id: ..., ...r }\<close>: the row \<open>r\<close> with an
  identifier in front.
\<close>

datatype ('i, 'r) doc = Doc (doc_id: 'i) (doc_row: 'r)

definition withId :: "'r list \<Rightarrow> ('r \<Rightarrow> 'i) \<Rightarrow> ('i, 'r) doc list" where
  "withId rows idField = map (\<lambda>r. Doc (idField r) r) rows"

text \<open>\<open>rows.map(r => ({ _id: seq++, ...r }))\<close> with the shared counter \<open>seq\<close>.\<close>

fun withSeq_body :: "'r \<Rightarrow> int \<Rightarrow> (int, 'r) doc list \<times> int" where
  "withSeq_body r seq = ([Doc seq r], seq + 1)"

record mongo_normalized =
  n_accounts :: "(int, account) doc list"
  n_subscribers :: "(int, subscriber) doc list"
  n_subscriber_profiles :: "(int, subscriber_profile) doc list"
  n_devices :: "(int, device) doc list"
  n_device_events :: "(int, device_event) doc list"
  n_orders :: "(int, order) doc list"
  n_order_items :: "(int, order_item) doc list"
  n_features :: "(int, feature) doc list"
  n_subscriber_features :: "(int, subscriber_feature) doc list"
  n_subscriber_feature_state :: "(int, subscriber_feature_state) doc list"
  n_ticket_status_codes :: "(string, ticket_status_code) doc list"
  n_tickets :: "(int, ticket) doc list"
  n_notes :: "(int, note_row) doc list"
  n_org_units :: "(int, org_unit) doc list"
  n_plans :: "(int, plan) doc list"
  n_regions :: "(int, region) doc list"
  n_device_classes :: "(int, device_class) doc list"
  n_rates :: "(int, rate) doc list"
  n_usage_records :: "(int, usage_record) doc list"

definition toMongoNormalized :: "canonical \<Rightarrow> mongo_normalized" where
  "toMongoNormalized c =
     (let seq0 = 1;
          (subscriber_features, seq1) = forEach withSeq_body (c_subscriber_features c) seq0;
          (rates, seq2) = forEach withSeq_body (c_rates c) seq1
      in \<lparr>n_accounts = withId (c_accounts c) accountId,
          n_subscribers = withId (c_subscribers c) subscriberId,
          n_subscriber_profiles = withId (c_subscriber_profiles c) prof_subscriberId,
          n_devices = withId (c_devices c) deviceId,
          n_device_events = withId (c_device_events c) deviceEventId,
          n_orders = withId (c_orders c) orderId,
          n_order_items = withId (c_order_items c) orderItemId,
          n_features = withId (c_features c) featureId,
          n_subscriber_features = subscriber_features,
          n_subscriber_feature_state = withId (c_subscriber_feature_state c) subscriberFeatureStateId,
          n_ticket_status_codes = withId (c_ticket_status_codes c) tsc_code,
          n_tickets = withId (c_tickets c) ticketId,
          n_notes = withId (c_notes c) noteId,
          n_org_units = withId (c_org_units c) orgUnitId,
          n_plans = withId (c_plans c) planId,
          n_regions = withId (c_regions c) regionId,
          n_device_classes = withId (c_device_classes c) deviceClassId,
          n_rates = rates,
          n_usage_records = withId (c_usage_records c) usageRecordId\<rparr>)"

subsection \<open>Optimized shape\<close>

text \<open>
  An optimized subscriber is the normalized document with an optional \<open>profile\<close> and
  an optional \<open>featureCodes\<close>; an optimized order is the normalized document with
  \<open>items\<close>.
\<close>

record opt_subscriber =
  os_doc :: "(int, subscriber) doc"
  profile :: "profile_fields option"
  featureCodes :: "string list option"

record opt_order =
  oo_doc :: "(int, order) doc"
  items :: "item_fields list"

text \<open>
  The object \<open>out\<close> of \<open>toMongoOptimized\<close> is an association list from collection
  name to collection, in insertion order; \<open>{ ...mongoNormalized }\<close> copies the nineteen
  properties of the normalized object in the order \<open>toMongoNormalized\<close> assigned them.
\<close>

datatype collection =
    Accounts "(int, account) doc list"
  | Subscribers "(int, subscriber) doc list"
  | SubscriberProfiles "(int, subscriber_profile) doc list"
  | Devices "(int, device) doc list"
  | DeviceEvents "(int, device_event) doc list"
  | Orders "(int, order) doc list"
  | OrderItems "(int, order_item) doc list"
  | Features "(int, feature) doc list"
  | SubscriberFeatures "(int, subscriber_feature) doc list"
  | SubscriberFeatureStates "(int, subscriber_feature_state) doc list"
  | TicketStatusCodes "(string, ticket_status_code) doc list"
  | Tickets "(int, ticket) doc list"
  | Notes "(int, note_row) doc list"
  | OrgUnits "(int, org_unit) doc list"
  | Plans "(int, plan) doc list"
  | Regions "(int, region) doc list"
  | DeviceClasses "(int, device_class) doc list"
  | Rates "(int, rate) doc list"
  | UsageRecords "(int, usage_record) doc list"
  | OptSubscribers "opt_subscriber list"
  | OptOrders "opt_order list"

definition spread :: "mongo_normalized \<Rightarrow> (string \<times> collection) list" where
  "spread n =
     [(''accounts'', Accounts (n_accounts n)),
      (''subscribers'', Subscribers (n_subscribers n)),
      (''subscriber_profiles'', SubscriberProfiles (n_subscriber_profiles n)),
      (''devices'', Devices (n_devices n)),
      (''device_events'', DeviceEvents (n_device_events n)),
      (''orders'', Orders (n_orders n)),
      (''order_items'', OrderItems (n_order_items n)),
      (''features'', Features (n_features n)),
      (''subscriber_features'', SubscriberFeatures (n_subscriber_features n)),
      (''subscriber_feature_state'', SubscriberFeatureStates (n_subscriber_feature_state n)),
      (''ticket_status_codes'', TicketStatusCodes (n_ticket_status_codes n)),
      (''tickets'', Tickets (n_tickets n)),
      (''notes'', Notes (n_notes n)),
      (''org_units'', OrgUnits (n_org_units n)),
      (''plans'', Plans (n_plans n)),
      (''regions'', Regions (n_regions n)),
      (''device_classes'', DeviceClasses (n_device_classes n)),
      (''rates'', Rates (n_rates n)),
      (''usage_records'', UsageRecords (n_usage_records n))]"

text \<open>\<open>new Map(pairs)\<close>: a later pair with the same key replaces an earlier one.\<close>

definition newMap :: "('k \<times> 'v) list \<Rightarrow> ('k \<rightharpoonup> 'v)" where
  "newMap pairs = foldl (\<lambda>m (k, v). m(k \<mapsto> v)) Map.empty pairs"

text \<open>
  The grouping loops: \<open>if (!m.has(k)) m.set(k, []); m.get(k).push(v)\<close>.
\<close>

definition pushTo :: "('k \<rightharpoonup> 'v list) \<Rightarrow> 'k \<Rightarrow> 'v \<Rightarrow> ('k \<rightharpoonup> 'v list)" where
  "pushTo m k v = m(k \<mapsto> (case m k of None \<Rightarrow> [] | Some vs \<Rightarrow> vs) @ [v])"

definition featureCodesBySub ::
  "(int \<rightharpoonup> feature) \<Rightarrow> subscriber_feature list \<Rightarrow> (int \<rightharpoonup> string list)" where
  "featureCodesBySub featureById sfs =
     foldl (\<lambda>m sf. case featureById (sf_featureId sf) of
                      None \<Rightarrow> m
                    | Some f \<Rightarrow> pushTo m (sf_subscriberId sf) (feat_code f))
           Map.empty sfs"

definition itemsByOrderId :: "(int, order_item) doc list \<Rightarrow> (int \<rightharpoonup> item_fields list)" where
  "itemsByOrderId order_items =
     foldl (\<lambda>m d. let it = doc_row d
                   in pushTo m (item_orderId it)
                        \<lparr>orderItemId = orderItemId it, sku = sku it,
                         qty = qty it, priceCents = priceCents it\<rparr>)
           Map.empty order_items"

text \<open>
  \<open>Array.from(new Set(codes))\<close> keeps the first occurrence of each element;
  \<open>.sort()\<close> without a comparator orders strings by their code units.
\<close>

fun uniqueInOrder :: "'a list \<Rightarrow> 'a list" where
  "uniqueInOrder [] = []"
| "uniqueInOrder (x # xs) = x # uniqueInOrder (filter (\<lambda>y. y \<noteq> x) xs)"

definition orElseEmpty :: "'a list option \<Rightarrow> 'a list" where
  "orElseEmpty v = (case v of None \<Rightarrow> [] | Some xs \<Rightarrow> xs)"

definition optSubscriber ::
  "(int \<rightharpoonup> subscriber_profile) \<Rightarrow> (int \<rightharpoonup> string list) \<Rightarrow> cfg \<Rightarrow> (int, subscriber) doc
     \<Rightarrow> opt_subscriber" where
  "optSubscriber profileBySubId codesBySub cfg s =
     \<lparr>os_doc = s,
      profile =
        (case profileBySubId (subscriberId (doc_row s)) of
           None \<Rightarrow> None
         | Some prof \<Rightarrow> Some (profile_fields.truncate prof)),
      featureCodes =
        (if embedFeatureCodes cfg
         then Some (sort (uniqueInOrder (orElseEmpty (codesBySub (subscriberId (doc_row s))))))
         else None)\<rparr>"

definition optOrder :: "(int \<rightharpoonup> item_fields list) \<Rightarrow> (int, order) doc \<Rightarrow> opt_order" where
  "optOrder byOrder o' =
     \<lparr>oo_doc = o',
      items = sort_key orderItemId (orElseEmpty (byOrder (orderId (doc_row o'))))\<rparr>"

definition toMongoOptimized ::
  "canonical \<Rightarrow> mongo_normalized \<Rightarrow> cfg \<Rightarrow> (string \<times> collection) list" where
  "toMongoOptimized c mongoNormalized cfg =
     (let out0 = spread mongoNormalized;
          profileBySubId = newMap (map (\<lambda>p. (prof_subscriberId p, p)) (c_subscriber_profiles c));
          featureById = newMap (map (\<lambda>f. (featureId f, f)) (c_features c));
          codesBySub = featureCodesBySub featureById (c_subscriber_features c);
          out1 = AList.update ''subscribers''
                   (OptSubscribers
                      (map (optSubscriber profileBySubId codesBySub cfg) (n_subscribers mongoNormalized)))
                   out0;
          byOrder = itemsByOrderId (n_order_items mongoNormalized);
          out2 = AList.update ''orders''
                   (OptOrders (map (optOrder byOrder) (n_orders mongoNormalized)))
                   out1;
          out3 = AList.delete ''order_items'' out2;
          out4 = AList.delete ''subscriber_profiles'' out3
      in out4)"

section \<open>Relational projection\<close>

text \<open>
  \<open>iso(dt)\<close> is \<open>new Date(dt).toISOString().replace('.000Z', 'Z')\<close>. A \<open>Date\<close>
  holds an instant of at most 8.64e15 milliseconds either side of the epoch; beyond that
  it is invalid and \<open>toISOString\<close> throws a \<open>RangeError\<close>. The text has the year
  in four digits from year 0 to year 9999 and with a sign and six digits otherwise, and
  always three digits of milliseconds, which \<open>replace\<close> removes when they are zero.
  The date is computed from the day number by the usual era/day-of-era arithmetic of the
  proleptic Gregorian calendar. \<open>isoText\<close> is the text alone; the rows of the canonical
  graph hold instants for which \<open>iso\<close> returned, and their text is \<open>isoText\<close>.
\<close>

definition civilFromDays :: "int \<Rightarrow> int \<times> int \<times> int" where
  "civilFromDays z0 =
     (let z = z0 + 719468;
          era = z div 146097;
          doe = z mod 146097;
          yoe = (doe - doe div 1460 + doe div 36524 - doe div 146096) div 365;
          y = yoe + era * 400;
          doy = doe - (365 * yoe + yoe div 4 - yoe div 100);
          mp = (5 * doy + 2) div 153;
          d = doy - (153 * mp + 2) div 5 + 1;
          m = (if mp < 10 then mp + 3 else mp - 9)
      in (if m \<le> 2 then y + 1 else y, m, d))"

definition yearText :: "int \<Rightarrow> string" where
  "yearText y =
     (if 0 \<le> y \<and> y \<le> 9999 then padNum y 4
      else (if y < 0 then ''-'' else ''+'') @ padNum \<bar>y\<bar> 6)"

definition isoText :: "int \<Rightarrow> string" where
  "isoText ms =
     (let (y, m, d) = civilFromDays (ms div 86400000);
          r = ms mod 86400000;
          frac = r mod 1000
      in yearText y @ ''-'' @ padNum m 2 @ ''-'' @ padNum d 2 @ ''T''
         @ padNum (r div 3600000) 2 @ '':'' @ padNum (r div 60000 mod 60) 2 @ '':''
         @ padNum (r div 1000 mod 60) 2
         @ (if frac = 0 then ''Z'' else ''.'' @ padNum frac 3 @ ''Z''))"

definition iso :: "int \<Rightarrow> error + string" where
  "iso ms =
     (if \<bar>ms\<bar> \<le> 8640000000000000 then Inr (isoText ms)
      else Inl (Error ''Invalid time value''))"

text \<open>
  \<open>jsonString\<close> is \<open>JSON.stringify\<close> on the two structured columns. The strings inside
  a payload are built from letters, digits, dots and dashes, which JSON writes as they are.
\<close>

definition jsonQuote :: "string \<Rightarrow> string" where
  "jsonQuote s = [CHR 0x22] @ s @ [CHR 0x22]"

definition jsonBool :: "bool \<Rightarrow> string" where
  "jsonBool b = (if b then ''true'' else ''false'')"

definition jsonObject :: "(string \<times> string) list \<Rightarrow> string" where
  "jsonObject kvs =
     ''{'' @ concat (map (\<lambda>(i, (k, v)). (if i = 0 then [] else '','') @ jsonQuote k @ '':'' @ v)
                        (enumerate 0 kvs)) @ ''}''"

definition jsonPreferences :: "preferences \<Rightarrow> string" where
  "jsonPreferences p =
     jsonObject [(''marketingOptIn'', jsonBool (marketingOptIn p)),
                 (''paperlessBilling'', jsonBool (paperlessBilling p))]"

fun jsonPayload :: "payload \<Rightarrow> string" where
  "jsonPayload (RadioAttach c r) =
     jsonObject [(''cellId'', jsonQuote c), (''rssi'', numberToString r)]"
| "jsonPayload (Handover a b) =
     jsonObject [(''fromCellId'', jsonQuote a), (''toCellId'', jsonQuote b)]"
| "jsonPayload (DataSessionStart a i) =
     jsonObject [(''apn'', jsonQuote a), (''ip'', jsonQuote i)]"
| "jsonPayload (DataSessionEnd u d) =
     jsonObject [(''bytesUp'', numberToString u), (''bytesDown'', numberToString d)]"
| "jsonPayload (LatencyProbe a b) =
     jsonObject [(''p50Ms'', numberToString a), (''p95Ms'', numberToString b)]"
| "jsonPayload (AttachFail c) = jsonObject [(''cause'', jsonQuote c)]"
| "jsonPayload EmptyPayload = jsonObject []"

text \<open>
  A cell is what \<open>csvEscape\<close> receives: \<open>None\<close> for \<open>null\<close>, otherwise the string of
  the value. A row lists its cells in the order of the headers.
\<close>

definition num :: "int \<Rightarrow> string option" where
  "num n = Some (numberToString n)"

definition time :: "int \<Rightarrow> string option" where
  "time ms = Some (isoText ms)"

definition join :: "string \<Rightarrow> string list \<Rightarrow> string" where
  "join sep xs =
     concat (map (\<lambda>(i, x). (if i = 0 then [] else sep) @ x) (enumerate 0 xs))"

definition toCsv :: "string list \<Rightarrow> string option list list \<Rightarrow> string" where
  "toCsv headers rows =
     join [CHR 0x0A] (join '','' headers # map (\<lambda>r. join '','' (map csvEscape r)) rows)
     @ [CHR 0x0A]"

record csv_bundle =
  filename :: string
  headers :: "string list"
  rows :: "string option list list"

definition toPostgresCsvBundles :: "canonical \<Rightarrow> csv_bundle list" where
  "toPostgresCsvBundles c =
     [\<lparr>filename = ''accounts.csv'',
       headers = [''account_id'', ''account_number'', ''name'', ''billing_region_code'',
                  ''status'', ''created_at''],
       rows = map (\<lambda>r. [num (accountId r), Some (accountNumber r), Some (acct_name r),
                         Some (billingRegionCode r), Some (acct_status r),
                         time (acct_createdAt r)]) (c_accounts c)\<rparr>,
      \<lparr>filename = ''subscribers.csv'',
       headers = [''subscriber_id'', ''account_id'', ''msisdn'', ''status'', ''created_at''],
       rows = map (\<lambda>r. [num (subscriberId r), num (sub_accountId r), Some (msisdn r),
                         Some (sub_status r), time (sub_createdAt r)]) (c_subscribers c)\<rparr>,
      \<lparr>filename = ''subscriber_profiles.csv'',
       headers = [''subscriber_id'', ''first_name'', ''last_name'', ''email'', ''dob'',
                  ''pii_last4_ssn'', ''preferences'', ''updated_at''],
       rows = map (\<lambda>r. [num (prof_subscriberId r), Some (firstName r), Some (lastName r),
                         Some (email r), Some (dob r), Some (piiLast4Ssn r),
                         Some (jsonPreferences (prof_preferences r)), time (updatedAt r)])
                  (c_subscriber_profiles c)\<rparr>,
      \<lparr>filename = ''devices.csv'',
       headers = [''device_id'', ''subscriber_id'', ''imei'', ''model'', ''created_at''],
       rows = map (\<lambda>r. [num (deviceId r), num (dev_subscriberId r), Some (imei r),
                         Some (model r), time (dev_createdAt r)]) (c_devices c)\<rparr>,
      \<lparr>filename = ''device_events.csv'',
       headers = [''device_event_id'', ''device_id'', ''event_type'', ''ts'', ''payload''],
       rows = map (\<lambda>r. [num (deviceEventId r), num (ev_deviceId r), Some (eventType r),
                         time (ev_ts r), Some (jsonPayload (ev_payload r))])
                  (c_device_events c)\<rparr>,
      \<lparr>filename = ''orders.csv'',
       headers = [''order_id'', ''account_id'', ''status'', ''created_at''],
       rows = map (\<lambda>r. [num (orderId r), num (ord_accountId r), Some (ord_status r),
                         time (ord_createdAt r)]) (c_orders c)\<rparr>,
      \<lparr>filename = ''order_items.csv'',
       headers = [''order_item_id'', ''order_id'', ''sku'', ''qty'', ''price_cents''],
       rows = map (\<lambda>r. [num (orderItemId r), num (item_orderId r), Some (sku r),
                         num (qty r), num (priceCents r)]) (c_order_items c)\<rparr>,
      \<lparr>filename = ''features.csv'',
       headers = [''feature_id'', ''code'', ''name''],
       rows = map (\<lambda>r. [num (featureId r), Some (feat_code r), Some (feat_name r)])
                  (c_features c)\<rparr>,
      \<lparr>filename = ''subscriber_features.csv'',
       headers = [''subscriber_id'', ''feature_id''],
       rows = map (\<lambda>r. [num (sf_subscriberId r), num (sf_featureId r)])
                  (c_subscriber_features c)\<rparr>,
      \<lparr>filename = ''subscriber_feature_state.csv'',
       headers = [''subscriber_feature_state_id'', ''subscriber_id'', ''feature_id'',
                  ''effective_from'', ''effective_to'', ''provisioning_state'', ''source''],
       rows = map (\<lambda>r. [num (subscriberFeatureStateId r), num (sfs_subscriberId r),
                         num (sfs_featureId r), time (effectiveFrom r),
                         map_option isoText (effectiveTo r), Some (provisioningState r),
                         Some (sfs_source r)]) (c_subscriber_feature_state c)\<rparr>,
      \<lparr>filename = ''ticket_status_codes.csv'',
       headers = [''code'', ''description''],
       rows = map (\<lambda>r. [Some (tsc_code r), Some (tsc_description r)])
                  (c_ticket_status_codes c)\<rparr>,
      \<lparr>filename = ''tickets.csv'',
       headers = [''ticket_id'', ''subscriber_id'', ''status_code'', ''opened_at'',
                  ''closed_at'', ''summary''],
       rows = map (\<lambda>r. [num (ticketId r), num (tkt_subscriberId r), Some (statusCode r),
                         time (openedAt r), map_option isoText (closedAt r), Some (summary r)])
                  (c_tickets c)\<rparr>,
      \<lparr>filename = ''notes.csv'',
       headers = [''note_id'', ''ref_type'', ''ref_id'', ''author'', ''body'', ''created_at''],
       rows = map (\<lambda>r. [num (noteId r), Some (refType r), num (refId r), Some (author r),
                         Some (body r), time (note_createdAt r)]) (c_notes c)\<rparr>,
      \<lparr>filename = ''org_units.csv'',
       headers = [''org_unit_id'', ''name'', ''parent_org_unit_id''],
       rows = map (\<lambda>r. [num (orgUnitId r), Some (ou_name r),
                         map_option numberToString (parentOrgUnitId r)]) (c_org_units c)\<rparr>,
      \<lparr>filename = ''plans.csv'',
       headers = [''plan_id'', ''code'', ''name''],
       rows = map (\<lambda>r. [num (planId r), Some (plan_code r), Some (plan_name r)])
                  (c_plans c)\<rparr>,
      \<lparr>filename = ''regions.csv'',
       headers = [''region_id'', ''code''],
       rows = map (\<lambda>r. [num (regionId r), Some (reg_code r)]) (c_regions c)\<rparr>,
      \<lparr>filename = ''device_classes.csv'',
       headers = [''device_class_id'', ''code''],
       rows = map (\<lambda>r. [num (deviceClassId r), Some (dc_code r)]) (c_device_classes c)\<rparr>,
      \<lparr>filename = ''rates.csv'',
       headers = [''plan_id'', ''region_id'', ''device_class_id'', ''rate_cents''],
       rows = map (\<lambda>r. [num (rate_planId r), num (rate_regionId r),
                         num (rate_deviceClassId r), num (rateCents r)]) (c_rates c)\<rparr>,
      \<lparr>filename = ''usage_records.csv'',
       headers = [''usage_record_id'', ''subscriber_id'', ''ts'', ''usage_type'', ''units'',
                  ''rated_cents''],
       rows = map (\<lambda>r. [num (usageRecordId r), num (ur_subscriberId r), time (ur_ts r),
                         Some (usageType r), num (units r), num (ratedCents r)])
                  (c_usage_records c)\<rparr>]"

section \<open>Writing the outputs\<close>

text \<open>
  \<open>args\<close> is the object that \<open>generateAll\<close> receives: the size, the seed (an
  integer), the output directory, the shape selector and the overwrite flag. Reading them
  from the command line is the work of \<open>parseArgs\<close>, which is not part of this
  development.
\<close>

record args =
  arg_size :: string
  arg_seed :: int
  arg_out :: string
  arg_only :: string
  arg_overwrite :: bool

definition entityOrder :: "string list" where
  "entityOrder =
     [''accounts'', ''subscribers'', ''subscriber_profiles'', ''devices'', ''device_events'',
      ''orders'', ''order_items'', ''features'', ''subscriber_features'',
      ''subscriber_feature_state'', ''ticket_status_codes'', ''tickets'', ''notes'',
      ''org_units'', ''plans'', ''regions'', ''device_classes'', ''rates'', ''usage_records'']"

definition canonicalCounts :: "canonical \<Rightarrow> (string \<times> nat) list" where
  "canonicalCounts c =
     [(''accounts'', length (c_accounts c)),
      (''subscribers'', length (c_subscribers c)),
      (''subscriber_profiles'', length (c_subscriber_profiles c)),
      (''devices'', length (c_devices c)),
      (''device_events'', length (c_device_events c)),
      (''orders'', length (c_orders c)),
      (''order_items'', length (c_order_items c)),
      (''features'', length (c_features c)),
      (''subscriber_features'', length (c_subscriber_features c)),
      (''subscriber_feature_state'', length (c_subscriber_feature_state c)),
      (''ticket_status_codes'', length (c_ticket_status_codes c)),
      (''tickets'', length (c_tickets c)),
      (''notes'', length (c_notes c)),
      (''org_units'', length (c_org_units c)),
      (''plans'', length (c_plans c)),
      (''regions'', length (c_regions c)),
      (''device_classes'', length (c_device_classes c)),
      (''rates'', length (c_rates c)),
      (''usage_records'', length (c_usage_records c))]"

record manifest =
  datasetVersion :: string
  generatedAt :: int
  man_seed :: int
  man_size :: string
  man_presets :: cfg
  embeds_subscribers :: "string list"
  embeds_orders :: "string list"
  counts :: "(string \<times> nat) list"

text \<open>
  What a run reads from its surroundings: the wall clock (\<open>new Date()\<close>) and whether
  \<open>manifest.json\<close> already exists in the output directory.
\<close>

record env =
  now :: int
  manifestExists :: bool

text \<open>
  What a run writes. For each shape, \<open>None\<close> when \<open>--only\<close> leaves it out. The
  NDJSON shapes are kept as rows (each file is \<open>JSON.stringify\<close> of its rows, one per
  line); the relational shape is the CSV text of each file.
\<close>

record outputs =
  out_canonical :: "canonical option"
  out_mongo_normalized :: "(string \<times> collection) list option"
  out_mongo_optimized :: "(string \<times> collection) list option"
  out_postgres :: "(string \<times> string) list option"
  out_manifest :: manifest

definition wanted :: "args \<Rightarrow> string \<Rightarrow> bool" where
  "wanted a shape = (arg_only a = shape \<or> arg_only a = ''all'')"

text \<open>
  The loop \<open>for (const name of entityOrder)\<close> over an object of collections: one file
  per name that the object has.
\<close>

definition filesOf :: "(string \<times> collection) list \<Rightarrow> (string \<times> collection) list" where
  "filesOf obj =
     concat (map (\<lambda>name. case map_of obj name of None \<Rightarrow> [] | Some docs \<Rightarrow> [(name, docs)])
                 entityOrder)"

definition generateAll :: "args \<Rightarrow> env \<Rightarrow> error + outputs" where
  "generateAll a e =
     (let cfg = presets (arg_size a);
          rng0 = mulberry32 (arg_seed a)
      in if manifestExists e \<and> \<not> arg_overwrite a
         then Inl (Error (''Refusing to overwrite existing dataset (manifest exists): ''
                          @ arg_out a @ ''/manifest.json (use --overwrite)''))
         else
           (let canonical = generateCanonical rng0 cfg;
                mongoNormalized = toMongoNormalized canonical;
                mongoOptimized = toMongoOptimized canonical mongoNormalized cfg
            in Inr
              \<lparr>out_canonical = (if wanted a ''canonical'' then Some canonical else None),
               out_mongo_normalized =
                 (if wanted a ''mongo_normalized''
                  then Some (filesOf (spread mongoNormalized))
                  else None),
               out_mongo_optimized =
                 (if wanted a ''mongo_optimized''
                  then Some (filesOf mongoOptimized)
                  else None),
               out_postgres =
                 (if wanted a ''postgres''
                  then Some (map (\<lambda>b. (filename b, toCsv (headers b) (rows b)))
                                 (toPostgresCsvBundles canonical))
                  else None),
               out_manifest =
                 \<lparr>datasetVersion = ''1.1.0'',
                  generatedAt = now e,
                  man_seed = arg_seed a,
                  man_size = arg_size a,
                  man_presets = cfg,
                  embeds_subscribers =
                    (if embedFeatureCodes cfg then [''profile'', ''featureCodes''] else [''profile'']),
                  embeds_orders = [''items''],
                  counts = canonicalCounts canonical\<rparr>\<rparr>))"

section \<open>A reader for the relational text\<close>

text \<open>
  The reference reader of one CSV record, as RFC 4180 and PostgreSQL's \<open>COPY ... CSV\<close>
  read it: fields are separated by commas; a field that starts with a quote runs to the
  closing quote, a doubled quote inside it standing for one quote, and may contain
  commas and line feeds; an unquoted line feed ends the record. It is not part of the
  generator; the round-trip property of \<open>csvEscape\<close> is stated against it.
\<close>

datatype csv_state = FieldStart | Unquoted | Quoted | QuoteSeen

fun csvRead :: "csv_state \<Rightarrow> string \<Rightarrow> string \<Rightarrow> string list" where
  "csvRead st cur [] = [cur]"
| "csvRead FieldStart cur (c # cs) =
     (if c = CHR 0x22 then csvRead Quoted cur cs
      else if c = CHR '','' then cur # csvRead FieldStart [] cs
      else if c = CHR 0x0A then [cur]
      else csvRead Unquoted (cur @ [c]) cs)"
| "csvRead Unquoted cur (c # cs) =
     (if c = CHR '','' then cur # csvRead FieldStart [] cs
      else if c = CHR 0x0A then [cur]
      else csvRead Unquoted (cur @ [c]) cs)"
| "csvRead Quoted cur (c # cs) =
     (if c = CHR 0x22 then csvRead QuoteSeen cur cs
      else csvRead Quoted (cur @ [c]) cs)"
| "csvRead QuoteSeen cur (c # cs) =
     (if c = CHR 0x22 then csvRead Quoted (cur @ [c]) cs
      else if c = CHR '','' then cur # csvRead FieldStart [] cs
      else if c = CHR 0x0A then [cur]
      else csvRead Unquoted (cur @ [c]) cs)"

definition csvReadRecord :: "string \<Rightarrow> string list" where
  "csvReadRecord line = csvRead FieldStart [] line"

text \<open>
  What the reader gets back for a cell: the value with its line breaks normalised as
  \<open>csvEscape\<close> does, and the empty string for \<open>null\<close>.
\<close>

definition normalizeNewlines :: "string \<Rightarrow> string" where
  "normalizeNewlines s = replaceCR (replaceCRLF s)"

definition cellText :: "string option \<Rightarrow> string" where
  "cellText v = (case v of None \<Rightarrow> [] | Some s \<Rightarrow> normalizeNewlines s)"

section \<open>Vocabulary of the statements\<close>

text \<open>
  \<open>lastWith P xs\<close> is the last element of \<open>xs\<close> that satisfies \<open>P\<close>: what a
  \<open>Map\<close> built from \<open>xs\<close> holds under a key. \<open>codesOf c sid\<close> lists, in bridge
  order, the feature codes of the bridge rows of subscriber \<open>sid\<close>. \<open>stripItem\<close> keeps
  the identifier, sku, quantity and price of an order item, and \<open>itemsOf c oid\<close> are the
  canonical order items of order \<open>oid\<close>. \<open>exampleGraph\<close> is a small canonical graph
  for concrete instances: two subscribers of which one has a profile, four bridge rows
  with a repeated pair, two orders and three items listed out of identifier order.
\<close>

definition lastWith :: "('a \<Rightarrow> bool) \<Rightarrow> 'a list \<Rightarrow> 'a option" where
  "lastWith P xs = (case filter P xs of [] \<Rightarrow> None | y # ys \<Rightarrow> Some (last (y # ys)))"

definition codesOf :: "canonical \<Rightarrow> int \<Rightarrow> string list" where
  "codesOf c sid =
     concat (map (\<lambda>sf. if sf_subscriberId sf = sid
                         then (case lastWith (\<lambda>f. featureId f = sf_featureId sf) (c_features c) of
                                 None \<Rightarrow> [] | Some f \<Rightarrow> [feat_code f])
                         else [])
                 (c_subscriber_features c))"

definition stripItem :: "order_item \<Rightarrow> item_fields" where
  "stripItem it = \<lparr>orderItemId = orderItemId it, sku = sku it, qty = qty it, priceCents = priceCents it\<rparr>"

definition itemsOf :: "canonical \<Rightarrow> int \<Rightarrow> order_item list" where
  "itemsOf c oid = filter (\<lambda>it. item_orderId it = oid) (c_order_items c)"

definition exampleGraph :: canonical where
  "exampleGraph =
     \<lparr>c_accounts = [],
      c_subscribers =
        [\<lparr>subscriberId = 2001, sub_accountId = 1001, msisdn = ''+12145552001'',
          sub_status = ''active'', sub_createdAt = 1768263300000\<rparr>,
         \<lparr>subscriberId = 2002, sub_accountId = 1001, msisdn = ''+12145552002'',
          sub_status = ''active'', sub_createdAt = 1768264200000\<rparr>],
      c_subscriber_profiles =
        [\<lparr>firstName = ''Morgan'', lastName = ''Nguyen'', email = ''morgan.nguyen@example.com'',
          dob = ''1991-11-14'', piiLast4Ssn = ''8820'',
          prof_preferences = \<lparr>marketingOptIn = False, paperlessBilling = True\<rparr>,
          updatedAt = 1768532400000, prof_subscriberId = 2001\<rparr>],
      c_devices = [],
      c_device_events = [],
      c_orders =
        [\<lparr>orderId = 4001, ord_accountId = 1001, ord_status = ''canceled'',
          ord_createdAt = 1768539600000\<rparr>,
         \<lparr>orderId = 4002, ord_accountId = 1001, ord_status = ''submitted'',
          ord_createdAt = 1768561200000\<rparr>],
      c_order_items =
        [\<lparr>orderItemId = 4102, sku = ''SIM-ESIM'', qty = 1, priceCents = 0, item_orderId = 4001\<rparr>,
         \<lparr>orderItemId = 4103, sku = ''PLAN-UNL-5G'', qty = 1, priceCents = 6500, item_orderId = 4002\<rparr>,
         \<lparr>orderItemId = 4101, sku = ''DEVICE-PHONE'', qty = 1, priceCents = 79900, item_orderId = 4001\<rparr>],
      c_features = FEATURE_DEFS,
      c_subscriber_features =
        [\<lparr>sf_subscriberId = 2001, sf_featureId = 5002\<rparr>,
         \<lparr>sf_subscriberId = 2001, sf_featureId = 5001\<rparr>,
         \<lparr>sf_subscriberId = 2001, sf_featureId = 5002\<rparr>,
         \<lparr>sf_subscriberId = 2002, sf_featureId = 5004\<rparr>],
      c_subscriber_feature_state = [],
      c_ticket_status_codes = TICKET_STATUS,
      c_tickets = [],
      c_notes = [],
      c_org_units = [],
      c_plans = [],
      c_regions = [],
      c_device_classes = [],
      c_rates = [],
      c_usage_records = []\<rparr>"

text \<open>The arguments of the run \<open>--size S --seed 42 --overwrite\<close>.\<close>

definition argsS42 :: args where
  "argsS42 = \<lparr>arg_size = ''S'', arg_seed = 42, arg_out = ''seed'', arg_only = ''all'',
              arg_overwrite = True\<rparr>"

chapter \<open>Properties\<close>

section \<open>Size classes\<close>

text \<open>
  Claim C5. \<open>presets\<close> is a lookup: it tests for \<open>S\<close> and for \<open>M\<close> and returns a
  literal record for each, and it returns the literal record of the large class in every
  other case. It has no failing branch: given a size outside \<open>S\<close>, \<open>M\<close>, \<open>L\<close> it
  returns the large record.
\<close>

theorem presets_lookup:
  "presets ''S'' =
        \<lparr>accounts = 3,
         subsPerAccountMin = 2, subsPerAccountMax = 2,
         ordersPerAccountMin = 1, ordersPerAccountMax = 2,
         itemsPerOrderMin = 2, itemsPerOrderMax = 3,
         ticketsPerSubscriberMin = 0, ticketsPerSubscriberMax = 1,
         deviceEventsPerDeviceMin = 3, deviceEventsPerDeviceMax = 6,
         usageRecordsPerSubscriber = 10,
         days = 2,
         embedFeatureCodes = True\<rparr>
   \<and> presets ''M'' =
        \<lparr>accounts = 25,
         subsPerAccountMin = 2, subsPerAccountMax = 5,
         ordersPerAccountMin = 1, ordersPerAccountMax = 4,
         itemsPerOrderMin = 2, itemsPerOrderMax = 5,
         ticketsPerSubscriberMin = 0, ticketsPerSubscriberMax = 2,
         deviceEventsPerDeviceMin = 20, deviceEventsPerDeviceMax = 60,
         usageRecordsPerSubscriber = 250,
         days = 7,
         embedFeatureCodes = True\<rparr>
   \<and> presets ''L'' =
        \<lparr>accounts = 200,
         subsPerAccountMin = 2, subsPerAccountMax = 6,
         ordersPerAccountMin = 1, ordersPerAccountMax = 5,
         itemsPerOrderMin = 2, itemsPerOrderMax = 6,
         ticketsPerSubscriberMin = 0, ticketsPerSubscriberMax = 2,
         deviceEventsPerDeviceMin = 200, deviceEventsPerDeviceMax = 600,
         usageRecordsPerSubscriber = 2500,
         days = 30,
         embedFeatureCodes = True\<rparr>
   \<and> (sz \<notin> {''S'', ''M'', ''L''} \<longrightarrow> presets sz = presets ''L'')"
  by (simp add: presets_def)

theorem presets_lookup_witness:
  "''XL'' \<notin> {''S'', ''M'', ''L''} \<and> presets ''XL'' = presets ''L'' \<and>
   accounts (presets ''XL'') = 200"
  using presets_lookup[of "''XL''"] by simp

text \<open>
  The size \<open>XL\<close> is outside the three classes; \<open>presets\<close> returns the large record for
  it, and \<open>generateAll\<close> on it returns a dataset rather than an error.
\<close>

theorem presets_unknown_counterexample:
  "presets ''XL'' =
        \<lparr>accounts = 200,
         subsPerAccountMin = 2, subsPerAccountMax = 6,
         ordersPerAccountMin = 1, ordersPerAccountMax = 5,
         itemsPerOrderMin = 2, itemsPerOrderMax = 6,
         ticketsPerSubscriberMin = 0, ticketsPerSubscriberMax = 2,
         deviceEventsPerDeviceMin = 200, deviceEventsPerDeviceMax = 600,
         usageRecordsPerSubscriber = 2500,
         days = 30,
         embedFeatureCodes = True\<rparr>
   \<and> \<not> isl (generateAll \<lparr>arg_size = ''XL'', arg_seed = 42, arg_out = ''seed'',
                              arg_only = ''all'', arg_overwrite = False\<rparr>
                             \<lparr>now = 0, manifestExists = False\<rparr>)"
  by (simp add: presets_def generateAll_def Let_def)

section \<open>Relational escaping\<close>

lemma doubleQuotes_Nil [simp]: "doubleQuotes [] = []"
  by (simp add: doubleQuotes_def)

lemma doubleQuotes_Cons [simp]:
  "doubleQuotes (c # cs) = (if c = CHR 0x22 then [CHR 0x22, CHR 0x22] else [c]) @ doubleQuotes cs"
  by (simp add: doubleQuotes_def)

lemma doubleQuotes_id: "CHR 0x22 \<notin> set s \<Longrightarrow> doubleQuotes s = s"
  by (induction s) auto

lemma csvRead_quoted:
  "csvRead Quoted cur (doubleQuotes s @ CHR 0x22 # rest) = csvRead QuoteSeen (cur @ s) rest"
  by (induction s arbitrary: cur) auto

lemma csvRead_plain:
  "\<forall>c\<in>set s. c \<noteq> CHR '','' \<and> c \<noteq> CHR 0x22 \<and> c \<noteq> CHR 0x0A \<Longrightarrow>
     csvRead Unquoted cur (s @ rest) = csvRead Unquoted (cur @ s) rest"
  by (induction s arbitrary: cur) auto

lemma csvRead_plain_start:
  "\<forall>c\<in>set s. c \<noteq> CHR '','' \<and> c \<noteq> CHR 0x22 \<and> c \<noteq> CHR 0x0A \<Longrightarrow> s \<noteq> [] \<Longrightarrow>
     csvRead FieldStart [] (s @ rest) = csvRead Unquoted s rest"
  using csvRead_plain[of "tl s" "[hd s]" rest] by (cases s) auto

lemma csvRead_field_then:
  assumes "rest = [] \<or> hd rest = CHR '','' \<or> hd rest = CHR 0x0A"
  shows "csvRead FieldStart [] (csvEscape v @ rest) =
     (case rest of [] \<Rightarrow> [cellText v]
      | c # cs \<Rightarrow> if c = CHR '','' then cellText v # csvRead FieldStart [] cs else [cellText v])"
proof (cases v)
  case None
  then show ?thesis using assms by (cases rest) (auto simp: csvEscape_def cellText_def)
next
  case (Some s0)
  define s where "s = replaceCR (replaceCRLF s0)"
  show ?thesis
  proof (cases "CHR '','' \<in> set s \<or> CHR 0x22 \<in> set s \<or> CHR 0x0A \<in> set s")
    case True
    have esc: "csvEscape v = CHR 0x22 # doubleQuotes s @ [CHR 0x22]"
      using True Some by (auto simp: csvEscape_def s_def Let_def doubleQuotes_id)
    have "csvRead FieldStart [] (csvEscape v @ rest) = csvRead QuoteSeen s rest"
      using csvRead_quoted[of "[]" s rest] by (simp add: esc)
    then show ?thesis using Some assms
      by (cases rest) (auto simp: cellText_def normalizeNewlines_def s_def)
  next
    case False
    then have esc: "csvEscape v = s"
      using Some by (auto simp: csvEscape_def s_def Let_def)
    have plain: "\<forall>c\<in>set s. c \<noteq> CHR '','' \<and> c \<noteq> CHR 0x22 \<and> c \<noteq> CHR 0x0A"
      using False by auto
    show ?thesis
    proof (cases "s = []")
      case True
      then show ?thesis using Some esc assms
        by (cases rest) (auto simp: cellText_def normalizeNewlines_def s_def)
    next
      case False
      have "csvRead FieldStart [] (csvEscape v @ rest) = csvRead Unquoted s rest"
        using csvRead_plain_start[OF plain False] esc by simp
      then show ?thesis using Some assms
        by (cases rest) (auto simp: cellText_def normalizeNewlines_def s_def)
    qed
  qed
qed


lemma join_Cons: "join sep (x # y # ys) = x @ sep @ join sep (y # ys)"
proof -
  have e: "\<And>n zs. concat (map (\<lambda>(i, x). (if i = 0 then [] else sep) @ x) (enumerate (Suc n) zs))
              = concat (map (\<lambda>x. sep @ x) zs)"
    subgoal for n zs by (induction zs arbitrary: n) auto
    done
  show ?thesis
    using e[of 0 "y # ys"] e[of 0 ys] by (simp add: join_def)
qed

lemma join_single: "join sep [x] = x"
  by (simp add: join_def)

lemma csvRead_row:
  "cells \<noteq> [] \<Longrightarrow>
   csvRead FieldStart [] (join '','' (map csvEscape cells)) = map cellText cells"
proof (induction cells rule: list_nonempty_induct)
  case (single v)
  then show ?case using csvRead_field_then[of "[]" v] by (simp add: join_single)
next
  case (cons v vs)
  obtain w ws where vs: "vs = w # ws" using cons.hyps by (cases vs) auto
  have "csvRead FieldStart [] (csvEscape v @ CHR '','' # join '','' (map csvEscape vs))
          = cellText v # csvRead FieldStart [] (join '','' (map csvEscape vs))"
    using csvRead_field_then[of "CHR '','' # join '','' (map csvEscape vs)" v] by simp
  then show ?case using cons.IH by (simp add: vs join_Cons)
qed

lemma replaceCRLF_noCR: "CHR 0x0D \<notin> set s \<Longrightarrow> replaceCRLF s = s"
  by (induction s rule: replaceCRLF.induct) auto

lemma replaceCR_noCR: "CHR 0x0D \<notin> set s \<Longrightarrow> replaceCR s = s"
  by (induction s) (auto simp: replaceCR_def)

lemma normalizeNewlines_noCR: "CHR 0x0D \<notin> set s \<Longrightarrow> normalizeNewlines s = s"
  by (simp add: normalizeNewlines_def replaceCRLF_noCR replaceCR_noCR)

text \<open>
  Claim C6, as the code has it. Reading back an escaped value gives the value with its
  line breaks normalised: every CR LF pair and every remaining CR has become LF. A value
  without a carriage return, whatever commas, quotes and line feeds it contains, is read
  back unchanged. The same holds field by field for a whole row of cells joined by
  commas, \<open>null\<close> being read back as the empty string.
\<close>

theorem csv_round_trip:
  "csvReadRecord (csvEscape (Some s)) = [normalizeNewlines s] \<and>
   (CHR 0x0D \<notin> set s \<longrightarrow> csvReadRecord (csvEscape (Some s)) = [s]) \<and>
   (cells \<noteq> [] \<longrightarrow>
      csvReadRecord (join '','' (map csvEscape cells)) = map cellText cells)"
  using csvRead_field_then[of "[]" "Some s"] csvRead_row[of cells]
  by (simp add: csvReadRecord_def cellText_def normalizeNewlines_noCR)

theorem csv_round_trip_witness:
  "CHR 0x0D \<notin> set [CHR ''a'', CHR '','', CHR 0x22, CHR ''b'', CHR 0x0A, CHR ''c''] \<and>
   csvEscape (Some [CHR ''a'', CHR '','', CHR 0x22, CHR ''b'', CHR 0x0A, CHR ''c''])
     = [CHR 0x22, CHR ''a'', CHR '','', CHR 0x22, CHR 0x22, CHR ''b'', CHR 0x0A, CHR ''c'', CHR 0x22] \<and>
   csvReadRecord (csvEscape (Some [CHR ''a'', CHR '','', CHR 0x22, CHR ''b'', CHR 0x0A, CHR ''c'']))
     = [[CHR ''a'', CHR '','', CHR 0x22, CHR ''b'', CHR 0x0A, CHR ''c'']] \<and>
   [Some ''x,y'', None, Some ''z''] \<noteq> [] \<and>
   csvReadRecord (join '','' (map csvEscape [Some ''x,y'', None, Some ''z''])) = [''x,y'', [], ''z'']"
  using csv_round_trip
    [of "[CHR ''a'', CHR '','', CHR 0x22, CHR ''b'', CHR 0x0A, CHR ''c'']"
        "[Some ''x,y'', None, Some ''z'']"]
  by (simp add: csvEscape_def replaceCR_def cellText_def normalizeNewlines_def)

text \<open>
  A value with a comma, a quote and the line break CR LF is not read back unchanged.
\<close>

theorem csv_round_trip_counterexample:
  "csvReadRecord (csvEscape (Some [CHR ''a'', CHR '','', CHR 0x22, CHR 0x0D, CHR 0x0A, CHR ''b'']))
     \<noteq> [[CHR ''a'', CHR '','', CHR 0x22, CHR 0x0D, CHR 0x0A, CHR ''b'']]"
  by (simp add: csvReadRecord_def csvEscape_def replaceCR_def)


section \<open>Document projections\<close>

lemma newMap_foldl:
  "foldl (\<lambda>m (k, v). m(k \<mapsto> v)) m0 pairs = m0 ++ map_of (rev pairs)"
proof (induction pairs arbitrary: m0)
  case Nil
  then show ?case by simp
next
  case (Cons p ps)
  obtain k v where p: "p = (k, v)" by (cases p)
  have "foldl (\<lambda>m (k, v). m(k \<mapsto> v)) m0 (p # ps)
          = foldl (\<lambda>m (k, v). m(k \<mapsto> v)) (m0(k \<mapsto> v)) ps"
    by (simp add: p)
  also have "\<dots> = m0(k \<mapsto> v) ++ map_of (rev ps)"
    by (rule Cons.IH)
  also have "\<dots> = m0 ++ map_of (rev (p # ps))"
    by (rule ext) (simp add: p map_add_def split: option.splits)
  finally show ?case .
qed

lemma newMap_lastWith:
  "newMap (map (\<lambda>x. (key x, x)) xs) k = lastWith (\<lambda>x. key x = k) xs"
proof -
  have "map_of (rev (map (\<lambda>x. (key x, x)) xs)) k = lastWith (\<lambda>x. key x = k) xs"
  proof (induction xs rule: rev_induct)
    case Nil
    then show ?case by (simp add: lastWith_def)
  next
    case (snoc x xs)
    then show ?case
      by (cases "filter (\<lambda>x. key x = k) xs") (auto simp: lastWith_def)
  qed
  then show ?thesis by (simp add: newMap_def newMap_foldl)
qed

lemma pushTo_foldl:
  "orElseEmpty (foldl (\<lambda>m x. pushTo m (key x) (val x)) m0 xs k)
     = orElseEmpty (m0 k) @ map val (filter (\<lambda>x. key x = k) xs)"
  by (induction xs arbitrary: m0) (auto simp: pushTo_def orElseEmpty_def split: option.splits)

lemma itemsByOrderId_lookup:
  "orElseEmpty (itemsByOrderId docs oid)
     = map (stripItem \<circ> doc_row) (filter (\<lambda>d. item_orderId (doc_row d) = oid) docs)"
  using pushTo_foldl[of "\<lambda>d. item_orderId (doc_row d)" "\<lambda>d. stripItem (doc_row d)" Map.empty docs oid]
  by (simp add: itemsByOrderId_def Let_def stripItem_def orElseEmpty_def comp_def)

lemma featureCodes_foldl:
  "orElseEmpty
     (foldl (\<lambda>m sf. case fb (sf_featureId sf) of None \<Rightarrow> m
                     | Some f \<Rightarrow> pushTo m (sf_subscriberId sf) (feat_code f)) m0 sfs sid)
   = orElseEmpty (m0 sid)
     @ concat (map (\<lambda>sf. if sf_subscriberId sf = sid
                          then (case fb (sf_featureId sf) of None \<Rightarrow> [] | Some f \<Rightarrow> [feat_code f])
                          else []) sfs)"
  by (induction sfs arbitrary: m0) (auto simp: pushTo_def orElseEmpty_def split: option.splits)

lemma featureCodesBySub_lookup:
  "orElseEmpty
     (featureCodesBySub (newMap (map (\<lambda>f. (featureId f, f)) (c_features c)))
        (c_subscriber_features c) sid) = codesOf c sid"
  using featureCodes_foldl[of "newMap (map (\<lambda>f. (featureId f, f)) (c_features c))" Map.empty
      "c_subscriber_features c" sid]
  by (simp add: featureCodesBySub_def codesOf_def newMap_lastWith orElseEmpty_def cong: if_cong)

lemma set_uniqueInOrder [simp]: "set (uniqueInOrder xs) = set xs"
  by (induction xs rule: uniqueInOrder.induct) auto

lemma distinct_uniqueInOrder [simp]: "distinct (uniqueInOrder xs)"
  by (induction xs rule: uniqueInOrder.induct) auto

lemma withId_rows [simp]: "map doc_row (withId xs f) = xs"
  by (simp add: withId_def comp_def)

lemma withId_filter:
  "filter (\<lambda>d. P (doc_row d)) (withId xs f) = withId (filter P xs) f"
  by (induction xs) (auto simp: withId_def)

lemma n_subscribers_eq: "n_subscribers (toMongoNormalized c) = withId (c_subscribers c) subscriberId"
  by (simp add: toMongoNormalized_def Let_def split: prod.splits)

lemma n_orders_eq: "n_orders (toMongoNormalized c) = withId (c_orders c) orderId"
  by (simp add: toMongoNormalized_def Let_def split: prod.splits)

lemma n_order_items_eq: "n_order_items (toMongoNormalized c) = withId (c_order_items c) orderItemId"
  by (simp add: toMongoNormalized_def Let_def split: prod.splits)

lemma withId_map_row: "map (g \<circ> doc_row) (withId xs f) = map g xs"
  by (simp add: withId_def comp_def)

lemma optOrder_items:
  "items (optOrder (itemsByOrderId (n_order_items (toMongoNormalized c))) o')
     = sort_key orderItemId (map stripItem (itemsOf c (orderId (doc_row o'))))"
  by (simp add: optOrder_def itemsByOrderId_lookup n_order_items_eq itemsOf_def withId_map_row
        withId_filter[of "\<lambda>it. item_orderId it = orderId (doc_row o')"])

lemma toMongoOptimized_keys:
  "map fst (toMongoOptimized c n cfg)
     = [''accounts'', ''subscribers'', ''devices'', ''device_events'', ''orders'', ''features'',
        ''subscriber_features'', ''subscriber_feature_state'', ''ticket_status_codes'',
        ''tickets'', ''notes'', ''org_units'', ''plans'', ''regions'', ''device_classes'',
        ''rates'', ''usage_records'']"
  by (simp add: toMongoOptimized_def Let_def spread_def AList.update.simps AList.delete_eq)


lemma map_of_toMongoOptimized:
  "map_of (toMongoOptimized c n cfg)
     = (map_of (spread n))
         (''subscribers'' \<mapsto>
            OptSubscribers
              (map (optSubscriber
                      (newMap (map (\<lambda>p. (prof_subscriberId p, p)) (c_subscriber_profiles c)))
                      (featureCodesBySub (newMap (map (\<lambda>f. (featureId f, f)) (c_features c)))
                         (c_subscriber_features c)) cfg)
                   (n_subscribers n)),
          ''orders'' \<mapsto> OptOrders (map (optOrder (itemsByOrderId (n_order_items n))) (n_orders n)),
          ''order_items'' := None,
          ''subscriber_profiles'' := None)"
  unfolding toMongoOptimized_def Let_def
  by (simp only: delete_conv' update_conv')

lemma optSubscriber_profile:
  "profile (optSubscriber (newMap (map (\<lambda>p. (prof_subscriberId p, p)) profs)) cb cfg s)
     = map_option profile_fields.truncate
         (lastWith (\<lambda>p. prof_subscriberId p = subscriberId (doc_row s)) profs)"
  by (simp add: optSubscriber_def newMap_lastWith split: option.splits)

lemma optSubscriber_codes:
  "featureCodes
     (optSubscriber pm
        (featureCodesBySub (newMap (map (\<lambda>f. (featureId f, f)) (c_features c)))
           (c_subscriber_features c)) cfg s)
     = (if embedFeatureCodes cfg
        then Some (sort (uniqueInOrder (codesOf c (subscriberId (doc_row s)))))
        else None)"
  by (simp add: optSubscriber_def featureCodesBySub_lookup)

text \<open>
  Claim C7. In the optimized shape of any canonical graph: (a) every subscriber document
  of the normalized shape is kept, with the fields of its profile row minus
  \<open>subscriberId\<close> under \<open>profile\<close> (absent when the subscriber has no profile row) and,
  when \<open>embedFeatureCodes\<close> is set, the sorted list without duplicates of the
  subscriber's feature codes under \<open>featureCodes\<close>; (b) every order document is kept,
  with its items sorted by \<open>orderItemId\<close> and reduced to identifier, sku, quantity and
  price; the collections \<open>order_items\<close> and \<open>subscriber_profiles\<close> are gone, so the
  object has fewer collections than the normalized one, and every other collection is
  the normalized one.
\<close>

theorem optimized_projection:
  "\<exists>subs ords.
     map_of (toMongoOptimized c (toMongoNormalized c) cfg) ''subscribers'' = Some (OptSubscribers subs) \<and>
     map_of (toMongoOptimized c (toMongoNormalized c) cfg) ''orders'' = Some (OptOrders ords) \<and>
     map os_doc subs = n_subscribers (toMongoNormalized c) \<and>
     (\<forall>os \<in> set subs.
        profile os =
          map_option profile_fields.truncate
            (lastWith (\<lambda>p. prof_subscriberId p = subscriberId (doc_row (os_doc os)))
               (c_subscriber_profiles c)) \<and>
        (embedFeatureCodes cfg \<longrightarrow>
           (\<exists>codes. featureCodes os = Some codes \<and> sorted codes \<and> distinct codes \<and>
              set codes = set (codesOf c (subscriberId (doc_row (os_doc os)))))) \<and>
        (\<not> embedFeatureCodes cfg \<longrightarrow> featureCodes os = None)) \<and>
     map oo_doc ords = n_orders (toMongoNormalized c) \<and>
     (\<forall>oo \<in> set ords.
        sorted (map orderItemId (items oo)) \<and>
        mset (items oo) = mset (map stripItem (itemsOf c (orderId (doc_row (oo_doc oo)))))) \<and>
     map fst (toMongoOptimized c (toMongoNormalized c) cfg)
       = filter (\<lambda>k. k \<noteq> ''order_items'' \<and> k \<noteq> ''subscriber_profiles'')
           (map fst (spread (toMongoNormalized c))) \<and>
     distinct (map fst (spread (toMongoNormalized c))) \<and>
     length (toMongoOptimized c (toMongoNormalized c) cfg) < length (spread (toMongoNormalized c)) \<and>
     map_of (toMongoOptimized c (toMongoNormalized c) cfg) ''order_items'' = None \<and>
     map_of (toMongoOptimized c (toMongoNormalized c) cfg) ''subscriber_profiles'' = None \<and>
     (\<forall>k. k \<notin> {''subscribers'', ''orders'', ''order_items'', ''subscriber_profiles''} \<longrightarrow>
        map_of (toMongoOptimized c (toMongoNormalized c) cfg) k
          = map_of (spread (toMongoNormalized c)) k)"
proof -
  let ?n = "toMongoNormalized c"
  let ?out = "toMongoOptimized c ?n cfg"
  let ?pm = "newMap (map (\<lambda>p. (prof_subscriberId p, p)) (c_subscriber_profiles c))"
  let ?cb = "featureCodesBySub (newMap (map (\<lambda>f. (featureId f, f)) (c_features c)))
               (c_subscriber_features c)"
  let ?subs = "map (optSubscriber ?pm ?cb cfg) (n_subscribers ?n)"
  let ?ords = "map (optOrder (itemsByOrderId (n_order_items ?n))) (n_orders ?n)"
  have s: "map_of ?out ''subscribers'' = Some (OptSubscribers ?subs)"
    by (simp add: map_of_toMongoOptimized)
  have o: "map_of ?out ''orders'' = Some (OptOrders ?ords)"
    by (simp add: map_of_toMongoOptimized)
  have sd: "map os_doc ?subs = n_subscribers ?n"
    by (simp add: comp_def optSubscriber_def)
  have od: "map oo_doc ?ords = n_orders ?n"
    by (simp add: comp_def optOrder_def)
  have sp: "\<forall>os \<in> set ?subs.
        profile os =
          map_option profile_fields.truncate
            (lastWith (\<lambda>p. prof_subscriberId p = subscriberId (doc_row (os_doc os)))
               (c_subscriber_profiles c)) \<and>
        (embedFeatureCodes cfg \<longrightarrow>
           (\<exists>codes. featureCodes os = Some codes \<and> sorted codes \<and> distinct codes \<and>
              set codes = set (codesOf c (subscriberId (doc_row (os_doc os)))))) \<and>
        (\<not> embedFeatureCodes cfg \<longrightarrow> featureCodes os = None)"
  proof
    fix os assume "os \<in> set ?subs"
    then obtain d where os: "os = optSubscriber ?pm ?cb cfg d" by auto
    have d: "os_doc os = d" by (simp add: os optSubscriber_def)
    show "profile os =
          map_option profile_fields.truncate
            (lastWith (\<lambda>p. prof_subscriberId p = subscriberId (doc_row (os_doc os)))
               (c_subscriber_profiles c)) \<and>
        (embedFeatureCodes cfg \<longrightarrow>
           (\<exists>codes. featureCodes os = Some codes \<and> sorted codes \<and> distinct codes \<and>
              set codes = set (codesOf c (subscriberId (doc_row (os_doc os)))))) \<and>
        (\<not> embedFeatureCodes cfg \<longrightarrow> featureCodes os = None)"
      unfolding d unfolding os optSubscriber_profile optSubscriber_codes by simp
  qed
  have oi: "\<forall>oo \<in> set ?ords.
        sorted (map orderItemId (items oo)) \<and>
        mset (items oo) = mset (map stripItem (itemsOf c (orderId (doc_row (oo_doc oo)))))"
  proof
    fix oo assume "oo \<in> set ?ords"
    then obtain d where oo: "oo = optOrder (itemsByOrderId (n_order_items ?n)) d" by auto
    have d: "oo_doc oo = d" by (simp add: oo optOrder_def)
    show "sorted (map orderItemId (items oo)) \<and>
        mset (items oo) = mset (map stripItem (itemsOf c (orderId (doc_row (oo_doc oo)))))"
      unfolding d unfolding oo optOrder_items by simp
  qed
  have keys: "map fst ?out
       = filter (\<lambda>k. k \<noteq> ''order_items'' \<and> k \<noteq> ''subscriber_profiles'') (map fst (spread ?n))"
    by (simp add: toMongoOptimized_keys spread_def)
  have dist: "distinct (map fst (spread ?n))"
    by (simp add: spread_def)
  have len: "length ?out < length (spread ?n)"
    using arg_cong[OF toMongoOptimized_keys[of c ?n cfg], of length] by (simp add: spread_def)
  have gone: "map_of ?out ''order_items'' = None" "map_of ?out ''subscriber_profiles'' = None"
    by (simp_all add: map_of_toMongoOptimized)
  have rest: "\<forall>k. k \<notin> {''subscribers'', ''orders'', ''order_items'', ''subscriber_profiles''} \<longrightarrow>
        map_of ?out k = map_of (spread ?n) k"
    by (simp add: map_of_toMongoOptimized)
  show ?thesis
    using s o sd sp od oi keys dist len gone rest by blast
qed


lemma example_optimized_subscribers:
  "map_of (toMongoOptimized exampleGraph (toMongoNormalized exampleGraph) (presets ''S'')) ''subscribers''
     = Some (OptSubscribers
        [\<lparr>os_doc = Doc 2001 \<lparr>subscriberId = 2001, sub_accountId = 1001, msisdn = ''+12145552001'',
                               sub_status = ''active'', sub_createdAt = 1768263300000\<rparr>,
          profile = Some \<lparr>firstName = ''Morgan'', lastName = ''Nguyen'',
                           email = ''morgan.nguyen@example.com'', dob = ''1991-11-14'',
                           piiLast4Ssn = ''8820'',
                           prof_preferences = \<lparr>marketingOptIn = False, paperlessBilling = True\<rparr>,
                           updatedAt = 1768532400000\<rparr>,
          featureCodes = Some [''HOTSPOT'', ''INTL_ROAM'']\<rparr>,
         \<lparr>os_doc = Doc 2002 \<lparr>subscriberId = 2002, sub_accountId = 1001, msisdn = ''+12145552002'',
                               sub_status = ''active'', sub_createdAt = 1768264200000\<rparr>,
          profile = None,
          featureCodes = Some [''VISUAL_VM'']\<rparr>])"
  by (simp add: map_of_toMongoOptimized n_subscribers_eq withId_def exampleGraph_def
        optSubscriber_def newMap_def featureCodesBySub_def pushTo_def orElseEmpty_def
        FEATURE_DEFS_def presets_def profile_fields.truncate_def
        less_eq_char_def less_char_def)


lemma example_optimized_orders:
  "map_of (toMongoOptimized exampleGraph (toMongoNormalized exampleGraph) (presets ''S'')) ''orders''
     = Some (OptOrders
        [\<lparr>oo_doc = Doc 4001 \<lparr>orderId = 4001, ord_accountId = 1001, ord_status = ''canceled'',
                               ord_createdAt = 1768539600000\<rparr>,
          items = [\<lparr>orderItemId = 4101, sku = ''DEVICE-PHONE'', qty = 1, priceCents = 79900\<rparr>,
                   \<lparr>orderItemId = 4102, sku = ''SIM-ESIM'', qty = 1, priceCents = 0\<rparr>]\<rparr>,
         \<lparr>oo_doc = Doc 4002 \<lparr>orderId = 4002, ord_accountId = 1001, ord_status = ''submitted'',
                               ord_createdAt = 1768561200000\<rparr>,
          items = [\<lparr>orderItemId = 4103, sku = ''PLAN-UNL-5G'', qty = 1, priceCents = 6500\<rparr>]\<rparr>])"
  by (simp add: map_of_toMongoOptimized n_orders_eq n_order_items_eq withId_def exampleGraph_def
        optOrder_def itemsByOrderId_def pushTo_def orElseEmpty_def)

theorem optimized_projection_witness:
  "\<exists>subs ords.
     map_of (toMongoOptimized exampleGraph (toMongoNormalized exampleGraph) (presets ''S''))
       ''subscribers'' = Some (OptSubscribers subs) \<and>
     map_of (toMongoOptimized exampleGraph (toMongoNormalized exampleGraph) (presets ''S''))
       ''orders'' = Some (OptOrders ords) \<and>
     map (\<lambda>os. subscriberId (doc_row (os_doc os))) subs = [2001, 2002] \<and>
     map (map_option firstName \<circ> profile) subs = [Some ''Morgan'', None] \<and>
     embedFeatureCodes (presets ''S'') \<and>
     map featureCodes subs = [Some [''HOTSPOT'', ''INTL_ROAM''], Some [''VISUAL_VM'']] \<and>
     codesOf exampleGraph 2001 = [''INTL_ROAM'', ''HOTSPOT'', ''INTL_ROAM''] \<and>
     map (map orderItemId \<circ> items) ords = [[4101, 4102], [4103]] \<and>
     map orderItemId (itemsOf exampleGraph 4001) = [4102, 4101] \<and>
     length (toMongoOptimized exampleGraph (toMongoNormalized exampleGraph) (presets ''S'')) = 17 \<and>
     length (spread (toMongoNormalized exampleGraph)) = 19"
proof -
  have "\<exists>subs ords.
     map_of (toMongoOptimized exampleGraph (toMongoNormalized exampleGraph) (presets ''S''))
       ''subscribers'' = Some (OptSubscribers subs) \<and>
     map_of (toMongoOptimized exampleGraph (toMongoNormalized exampleGraph) (presets ''S''))
       ''orders'' = Some (OptOrders ords)"
    using optimized_projection[of exampleGraph "presets ''S''"]
    by (elim exE conjE) (intro exI conjI, assumption+)
  then obtain subs ords where
    s: "map_of (toMongoOptimized exampleGraph (toMongoNormalized exampleGraph) (presets ''S''))
          ''subscribers'' = Some (OptSubscribers subs)" and
    o: "map_of (toMongoOptimized exampleGraph (toMongoNormalized exampleGraph) (presets ''S''))
          ''orders'' = Some (OptOrders ords)"
    by blast
  have subs: "subs =
        [\<lparr>os_doc = Doc 2001 \<lparr>subscriberId = 2001, sub_accountId = 1001, msisdn = ''+12145552001'',
                               sub_status = ''active'', sub_createdAt = 1768263300000\<rparr>,
          profile = Some \<lparr>firstName = ''Morgan'', lastName = ''Nguyen'',
                           email = ''morgan.nguyen@example.com'', dob = ''1991-11-14'',
                           piiLast4Ssn = ''8820'',
                           prof_preferences = \<lparr>marketingOptIn = False, paperlessBilling = True\<rparr>,
                           updatedAt = 1768532400000\<rparr>,
          featureCodes = Some [''HOTSPOT'', ''INTL_ROAM'']\<rparr>,
         \<lparr>os_doc = Doc 2002 \<lparr>subscriberId = 2002, sub_accountId = 1001, msisdn = ''+12145552002'',
                               sub_status = ''active'', sub_createdAt = 1768264200000\<rparr>,
          profile = None,
          featureCodes = Some [''VISUAL_VM'']\<rparr>]"
    using s example_optimized_subscribers by simp
  have ords: "ords =
        [\<lparr>oo_doc = Doc 4001 \<lparr>orderId = 4001, ord_accountId = 1001, ord_status = ''canceled'',
                               ord_createdAt = 1768539600000\<rparr>,
          items = [\<lparr>orderItemId = 4101, sku = ''DEVICE-PHONE'', qty = 1, priceCents = 79900\<rparr>,
                   \<lparr>orderItemId = 4102, sku = ''SIM-ESIM'', qty = 1, priceCents = 0\<rparr>]\<rparr>,
         \<lparr>oo_doc = Doc 4002 \<lparr>orderId = 4002, ord_accountId = 1001, ord_status = ''submitted'',
                               ord_createdAt = 1768561200000\<rparr>,
          items = [\<lparr>orderItemId = 4103, sku = ''PLAN-UNL-5G'', qty = 1, priceCents = 6500\<rparr>]\<rparr>]"
    using o example_optimized_orders by simp
  have codes: "codesOf exampleGraph 2001 = [''INTL_ROAM'', ''HOTSPOT'', ''INTL_ROAM'']"
    by (simp add: codesOf_def exampleGraph_def lastWith_def FEATURE_DEFS_def)
  have its: "map orderItemId (itemsOf exampleGraph 4001) = [4102, 4101]"
    by (simp add: itemsOf_def exampleGraph_def)
  have len: "length (toMongoOptimized exampleGraph (toMongoNormalized exampleGraph) (presets ''S'')) = 17"
    using arg_cong[OF toMongoOptimized_keys[of exampleGraph "toMongoNormalized exampleGraph" "presets ''S''"], of length]
    by simp
  have len2: "length (spread (toMongoNormalized exampleGraph)) = 19"
    by (simp add: spread_def)
  have flag: "embedFeatureCodes (presets ''S'')"
    by (simp add: presets_def)
  have v1: "map (\<lambda>os. subscriberId (doc_row (os_doc os))) subs = [2001, 2002]"
    by (simp add: subs)
  have v2: "map (map_option firstName \<circ> profile) subs = [Some ''Morgan'', None]"
    by (simp add: subs)
  have v3: "map featureCodes subs = [Some [''HOTSPOT'', ''INTL_ROAM''], Some [''VISUAL_VM'']]"
    by (simp add: subs)
  have v4: "map (map orderItemId \<circ> items) ords = [[4101, 4102], [4103]]"
    by (simp add: ords)
  show ?thesis
    by (intro exI[of _ subs] exI[of _ ords] conjI) (rule s o v1 v2 v3 v4 codes its len len2 flag)+
qed

text \<open>
  Claim C8. The subscriber ids of the canonical, normalized and optimized shapes are the
  same multiset; the optimized orders are the canonical orders in the same sequence, and
  the items embedded in each, reduced to (sku, qty, price), are exactly those of the
  canonical order items of that order, as a multiset. This holds for every canonical
  graph, hence for every generated one.
\<close>

theorem shape_equivalence:
  "mset (map (\<lambda>d. subscriberId (doc_row d)) (n_subscribers (toMongoNormalized c)))
     = mset (map subscriberId (c_subscribers c)) \<and>
   (\<exists>subs ords.
      map_of (toMongoOptimized c (toMongoNormalized c) cfg) ''subscribers'' = Some (OptSubscribers subs) \<and>
      mset (map (\<lambda>os. subscriberId (doc_row (os_doc os))) subs)
        = mset (map subscriberId (c_subscribers c)) \<and>
      map_of (toMongoOptimized c (toMongoNormalized c) cfg) ''orders'' = Some (OptOrders ords) \<and>
      map (\<lambda>oo. doc_row (oo_doc oo)) ords = c_orders c \<and>
      (\<forall>oo \<in> set ords.
         mset (map (\<lambda>it. (sku it, qty it, priceCents it)) (items oo))
           = mset (map (\<lambda>it. (sku it, qty it, priceCents it))
                      (itemsOf c (orderId (doc_row (oo_doc oo)))))))"
proof -
  let ?n = "toMongoNormalized c"
  let ?out = "toMongoOptimized c ?n cfg"
  let ?pm = "newMap (map (\<lambda>p. (prof_subscriberId p, p)) (c_subscriber_profiles c))"
  let ?cb = "featureCodesBySub (newMap (map (\<lambda>f. (featureId f, f)) (c_features c)))
               (c_subscriber_features c)"
  let ?subs = "map (optSubscriber ?pm ?cb cfg) (n_subscribers ?n)"
  let ?ords = "map (optOrder (itemsByOrderId (n_order_items ?n))) (n_orders ?n)"
  have n: "map (\<lambda>d. subscriberId (doc_row d)) (n_subscribers ?n) = map subscriberId (c_subscribers c)"
    by (simp add: n_subscribers_eq withId_def comp_def)
  have s: "map_of ?out ''subscribers'' = Some (OptSubscribers ?subs)"
    by (simp add: map_of_toMongoOptimized)
  have o: "map_of ?out ''orders'' = Some (OptOrders ?ords)"
    by (simp add: map_of_toMongoOptimized)
  have sm: "map (\<lambda>os. subscriberId (doc_row (os_doc os))) ?subs = map subscriberId (c_subscribers c)"
    by (simp add: n_subscribers_eq withId_def comp_def optSubscriber_def)
  have om: "map (\<lambda>oo. doc_row (oo_doc oo)) ?ords = c_orders c"
    by (simp add: n_orders_eq withId_def comp_def optOrder_def)
  have oi: "\<forall>oo \<in> set ?ords.
         mset (map (\<lambda>it. (sku it, qty it, priceCents it)) (items oo))
           = mset (map (\<lambda>it. (sku it, qty it, priceCents it))
                      (itemsOf c (orderId (doc_row (oo_doc oo)))))"
  proof
    fix oo assume "oo \<in> set ?ords"
    then obtain d where oo: "oo = optOrder (itemsByOrderId (n_order_items ?n)) d" by auto
    have d: "oo_doc oo = d" by (simp add: oo optOrder_def)
    have "mset (items oo) = mset (map stripItem (itemsOf c (orderId (doc_row d))))"
      unfolding oo optOrder_items by simp
    then have "mset (map (\<lambda>it. (sku it, qty it, priceCents it)) (items oo))
        = mset (map (\<lambda>it. (sku it, qty it, priceCents it)) (map stripItem (itemsOf c (orderId (doc_row d)))))"
      by (metis mset_map)
    then show "mset (map (\<lambda>it. (sku it, qty it, priceCents it)) (items oo))
           = mset (map (\<lambda>it. (sku it, qty it, priceCents it))
                      (itemsOf c (orderId (doc_row (oo_doc oo)))))"
      by (simp add: d comp_def stripItem_def)
  qed
  show ?thesis
  proof (intro conjI exI[of _ ?subs] exI[of _ ?ords])
    show "mset (map (\<lambda>d. subscriberId (doc_row d)) (n_subscribers ?n))
            = mset (map subscriberId (c_subscribers c))"
      by (simp only: n)
    show "mset (map (\<lambda>os. subscriberId (doc_row (os_doc os))) ?subs)
            = mset (map subscriberId (c_subscribers c))"
      by (simp only: sm)
  qed (rule s o om oi)+
qed

theorem shape_equivalence_witness:
  "\<exists>subs ords.
     map_of (toMongoOptimized exampleGraph (toMongoNormalized exampleGraph) (presets ''S''))
       ''subscribers'' = Some (OptSubscribers subs) \<and>
     map_of (toMongoOptimized exampleGraph (toMongoNormalized exampleGraph) (presets ''S''))
       ''orders'' = Some (OptOrders ords) \<and>
     map (\<lambda>os. subscriberId (doc_row (os_doc os))) subs = [2001, 2002] \<and>
     map subscriberId (c_subscribers exampleGraph) = [2001, 2002] \<and>
     map (\<lambda>oo. orderId (doc_row (oo_doc oo))) ords = [4001, 4002] \<and>
     map (\<lambda>oo. map (\<lambda>it. (sku it, qty it, priceCents it)) (items oo)) ords
       = [[(''DEVICE-PHONE'', 1, 79900), (''SIM-ESIM'', 1, 0)], [(''PLAN-UNL-5G'', 1, 6500)]] \<and>
     map (\<lambda>it. (sku it, qty it, priceCents it)) (itemsOf exampleGraph 4001)
       = [(''SIM-ESIM'', 1, 0), (''DEVICE-PHONE'', 1, 79900)] \<and>
     map (\<lambda>it. (sku it, qty it, priceCents it)) (itemsOf exampleGraph 4002)
       = [(''PLAN-UNL-5G'', 1, 6500)]"
proof -
  have "\<exists>subs ords.
     map_of (toMongoOptimized exampleGraph (toMongoNormalized exampleGraph) (presets ''S''))
       ''subscribers'' = Some (OptSubscribers subs) \<and>
     map_of (toMongoOptimized exampleGraph (toMongoNormalized exampleGraph) (presets ''S''))
       ''orders'' = Some (OptOrders ords)"
    using shape_equivalence[of exampleGraph "presets ''S''"]
    by (elim exE conjE) (intro exI conjI, assumption+)
  then obtain subs ords where
    s: "map_of (toMongoOptimized exampleGraph (toMongoNormalized exampleGraph) (presets ''S''))
          ''subscribers'' = Some (OptSubscribers subs)" and
    o: "map_of (toMongoOptimized exampleGraph (toMongoNormalized exampleGraph) (presets ''S''))
          ''orders'' = Some (OptOrders ords)"
    by blast
  have v1: "map (\<lambda>os. subscriberId (doc_row (os_doc os))) subs = [2001, 2002]"
    using s example_optimized_subscribers by auto
  have v2: "map subscriberId (c_subscribers exampleGraph) = [2001, 2002]"
    by (simp add: exampleGraph_def)
  have v3: "map (\<lambda>oo. orderId (doc_row (oo_doc oo))) ords = [4001, 4002]"
    using o example_optimized_orders by auto
  have v4: "map (\<lambda>oo. map (\<lambda>it. (sku it, qty it, priceCents it)) (items oo)) ords
       = [[(''DEVICE-PHONE'', 1, 79900), (''SIM-ESIM'', 1, 0)], [(''PLAN-UNL-5G'', 1, 6500)]]"
    using o example_optimized_orders by auto
  have v5: "map (\<lambda>it. (sku it, qty it, priceCents it)) (itemsOf exampleGraph 4001)
       = [(''SIM-ESIM'', 1, 0), (''DEVICE-PHONE'', 1, 79900)]"
    by (simp add: itemsOf_def exampleGraph_def)
  have v6: "map (\<lambda>it. (sku it, qty it, priceCents it)) (itemsOf exampleGraph 4002)
       = [(''PLAN-UNL-5G'', 1, 6500)]"
    by (simp add: itemsOf_def exampleGraph_def)
  show ?thesis
    by (intro exI[of _ subs] exI[of _ ords] conjI) (rule s o v1 v2 v3 v4 v5 v6)+
qed


section \<open>Determinism\<close>

lemma generateAll_Inr:
  assumes "generateAll a e = Inr r"
  shows "\<not> (manifestExists e \<and> \<not> arg_overwrite a)" and "r = projr (generateAll a e)"
proof -
  show "\<not> (manifestExists e \<and> \<not> arg_overwrite a)"
  proof
    assume "manifestExists e \<and> \<not> arg_overwrite a"
    then have "generateAll a e = Inl (Error (''Refusing to overwrite existing dataset (manifest exists): ''
                          @ arg_out a @ ''/manifest.json (use --overwrite)''))"
      unfolding generateAll_def Let_def by (simp only: if_True simp_thms)
    with assms show False by simp
  qed
  show "r = projr (generateAll a e)" by (simp add: assms)
qed

lemma generateAll_runs:
  "(\<exists>r. generateAll a e = Inr r) \<longleftrightarrow> \<not> (manifestExists e \<and> \<not> arg_overwrite a)"
proof
  assume "\<exists>r. generateAll a e = Inr r"
  then show "\<not> (manifestExists e \<and> \<not> arg_overwrite a)"
    using generateAll_Inr(1) by blast
next
  assume "\<not> (manifestExists e \<and> \<not> arg_overwrite a)"
  then have c: "(manifestExists e \<and> \<not> arg_overwrite a) = False" by simp
  show "\<exists>r. generateAll a e = Inr r"
    unfolding generateAll_def Let_def c if_False by blast
qed

lemma generateAll_outputs:
  assumes "generateAll a e = Inr r"
  shows "out_canonical r =
           (if wanted a ''canonical''
            then Some (generateCanonical (mulberry32 (arg_seed a)) (presets (arg_size a)))
            else None)"
    and "out_mongo_normalized r =
           (if wanted a ''mongo_normalized''
            then Some (filesOf (spread (toMongoNormalized
                   (generateCanonical (mulberry32 (arg_seed a)) (presets (arg_size a))))))
            else None)"
    and "out_mongo_optimized r =
           (if wanted a ''mongo_optimized''
            then Some (filesOf (toMongoOptimized
                   (generateCanonical (mulberry32 (arg_seed a)) (presets (arg_size a)))
                   (toMongoNormalized
                      (generateCanonical (mulberry32 (arg_seed a)) (presets (arg_size a))))
                   (presets (arg_size a))))
            else None)"
    and "out_postgres r =
           (if wanted a ''postgres''
            then Some (map (\<lambda>b. (filename b, toCsv (headers b) (rows b)))
                   (toPostgresCsvBundles
                      (generateCanonical (mulberry32 (arg_seed a)) (presets (arg_size a)))))
            else None)"
    and "out_manifest r =
           \<lparr>datasetVersion = ''1.1.0'',
            generatedAt = now e,
            man_seed = arg_seed a,
            man_size = arg_size a,
            man_presets = presets (arg_size a),
            embeds_subscribers =
              (if embedFeatureCodes (presets (arg_size a)) then [''profile'', ''featureCodes'']
               else [''profile'']),
            embeds_orders = [''items''],
            counts = canonicalCounts
                       (generateCanonical (mulberry32 (arg_seed a)) (presets (arg_size a)))\<rparr>"
proof -
  note n = generateAll_Inr[OF assms]
  have c: "(manifestExists e \<and> \<not> arg_overwrite a) = False"
    using n(1) by simp
  have r: "r = projr (generateAll a e)" by (rule n(2))
  show "out_canonical r =
           (if wanted a ''canonical''
            then Some (generateCanonical (mulberry32 (arg_seed a)) (presets (arg_size a)))
            else None)"
    unfolding r unfolding generateAll_def Let_def c if_False by simp
  show "out_mongo_normalized r =
           (if wanted a ''mongo_normalized''
            then Some (filesOf (spread (toMongoNormalized
                   (generateCanonical (mulberry32 (arg_seed a)) (presets (arg_size a))))))
            else None)"
    unfolding r unfolding generateAll_def Let_def c if_False by simp
  show "out_mongo_optimized r =
           (if wanted a ''mongo_optimized''
            then Some (filesOf (toMongoOptimized
                   (generateCanonical (mulberry32 (arg_seed a)) (presets (arg_size a)))
                   (toMongoNormalized
                      (generateCanonical (mulberry32 (arg_seed a)) (presets (arg_size a))))
                   (presets (arg_size a))))
            else None)"
    unfolding r unfolding generateAll_def Let_def c if_False by simp
  show "out_postgres r =
           (if wanted a ''postgres''
            then Some (map (\<lambda>b. (filename b, toCsv (headers b) (rows b)))
                   (toPostgresCsvBundles
                      (generateCanonical (mulberry32 (arg_seed a)) (presets (arg_size a)))))
            else None)"
    unfolding r unfolding generateAll_def Let_def c if_False by simp
  show "out_manifest r =
           \<lparr>datasetVersion = ''1.1.0'',
            generatedAt = now e,
            man_seed = arg_seed a,
            man_size = arg_size a,
            man_presets = presets (arg_size a),
            embeds_subscribers =
              (if embedFeatureCodes (presets (arg_size a)) then [''profile'', ''featureCodes'']
               else [''profile'']),
            embeds_orders = [''items''],
            counts = canonicalCounts
                       (generateCanonical (mulberry32 (arg_seed a)) (presets (arg_size a)))\<rparr>"
    unfolding r unfolding generateAll_def Let_def c if_False by simp
qed



chapter \<open>Properties of the generator\<close>

section \<open>The random source\<close>

lemma rand_range: "0 \<le> fst (rand g) \<and> fst (rand g) < 2 ^ 32"
proof -
  have "uint w < 2 ^ 32" for w :: "32 word"
    using uint_lt2p[of w] by simp
  then show ?thesis by (simp add: rand_def Let_def)
qed

lemma roundDouble_small: "n < 2 ^ 53 \<Longrightarrow> roundDouble n = n"
  by (simp add: roundDouble_def)

lemma floorScaled_exact:
  assumes "0 \<le> d" "d < 2 ^ 32" "0 \<le> n" "n \<le> 2 ^ 21"
  shows "floorScaled d n = d * n div 2 ^ 32"
proof -
  have "d * n \<le> d * 2 ^ 21" using assms by (intro mult_left_mono) auto
  also have "\<dots> < 2 ^ 32 * 2 ^ 21" using assms by (intro mult_strict_right_mono) auto
  finally have "d * n < 2 ^ 53" by simp
  moreover have "0 \<le> d * n" using assms by simp
  ultimately show ?thesis by (simp add: floorScaled_def Let_def roundDouble_small)
qed

lemma floorScaled_range:
  assumes "0 \<le> d" "d < 2 ^ 32" "0 < n" "n \<le> 2 ^ 21"
  shows "0 \<le> floorScaled d n \<and> floorScaled d n < n"
proof -
  have e: "floorScaled d n = d * n div 2 ^ 32"
    using assms by (intro floorScaled_exact) auto
  have "d * n < 2 ^ 32 * n" using assms by (intro mult_strict_right_mono) auto
  then have "d * n div 2 ^ 32 < n"
    by (simp add: div_less_iff_less_mult algebra_simps)
  moreover have "0 \<le> d * n div 2 ^ 32" using assms by (simp add: pos_imp_zdiv_nonneg_iff)
  ultimately show ?thesis by (simp add: e)
qed

lemma intBetween_range:
  assumes "mn \<le> mx" "mx - mn < 2 ^ 21"
  shows "mn \<le> fst (intBetween g mn mx) \<and> fst (intBetween g mn mx) \<le> mx"
proof -
  have "0 \<le> floorScaled (fst (rand g)) (mx - mn + 1) \<and>
        floorScaled (fst (rand g)) (mx - mn + 1) < mx - mn + 1"
    using rand_range[of g] assms by (intro floorScaled_range) auto
  then show ?thesis by (simp add: intBetween_def Let_def case_prod_beta)
qed

lemma intBetween_fixed: "fst (intBetween g m m) = m"
  using intBetween_range[of m m g] by simp

lemma choice_index:
  assumes "arr \<noteq> []" "length arr \<le> 2 ^ 21"
  shows "nat (floorScaled (fst (rand g)) (int (length arr))) < length arr"
proof -
  have "int (length arr) \<le> 2 ^ 21" using assms(2) by (metis of_nat_le_iff of_nat_numeral of_nat_power)
  then have "0 \<le> floorScaled (fst (rand g)) (int (length arr)) \<and>
        floorScaled (fst (rand g)) (int (length arr)) < int (length arr)"
    using rand_range[of g] assms(1) by (intro floorScaled_range) auto
  then show ?thesis by linarith
qed

lemma choice_in_set:
  assumes "arr \<noteq> []" "length arr \<le> 2 ^ 21"
  shows "fst (choice g arr) \<in> set arr"
  using choice_index[OF assms, of g] by (simp add: choice_def Let_def case_prod_beta)

lemma shuffle_loop_mset:
  "i < length a \<or> i = 0 \<Longrightarrow> length a \<le> 2 ^ 21 \<Longrightarrow> mset (fst (shuffle_loop i a g)) = mset a"
proof (induction i arbitrary: a g)
  case 0
  then show ?case by simp
next
  case (Suc i)
  obtain d g' where r: "rand g = (d, g')" by (cases "rand g")
  define j where "j = nat (floorScaled d (int (Suc i) + 1))"
  have len: "Suc i < length a" using Suc.prems by simp
  have d: "0 \<le> d" "d < 2 ^ 32" using rand_range[of g] r by simp_all
  have "int (Suc i) + 1 \<le> int (length a)" using len by simp
  also have "\<dots> \<le> 2 ^ 21" using Suc.prems(2) by (metis of_nat_le_iff of_nat_numeral of_nat_power)
  finally have "0 \<le> floorScaled d (int (Suc i) + 1) \<and>
        floorScaled d (int (Suc i) + 1) < int (Suc i) + 1"
    using d by (intro floorScaled_range) auto
  then have j: "j < length a" using len unfolding j_def by linarith
  let ?a' = "a[Suc i := a ! j, j := a ! Suc i]"
  have m: "mset ?a' = mset a" using mset_swap[OF j len] by simp
  have "mset (fst (shuffle_loop i ?a' g')) = mset ?a'"
    using Suc.prems len by (intro Suc.IH) auto
  then show ?case using m unfolding j_def by (simp add: r Let_def)
qed

lemma shuffle_mset: "length arr \<le> 2 ^ 21 \<Longrightarrow> mset (fst (shuffle g arr)) = mset arr"
  unfolding shuffle_def by (rule shuffle_loop_mset) auto

lemma shuffle_set: "length arr \<le> 2 ^ 21 \<Longrightarrow> set (fst (shuffle g arr)) = set arr"
  using shuffle_mset[of arr g] by (metis set_mset_mset)

lemma set_slice0: "set (slice0 arr n) \<subseteq> set arr"
  by (auto simp: slice0_def dest: in_set_takeD)

lemma length_slice0: "0 \<le> n \<Longrightarrow> length (slice0 arr n) = min (nat n) (length arr)"
  by (simp add: slice0_def)

section \<open>Loops\<close>

lemma forEach_Cons:
  "forEach f (x # xs) s =
     (fst (f x s) @ fst (forEach f xs (snd (f x s))), snd (forEach f xs (snd (f x s))))"
  by (simp add: Let_def case_prod_beta)

lemma forEach_in:
  "y \<in> set (fst (forEach f xs s)) \<Longrightarrow> \<exists>x \<in> set xs. \<exists>s'. y \<in> set (fst (f x s'))"
proof (induction xs arbitrary: s)
  case Nil
  then show ?case by simp
next
  case (Cons x xs)
  then show ?case
    by (fastforce simp: forEach_Cons simp del: forEach.simps(2))
qed

lemma forEach_all:
  assumes "\<And>x s y. x \<in> set xs \<Longrightarrow> y \<in> set (fst (f x s)) \<Longrightarrow> P x y"
    and "y \<in> set (fst (forEach f xs s))"
  shows "\<exists>x \<in> set xs. P x y"
  using forEach_in[OF assms(2)] assms(1) by blast

lemma forEach_keep:
  assumes "\<And>x s. x \<in> set xs \<Longrightarrow> I (snd (f x s)) = I s"
  shows "I (snd (forEach f xs s)) = I s"
  using assms
proof (induction xs arbitrary: s)
  case Nil
  then show ?case by simp
next
  case (Cons x xs)
  have "I (snd (forEach f xs (snd (f x s)))) = I (snd (f x s))"
    using Cons.prems by (intro Cons.IH) auto
  then show ?case using Cons.prems[of x s] by (simp add: forEach_Cons del: forEach.simps(2))
qed

lemma forEach_length_bounds:
  assumes "\<And>x s. x \<in> set xs \<Longrightarrow> lo \<le> length (fst (f x s)) \<and> length (fst (f x s)) \<le> hi"
  shows "lo * length xs \<le> length (fst (forEach f xs s)) \<and>
         length (fst (forEach f xs s)) \<le> hi * length xs"
  using assms
proof (induction xs arbitrary: s)
  case Nil
  then show ?case by simp
next
  case (Cons x xs)
  have "lo * length xs \<le> length (fst (forEach f xs (snd (f x s)))) \<and>
         length (fst (forEach f xs (snd (f x s)))) \<le> hi * length xs"
    using Cons.prems by (intro Cons.IH) auto
  then show ?case using Cons.prems[of x s]
    by (simp add: forEach_Cons add_mono del: forEach.simps(2))
qed

lemma forEach_single:
  assumes "\<And>x s. x \<in> set xs \<Longrightarrow> length (fst (f x s)) = 1"
  shows "length (fst (forEach f xs s)) = length xs"
  using forEach_length_bounds[of xs 1 f 1 s] assms by simp

lemma forEach_hd:
  "fst (f x s) \<noteq> [] \<Longrightarrow> hd (fst (forEach f (x # xs) s)) = hd (fst (f x s))"
  by (simp add: forEach_Cons del: forEach.simps(2))

lemma forEach_nonempty:
  "fst (f x s) \<noteq> [] \<Longrightarrow> fst (forEach f (x # xs) s) \<noteq> []"
  by (simp add: forEach_Cons del: forEach.simps(2))

lemma map_shift_upt:
  "map (\<lambda>k. c + int k) [0..<a + b]
     = map (\<lambda>k. c + int k) [0..<a] @ map (\<lambda>k. (c + int a) + int k) [0..<b]"
  by (induction b) (simp_all add: algebra_simps)

lemma forEach_counter:
  assumes step: "\<And>x s. x \<in> set xs \<Longrightarrow>
        map key (pr (fst (f x s))) = map (\<lambda>k. cnt s + int k) [0..<length (pr (fst (f x s)))] \<and>
        cnt (snd (f x s)) = cnt s + int (length (pr (fst (f x s))))"
    and pr_Nil: "pr [] = []"
    and pr_append: "\<And>a b. pr (a @ b) = pr a @ pr b"
  shows "map key (pr (fst (forEach f xs s)))
           = map (\<lambda>k. cnt s + int k) [0..<length (pr (fst (forEach f xs s)))] \<and>
         cnt (snd (forEach f xs s)) = cnt s + int (length (pr (fst (forEach f xs s))))"
  using step
proof (induction xs arbitrary: s)
  case Nil
  then show ?case by (simp add: pr_Nil)
next
  case (Cons x xs)
  let ?s1 = "snd (f x s)"
  have h: "map key (pr (fst (f x s))) = map (\<lambda>k. cnt s + int k) [0..<length (pr (fst (f x s)))]"
          "cnt ?s1 = cnt s + int (length (pr (fst (f x s))))"
    using Cons.prems[of x s] by simp_all
  have t: "map key (pr (fst (forEach f xs ?s1)))
             = map (\<lambda>k. cnt ?s1 + int k) [0..<length (pr (fst (forEach f xs ?s1)))]"
          "cnt (snd (forEach f xs ?s1)) = cnt ?s1 + int (length (pr (fst (forEach f xs ?s1))))"
    using Cons.IH[of ?s1] Cons.prems by simp_all
  let ?A = "pr (fst (f x s))" and ?B = "pr (fst (forEach f xs ?s1))"
  have out: "pr (fst (forEach f (x # xs) s)) = ?A @ ?B"
    by (simp add: forEach_Cons pr_append del: forEach.simps(2))
  have st: "snd (forEach f (x # xs) s) = snd (forEach f xs ?s1)"
    by (simp add: forEach_Cons del: forEach.simps(2))
  have "map key (?A @ ?B)
          = map (\<lambda>k. cnt s + int k) [0..<length ?A]
            @ map (\<lambda>k. (cnt s + int (length ?A)) + int k) [0..<length ?B]"
    unfolding map_append using h(1) t(1) unfolding h(2) by (rule arg_cong2)
  also have "\<dots> = map (\<lambda>k. cnt s + int k) [0..<length ?A + length ?B]"
    by (rule map_shift_upt[symmetric])
  finally have m: "map key (?A @ ?B) = map (\<lambda>k. cnt s + int k) [0..<length (?A @ ?B)]"
    by (simp only: length_append)
  have c: "cnt (snd (forEach f xs ?s1)) = cnt s + int (length (?A @ ?B))"
    unfolding t(2) h(2) by (simp only: length_append of_nat_add add.assoc)
  show ?case unfolding out st using m c by (rule conjI)
qed

lemma counter_distinct:
  "map key ys = map (\<lambda>k. c + int k) [0..<length ys] \<Longrightarrow> distinct (map key ys)"
  by (simp add: distinct_map inj_on_def)

lemma counter_sorted:
  "map key ys = map (\<lambda>k. c + int k) [0..<length ys] \<Longrightarrow> sorted (map key ys)"
  by (simp add: sorted_map sorted_wrt_iff_nth_less)

lemma counter_mem:
  "map key ys = map (\<lambda>k. c + int k) [0..<length ys] \<Longrightarrow> k < length ys \<Longrightarrow>
     c + int k \<in> key ` set ys"
proof -
  assume a: "map key ys = map (\<lambda>k. c + int k) [0..<length ys]" and k: "k < length ys"
  have "key (ys ! k) = map key ys ! k" using k by simp
  also have "\<dots> = c + int k" using k unfolding a by simp
  finally show ?thesis using k by (metis image_eqI nth_mem)
qed

lemma forEach_filter_block:
  assumes tag: "\<And>x s y. x \<in> set xs \<Longrightarrow> y \<in> set (fst (f x s)) \<Longrightarrow> tag y = key x"
    and dist: "distinct (map key xs)"
    and x0: "x0 \<in> set xs"
  shows "\<exists>s0. filter (\<lambda>y. tag y = key x0) (fst (forEach f xs s)) = fst (f x0 s0)"
  using assms
proof (induction xs arbitrary: s)
  case Nil
  then show ?case by simp
next
  case (Cons x xs)
  show ?case
  proof (cases "x = x0")
    case True
    have none: "filter (\<lambda>y. tag y = key x0) (fst (forEach f xs s')) = []" for s'
    proof -
      have "\<forall>y \<in> set (fst (forEach f xs s')). tag y \<noteq> key x0"
      proof
        fix y assume "y \<in> set (fst (forEach f xs s'))"
        then obtain x' where x': "x' \<in> set xs" "tag y = key x'"
          using forEach_all[of xs f "\<lambda>x y. tag y = key x" y s'] Cons.prems(1) by auto
        have "key x' \<in> key ` set xs" using x'(1) by (rule imageI)
        moreover have "key x0 \<notin> key ` set xs" using Cons.prems(2) True by simp
        ultimately show "tag y \<noteq> key x0" using x'(2) by metis
      qed
      then show ?thesis by (simp add: filter_empty_conv)
    qed
    have all: "filter (\<lambda>y. tag y = key x0) (fst (f x0 s)) = fst (f x0 s)"
    proof -
      have "\<And>y. y \<in> set (fst (f x s)) \<Longrightarrow> tag y = key x"
        using Cons.prems(1) by simp
      then show ?thesis unfolding True by (simp add: filter_id_conv)
    qed
    show ?thesis
      by (rule exI[of _ s]) (simp add: forEach_Cons none all True del: forEach.simps(2))
  next
    case False
    then have x0: "x0 \<in> set xs" using Cons.prems(3) by simp
    have "key x0 \<in> key ` set xs" using x0 by (rule imageI)
    moreover have "key x \<notin> key ` set xs" using Cons.prems(2) by simp
    ultimately have kx: "key x \<noteq> key x0" by metis
    have none: "filter (\<lambda>y. tag y = key x0) (fst (f x s)) = []"
    proof -
      have "\<And>y. y \<in> set (fst (f x s)) \<Longrightarrow> tag y = key x"
        using Cons.prems(1) by simp
      then show ?thesis using kx by (simp add: filter_empty_conv)
    qed
    obtain s0 where "filter (\<lambda>y. tag y = key x0) (fst (forEach f xs (snd (f x s)))) = fst (f x0 s0)"
      using Cons.IH[of "snd (f x s)"] Cons.prems x0 by auto
    then show ?thesis
      by (intro exI[of _ s0]) (simp add: forEach_Cons none del: forEach.simps(2))
  qed
qed



section \<open>Accounts\<close>

lemma account_body_out:
  "length (fst (account_body cfg i s)) = 1"
  "map accountId (fst (account_body cfg i s)) = [ids_accountId (snd s)]"
  "ids_accountId (snd (snd (account_body cfg i s))) = ids_accountId (snd s) + 1"
  by (cases s; simp add: Let_def case_prod_beta)+

lemma gen_accounts_length: "length (fst (gen_accounts cfg s)) = nat (accounts cfg)"
  unfolding gen_accounts_def by (simp add: forEach_single account_body_out)

lemma gen_accounts_ids:
  "map accountId (fst (gen_accounts cfg s))
     = map (\<lambda>k. ids_accountId (snd s) + int k) [0..<length (fst (gen_accounts cfg s))]"
  unfolding gen_accounts_def
  using forEach_counter[of "[0..<nat (accounts cfg)]" accountId "\<lambda>x. x" "account_body cfg"
                           "\<lambda>s. ids_accountId (snd s)" s]
  by (simp add: account_body_out)

lemma gen_accounts_distinct: "distinct (map accountId (fst (gen_accounts cfg s)))"
  using gen_accounts_ids by (rule counter_distinct)

section \<open>Subscribers\<close>

lemma subscriber_body_out:
  "length (fst (subscriber_body cfg acct j s)) = 1"
  "p \<in> set (fst (subscriber_body cfg acct j s)) \<Longrightarrow>
     sub_accountId (fst p) = accountId acct \<and> prof_subscriberId (snd p) = subscriberId (fst p)"
  by (cases s; simp add: Let_def case_prod_beta; fail | cases s; auto simp add: Let_def case_prod_beta)+

lemma subscribers_of_account_length:
  "length (fst (subscribers_of_account cfg acct s))
     = nat (fst (intBetween (fst s) (subsPerAccountMin cfg) (subsPerAccountMax cfg)))"
  by (cases s) (simp add: Let_def case_prod_beta forEach_single subscriber_body_out)

lemma subscribers_of_account_tag:
  assumes "p \<in> set (fst (subscribers_of_account cfg acct s))"
  shows "sub_accountId (fst p) = accountId acct \<and> prof_subscriberId (snd p) = subscriberId (fst p)"
proof (cases s)
  case (Pair g ids)
  let ?n = "nat (fst (intBetween g (subsPerAccountMin cfg) (subsPerAccountMax cfg)))"
  let ?s = "(snd (intBetween g (subsPerAccountMin cfg) (subsPerAccountMax cfg)), ids)"
  have "p \<in> set (fst (forEach (subscriber_body cfg acct) [0..<?n] ?s))"
    using assms Pair by (simp add: Let_def case_prod_beta)
  then obtain j where
    "sub_accountId (fst p) = accountId acct \<and> prof_subscriberId (snd p) = subscriberId (fst p)"
    using forEach_all[of "[0..<?n]" "subscriber_body cfg acct"
        "\<lambda>j p. sub_accountId (fst p) = accountId acct \<and> prof_subscriberId (snd p) = subscriberId (fst p)" p ?s]
      subscriber_body_out(2) by blast
  then show ?thesis .
qed

lemma gen_subscribers_tag:
  assumes "p \<in> set (fst (gen_subscribers cfg accts s))"
  shows "sub_accountId (fst p) \<in> accountId ` set accts \<and>
         prof_subscriberId (snd p) = subscriberId (fst p)"
proof -
  obtain a where "a \<in> set accts"
    "sub_accountId (fst p) = accountId a \<and> prof_subscriberId (snd p) = subscriberId (fst p)"
    using forEach_all[of accts "subscribers_of_account cfg"
        "\<lambda>a p. sub_accountId (fst p) = accountId a \<and> prof_subscriberId (snd p) = subscriberId (fst p)" p s]
      subscribers_of_account_tag assms unfolding gen_subscribers_def by blast
  then show ?thesis by simp
qed

lemma gen_subscribers_block:
  assumes "distinct (map accountId accts)" and "a \<in> set accts"
  shows "\<exists>s0. filter (\<lambda>p. sub_accountId (fst p) = accountId a) (fst (gen_subscribers cfg accts s))
               = fst (subscribers_of_account cfg a s0)"
  unfolding gen_subscribers_def
  using subscribers_of_account_tag assms
  by (intro forEach_filter_block[where tag = "\<lambda>p. sub_accountId (fst p)" and key = accountId]) auto

lemma gen_subscribers_length:
  assumes "0 \<le> subsPerAccountMin cfg" "subsPerAccountMin cfg \<le> subsPerAccountMax cfg"
    "subsPerAccountMax cfg - subsPerAccountMin cfg < 2 ^ 21"
  shows "nat (subsPerAccountMin cfg) * length accts \<le> length (fst (gen_subscribers cfg accts s)) \<and>
         length (fst (gen_subscribers cfg accts s)) \<le> nat (subsPerAccountMax cfg) * length accts"
  unfolding gen_subscribers_def
proof (rule forEach_length_bounds)
  fix a s' 
  show "nat (subsPerAccountMin cfg) \<le> length (fst (subscribers_of_account cfg a s')) \<and>
        length (fst (subscribers_of_account cfg a s')) \<le> nat (subsPerAccountMax cfg)"
    using intBetween_range[OF assms(2,3), of "fst s'"] assms(1)
    unfolding subscribers_of_account_length by arith
qed

section \<open>Usage records\<close>

lemma ceilDiv_ceiling: "ceilDiv a k = \<lceil>real_of_int a / real_of_int k\<rceil>"
  by (simp add: ceilDiv_def ceiling_divide_eq_div)

lemma usage_record_body_out:
  "length (fst (usage_record_body cfg sub i s)) = 1"
  "r \<in> set (fst (usage_record_body cfg sub i s)) \<Longrightarrow>
     ratedCents r = ratedCentsOf (usageType r) (units r) \<and>
     usageType r \<in> set usageTypes \<and> ur_subscriberId r = subscriberId sub"
proof -
  show "length (fst (usage_record_body cfg sub i s)) = 1"
    by (cases s) (simp add: Let_def case_prod_beta)
  have "fst (choice g usageTypes) \<in> set usageTypes" for g
    by (rule choice_in_set) (simp_all add: usageTypes_def)
  then show "r \<in> set (fst (usage_record_body cfg sub i s)) \<Longrightarrow>
     ratedCents r = ratedCentsOf (usageType r) (units r) \<and>
     usageType r \<in> set usageTypes \<and> ur_subscriberId r = subscriberId sub"
    by (cases s) (auto simp add: Let_def case_prod_beta)
qed

lemma gen_usageRecords_all:
  assumes "r \<in> set (fst (gen_usageRecords cfg subs s))"
  shows "ratedCents r = ratedCentsOf (usageType r) (units r) \<and>
         usageType r \<in> set usageTypes \<and> ur_subscriberId r \<in> subscriberId ` set subs"
proof -
  have inner: "r \<in> set (fst (usage_of_subscriber cfg sub s')) \<Longrightarrow>
     ratedCents r = ratedCentsOf (usageType r) (units r) \<and>
     usageType r \<in> set usageTypes \<and> ur_subscriberId r = subscriberId sub" for sub s' r
    unfolding usage_of_subscriber_def
    using forEach_all[of "[0..<nat (usageRecordsPerSubscriber cfg)]" "usage_record_body cfg sub"
        "\<lambda>i r. ratedCents r = ratedCentsOf (usageType r) (units r) \<and>
     usageType r \<in> set usageTypes \<and> ur_subscriberId r = subscriberId sub" r s']
      usage_record_body_out(2) by blast
  obtain sub where "sub \<in> set subs" "ratedCents r = ratedCentsOf (usageType r) (units r) \<and>
     usageType r \<in> set usageTypes \<and> ur_subscriberId r = subscriberId sub"
    using forEach_all[of subs "usage_of_subscriber cfg"
        "\<lambda>sub r. ratedCents r = ratedCentsOf (usageType r) (units r) \<and>
     usageType r \<in> set usageTypes \<and> ur_subscriberId r = subscriberId sub" r s]
      inner assms unfolding gen_usageRecords_def by blast
  then show ?thesis by simp
qed

lemma gen_usageRecords_length:
  "length (fst (gen_usageRecords cfg subs s)) = nat (usageRecordsPerSubscriber cfg) * length subs"
proof -
  have "length (fst (usage_of_subscriber cfg sub s')) = nat (usageRecordsPerSubscriber cfg)" for sub s'
    unfolding usage_of_subscriber_def by (simp add: forEach_single usage_record_body_out)
  then show ?thesis
    unfolding gen_usageRecords_def
    using forEach_length_bounds[of subs "nat (usageRecordsPerSubscriber cfg)" "usage_of_subscriber cfg"
        "nat (usageRecordsPerSubscriber cfg)" s]
    by simp
qed

section \<open>The stages of the generator\<close>

lemma static_ids:
  "snd (gen_deviceClasses (snd (forEach region_body REGION_CODES (snd (gen_plans idRanges)))))
     = idRanges\<lparr>ids_planId := 10003, ids_regionId := 11003, ids_deviceClassId := 12003\<rparr>"
  by (simp add: gen_plans_def gen_deviceClasses_def REGION_CODES_def idRanges_def Let_def)

lemma generateCanonical_stages:
  obtains (stages) plans regions dcs ids3 accts s1 sp s2 devs s3 oi s4 sfs s5 sfst s6 tks s7 nts s8
    evs s9 urs s10
  where "plans = fst (gen_plans idRanges)"
    and "regions = fst (forEach region_body REGION_CODES (snd (gen_plans idRanges)))"
    and "dcs = fst (gen_deviceClasses (snd (forEach region_body REGION_CODES (snd (gen_plans idRanges)))))"
    and "ids3 = idRanges\<lparr>ids_planId := 10003, ids_regionId := 11003, ids_deviceClassId := 12003\<rparr>"
    and "gen_accounts cfg (g0, ids3) = (accts, s1)"
    and "gen_subscribers cfg accts s1 = (sp, s2)"
    and "gen_devices (map fst sp) s2 = (devs, s3)"
    and "gen_orders cfg accts s3 = (oi, s4)"
    and "gen_subscriberFeatures FEATURE_DEFS (map fst sp) s4 = (sfs, s5)"
    and "gen_subscriberFeatureState cfg sfs s5 = (sfst, s6)"
    and "gen_tickets cfg TICKET_STATUS (map fst sp) s6 = (tks, s7)"
    and "gen_notes cfg (map fst sp) (map fst oi) tks s7 = (nts, s8)"
    and "gen_deviceEvents cfg devs s8 = (evs, s9)"
    and "gen_usageRecords cfg (map fst sp) s9 = (urs, s10)"
    and "generateCanonical g0 cfg =
          \<lparr>c_accounts = sort_key accountId accts,
           c_subscribers = sort_key subscriberId (map fst sp),
           c_subscriber_profiles = sort_key prof_subscriberId (map snd sp),
           c_devices = sort_key deviceId devs,
           c_device_events = sort_key deviceEventId evs,
           c_orders = sort_key orderId (map fst oi),
           c_order_items = sort_key orderItemId (concat (map snd oi)),
           c_features = FEATURE_DEFS,
           c_subscriber_features = sort_key (\<lambda>r. (sf_subscriberId r, sf_featureId r)) sfs,
           c_subscriber_feature_state = sort_key subscriberFeatureStateId sfst,
           c_ticket_status_codes = TICKET_STATUS,
           c_tickets = sort_key ticketId tks,
           c_notes = sort_key noteId nts,
           c_org_units = orgUnits,
           c_plans = plans,
           c_regions = regions,
           c_device_classes = dcs,
           c_rates = gen_rates plans regions dcs,
           c_usage_records = sort_key usageRecordId urs\<rparr>"
proof -
  define ids3 where "ids3 = idRanges\<lparr>ids_planId := 10003, ids_regionId := 11003, ids_deviceClassId := 12003\<rparr>"
  define r1 where "r1 = gen_accounts cfg (g0, ids3)"
  define r2 where "r2 = gen_subscribers cfg (fst r1) (snd r1)"
  define r3 where "r3 = gen_devices (map fst (fst r2)) (snd r2)"
  define r4 where "r4 = gen_orders cfg (fst r1) (snd r3)"
  define r5 where "r5 = gen_subscriberFeatures FEATURE_DEFS (map fst (fst r2)) (snd r4)"
  define r6 where "r6 = gen_subscriberFeatureState cfg (fst r5) (snd r5)"
  define r7 where "r7 = gen_tickets cfg TICKET_STATUS (map fst (fst r2)) (snd r6)"
  define r8 where "r8 = gen_notes cfg (map fst (fst r2)) (map fst (fst r4)) (fst r7) (snd r7)"
  define r9 where "r9 = gen_deviceEvents cfg (fst r3) (snd r8)"
  define r10 where "r10 = gen_usageRecords cfg (map fst (fst r2)) (snd r9)"
  note defs = r1_def r2_def r3_def r4_def r5_def r6_def r7_def r8_def r9_def r10_def
  have g: "generateCanonical g0 cfg =
          \<lparr>c_accounts = sort_key accountId (fst r1),
           c_subscribers = sort_key subscriberId (map fst (fst r2)),
           c_subscriber_profiles = sort_key prof_subscriberId (map snd (fst r2)),
           c_devices = sort_key deviceId (fst r3),
           c_device_events = sort_key deviceEventId (fst r9),
           c_orders = sort_key orderId (map fst (fst r4)),
           c_order_items = sort_key orderItemId (concat (map snd (fst r4))),
           c_features = FEATURE_DEFS,
           c_subscriber_features = sort_key (\<lambda>r. (sf_subscriberId r, sf_featureId r)) (fst r5),
           c_subscriber_feature_state = sort_key subscriberFeatureStateId (fst r6),
           c_ticket_status_codes = TICKET_STATUS,
           c_tickets = sort_key ticketId (fst r7),
           c_notes = sort_key noteId (fst r8),
           c_org_units = orgUnits,
           c_plans = fst (gen_plans idRanges),
           c_regions = fst (forEach region_body REGION_CODES (snd (gen_plans idRanges))),
           c_device_classes = fst (gen_deviceClasses (snd (forEach region_body REGION_CODES (snd (gen_plans idRanges))))),
           c_rates = gen_rates (fst (gen_plans idRanges))
                       (fst (forEach region_body REGION_CODES (snd (gen_plans idRanges))))
                       (fst (gen_deviceClasses (snd (forEach region_body REGION_CODES (snd (gen_plans idRanges)))))),
           c_usage_records = sort_key usageRecordId (fst r10)\<rparr>"
    unfolding generateCanonical_def Let_def case_prod_beta static_ids defs ids3_def ..
  show thesis
    by (rule that[of _ _ _ ids3 "fst r1" "snd r1" "fst r2" "snd r2" "fst r3" "snd r3"
          "fst r4" "snd r4" "fst r5" "snd r5" "fst r6" "snd r6" "fst r7" "snd r7"
          "fst r8" "snd r8" "fst r9" "snd r9" "fst r10" "snd r10", OF refl refl refl ids3_def])
       (simp_all only: defs[symmetric] prod.collapse g)
qed


section \<open>Usage rating\<close>

lemma usage_records_rated:
  assumes "r \<in> set (c_usage_records (generateCanonical g cfg))"
  shows "ratedCents r = ratedCentsOf (usageType r) (units r) \<and> usageType r \<in> set usageTypes"
proof (cases rule: generateCanonical_stages[of cfg g])
  case (stages plans regions dcs ids3 accts s1 sp s2 devs s3 oi s4 sfs s5 sfst s6 tks s7 nts s8 evs s9 urs s10)
  note u = stages(14)
  have c: "c_usage_records (generateCanonical g cfg) = sort_key usageRecordId urs"
    by (simp add: stages(15))
  have "r \<in> set (fst (gen_usageRecords cfg (map fst sp) s9))"
    using assms unfolding c u by simp
  then show ?thesis using gen_usageRecords_all by blast
qed

lemma small_usage_nonempty:
  "c_usage_records (generateCanonical g (presets ''S'')) \<noteq> []"
proof (cases rule: generateCanonical_stages[of "presets ''S''" g])
  case (stages plans regions dcs ids3 accts s1 sp s2 devs s3 oi s4 sfs s5 sfst s6 tks s7 nts s8 evs s9 urs s10)
  note a = stages(5) and s = stages(6) and u = stages(14)
  have c: "c_usage_records (generateCanonical g (presets ''S'')) = sort_key usageRecordId urs"
    by (simp add: stages(15))
  have la: "length accts = 3"
    using gen_accounts_length[of "presets ''S''" "(g, ids3)"] unfolding a by (simp add: presets_def)
  have "nat (subsPerAccountMin (presets ''S'')) * length accts \<le> length (fst (gen_subscribers (presets ''S'') accts s1))"
    by (rule gen_subscribers_length[THEN conjunct1]) (simp_all add: presets_def)
  then have ls: "6 \<le> length sp" unfolding s la by (simp add: presets_def)
  have "length urs = nat (usageRecordsPerSubscriber (presets ''S'')) * length (map fst sp)"
    using gen_usageRecords_length[of "presets ''S''" "map fst sp" s9] unfolding u by simp
  then have "length urs \<noteq> 0" using ls by (auto simp add: presets_def)
  then show ?thesis unfolding c by (metis length_0_conv length_sort)
qed

text \<open>
  Claim C2. Every usage record of a generated graph, whatever the random source and the
  configuration, has one of the three usage types and is rated from its type and units:
  voice at 4 cents per started minute, data at 2 cents per started 1024 units, sms at 0.
  The rating is that of \<open>ratedCentsOf\<close>, whose values on the examples are 8, 4, 2 and 0.
\<close>

theorem usage_rating:
  "(\<forall>r \<in> set (c_usage_records (generateCanonical g cfg)).
      (usageType r = ''voice'' \<longrightarrow> ratedCents r = \<lceil>real_of_int (units r) / 60\<rceil> * 4) \<and>
      (usageType r = ''data'' \<longrightarrow> ratedCents r = \<lceil>real_of_int (units r) / 1024\<rceil> * 2) \<and>
      (usageType r = ''sms'' \<longrightarrow> ratedCents r = 0) \<and>
      usageType r \<in> {''voice'', ''data'', ''sms''} \<and>
      ratedCents r = ratedCentsOf (usageType r) (units r)) \<and>
   ratedCentsOf ''voice'' 90 = 8 \<and>
   ratedCentsOf ''voice'' 45 = 4 \<and>
   ratedCentsOf ''data'' 1024 = 2 \<and>
   (\<forall>u. ratedCentsOf ''sms'' u = 0)"
proof -
  have v: "ratedCentsOf ''voice'' u = \<lceil>real_of_int u / 60\<rceil> * 4" for u
    using ceilDiv_ceiling[of u 60] by (simp add: ratedCentsOf_def)
  have d: "ratedCentsOf ''data'' u = \<lceil>real_of_int u / 1024\<rceil> * 2" for u
    using ceilDiv_ceiling[of u 1024] by (simp add: ratedCentsOf_def)
  have s: "ratedCentsOf ''sms'' u = 0" for u
    by (simp add: ratedCentsOf_def)
  have ex: "ratedCentsOf ''voice'' 90 = 8" "ratedCentsOf ''voice'' 45 = 4"
    "ratedCentsOf ''data'' 1024 = 2"
    by (simp_all add: ratedCentsOf_def ceilDiv_def)
  have "(usageType r = ''voice'' \<longrightarrow> ratedCents r = \<lceil>real_of_int (units r) / 60\<rceil> * 4) \<and>
      (usageType r = ''data'' \<longrightarrow> ratedCents r = \<lceil>real_of_int (units r) / 1024\<rceil> * 2) \<and>
      (usageType r = ''sms'' \<longrightarrow> ratedCents r = 0) \<and>
      usageType r \<in> {''voice'', ''data'', ''sms''} \<and>
      ratedCents r = ratedCentsOf (usageType r) (units r)"
    if "r \<in> set (c_usage_records (generateCanonical g cfg))" for r
  proof -
    have r: "ratedCents r = ratedCentsOf (usageType r) (units r)" "usageType r \<in> set usageTypes"
      using usage_records_rated[OF that] by simp_all
    have t: "usageType r \<in> {''voice'', ''data'', ''sms''}"
      using r(2) by (auto simp: usageTypes_def)
    show ?thesis
      using r(1) t v[of "units r"] d[of "units r"] s[of "units r"] by metis
  qed
  then show ?thesis using ex s by blast
qed

theorem usage_rating_witness:
  "hd (c_usage_records (generateCanonical (mulberry32 42) (presets ''S'')))
     \<in> set (c_usage_records (generateCanonical (mulberry32 42) (presets ''S''))) \<and>
   usageType (hd (c_usage_records (generateCanonical (mulberry32 42) (presets ''S''))))
     \<in> {''voice'', ''data'', ''sms''} \<and>
   ratedCents (hd (c_usage_records (generateCanonical (mulberry32 42) (presets ''S''))))
     = ratedCentsOf (usageType (hd (c_usage_records (generateCanonical (mulberry32 42) (presets ''S'')))))
         (units (hd (c_usage_records (generateCanonical (mulberry32 42) (presets ''S''))))) \<and>
   ratedCentsOf ''voice'' 90 = 8"
proof -
  have m: "hd (c_usage_records (generateCanonical (mulberry32 42) (presets ''S'')))
     \<in> set (c_usage_records (generateCanonical (mulberry32 42) (presets ''S'')))"
    using small_usage_nonempty[of "mulberry32 42"] by simp
  show ?thesis
    using usage_rating[of "mulberry32 42" "presets ''S''"] m by blast
qed

section \<open>The small dataset\<close>

lemma small_accounts: "length (c_accounts (generateCanonical g (presets ''S''))) = 3"
proof (cases rule: generateCanonical_stages[of "presets ''S''" g])
  case (stages plans regions dcs ids3 accts s1 sp s2 devs s3 oi s4 sfs s5 sfst s6 tks s7 nts s8 evs s9 urs s10)
  note a = stages(5)
  have c: "c_accounts (generateCanonical g (presets ''S'')) = sort_key accountId accts"
    by (simp add: stages(15))
  have "length accts = 3"
    using gen_accounts_length[of "presets ''S''" "(g, ids3)"] unfolding a by (simp add: presets_def)
  then show ?thesis unfolding c by simp
qed

lemma small_subscribers: "length (c_subscribers (generateCanonical g (presets ''S''))) = 6"
proof (cases rule: generateCanonical_stages[of "presets ''S''" g])
  case (stages plans regions dcs ids3 accts s1 sp s2 devs s3 oi s4 sfs s5 sfst s6 tks s7 nts s8 evs s9 urs s10)
  note a = stages(5) and s = stages(6)
  have c: "c_subscribers (generateCanonical g (presets ''S'')) = sort_key subscriberId (map fst sp)"
    by (simp add: stages(15))
  have la: "length accts = 3"
    using gen_accounts_length[of "presets ''S''" "(g, ids3)"] unfolding a by (simp add: presets_def)
  have "nat (subsPerAccountMin (presets ''S'')) * length accts \<le> length (fst (gen_subscribers (presets ''S'') accts s1)) \<and>
        length (fst (gen_subscribers (presets ''S'') accts s1)) \<le> nat (subsPerAccountMax (presets ''S'')) * length accts"
    by (rule gen_subscribers_length) (simp_all add: presets_def)
  then have "length sp = 6" unfolding s la by (simp add: presets_def)
  then show ?thesis unfolding c by simp
qed

lemma small_subscribers_per_account:
  assumes "a \<in> set (c_accounts (generateCanonical g (presets ''S'')))"
  shows "length (filter (\<lambda>s. sub_accountId s = accountId a)
                   (c_subscribers (generateCanonical g (presets ''S'')))) = 2"
proof (cases rule: generateCanonical_stages[of "presets ''S''" g])
  case (stages plans regions dcs ids3 accts s1 sp s2 devs s3 oi s4 sfs s5 sfst s6 tks s7 nts s8 evs s9 urs s10)
  note a = stages(5) and s = stages(6)
  have ca: "c_accounts (generateCanonical g (presets ''S'')) = sort_key accountId accts"
    and cs: "c_subscribers (generateCanonical g (presets ''S'')) = sort_key subscriberId (map fst sp)"
    by (simp_all add: stages(15))
  have d: "distinct (map accountId accts)"
    using gen_accounts_distinct[of "presets ''S''" "(g, ids3)"] unfolding a by simp
  have m: "a \<in> set accts" using assms unfolding ca by simp
  obtain s0 where b: "filter (\<lambda>p. sub_accountId (fst p) = accountId a) sp
                        = fst (subscribers_of_account (presets ''S'') a s0)"
    using gen_subscribers_block[OF d m, of "presets ''S''" s1] unfolding s by auto
  have "filter (\<lambda>s. sub_accountId s = accountId a) (sort_key subscriberId (map fst sp))
          = sort_key subscriberId (map fst (filter (\<lambda>p. sub_accountId (fst p) = accountId a) sp))"
    by (simp add: filter_sort filter_map comp_def)
  then have "length (filter (\<lambda>s. sub_accountId s = accountId a) (sort_key subscriberId (map fst sp)))
          = length (fst (subscribers_of_account (presets ''S'') a s0))"
    unfolding b by simp
  also have "\<dots> = 2"
    unfolding subscribers_of_account_length
    using intBetween_fixed[of "fst s0" 2] by (simp add: presets_def)
  finally show ?thesis unfolding cs .
qed

lemma map_const_list:
  "length xs = 3 \<Longrightarrow> (\<And>x. x \<in> set xs \<Longrightarrow> f x = k) \<Longrightarrow> map f xs = [k, k, k]"
  by (auto simp: length_Suc_conv numeral_3_eq_3)

text \<open>
  Claim C9. The graph generated for size \<open>S\<close> from seed 42 has exactly three accounts,
  each account has exactly two subscribers (the preset has minimum and maximum both 2),
  there are six subscribers, and the manifest of the run reports 3 under \<open>accounts\<close>
  and 6 under \<open>subscribers\<close>.
\<close>

theorem small_seed42_counts:
  "length (c_accounts (generateCanonical (mulberry32 42) (presets ''S''))) = 3 \<and>
   map (\<lambda>a. length (filter (\<lambda>s. sub_accountId s = accountId a)
                       (c_subscribers (generateCanonical (mulberry32 42) (presets ''S'')))))
       (c_accounts (generateCanonical (mulberry32 42) (presets ''S''))) = [2, 2, 2] \<and>
   subsPerAccountMin (presets ''S'') = 2 \<and> subsPerAccountMax (presets ''S'') = 2 \<and>
   length (c_subscribers (generateCanonical (mulberry32 42) (presets ''S''))) = 6 \<and>
   (\<forall>e. \<exists>out. generateAll argsS42 e = Inr out \<and>
      map_of (counts (out_manifest out)) ''accounts'' = Some 3 \<and>
      map_of (counts (out_manifest out)) ''subscribers'' = Some 6)"
proof -
  let ?c = "generateCanonical (mulberry32 42) (presets ''S'')"
  have 1: "length (c_accounts ?c) = 3" by (rule small_accounts)
  have 2: "map (\<lambda>a. length (filter (\<lambda>s. sub_accountId s = accountId a) (c_subscribers ?c)))
             (c_accounts ?c) = [2, 2, 2]"
    using 1 small_subscribers_per_account[of _ "mulberry32 42"] by (rule map_const_list)
  have 3: "subsPerAccountMin (presets ''S'') = 2" "subsPerAccountMax (presets ''S'') = 2"
    by (simp_all add: presets_def)
  have 4: "length (c_subscribers ?c) = 6" by (rule small_subscribers)
  have 5: "\<exists>out. generateAll argsS42 e = Inr out \<and>
      map_of (counts (out_manifest out)) ''accounts'' = Some 3 \<and>
      map_of (counts (out_manifest out)) ''subscribers'' = Some 6" for e
  proof -
    obtain out where o: "generateAll argsS42 e = Inr out"
      using generateAll_runs[of argsS42 e] by (auto simp: argsS42_def)
    have "counts (out_manifest out) = canonicalCounts ?c"
      using generateAll_outputs(5)[OF o] by (simp add: argsS42_def)
    then have "map_of (counts (out_manifest out)) ''accounts'' = Some 3"
      "map_of (counts (out_manifest out)) ''subscribers'' = Some 6"
      using 1 4 by (simp_all add: canonicalCounts_def)
    with o show ?thesis by blast
  qed
  show ?thesis using 1 2 3 4 5 by blast
qed


section \<open>Orders and their items\<close>

lemma order_item_body_out:
  "fst (order_item_body oid k s)
     = [\<lparr>orderItemId = ids_orderItemId (snd s), sku = cat_sku k, qty = 1,
         priceCents = cat_priceCents k, item_orderId = oid\<rparr>]"
  "snd (order_item_body oid k s) = (fst s, (snd s)\<lparr>ids_orderItemId := ids_orderItemId (snd s) + 1\<rparr>)"
  by (cases s; simp)+

lemma items_loop_rows:
  "map (\<lambda>it. (\<lparr>cat_sku = sku it, cat_priceCents = priceCents it\<rparr>, qty it, item_orderId it))
       (fst (forEach (order_item_body oid) skus s))
     = map (\<lambda>k. (k, 1, oid)) skus"
  by (induction skus arbitrary: s)
     (simp_all add: forEach_Cons order_item_body_out del: forEach.simps(2))

lemma items_loop_length: "length (fst (forEach (order_item_body oid) skus s)) = length skus"
  by (simp add: forEach_single order_item_body_out)

lemma items_loop_ids:
  "map orderItemId (fst (forEach (order_item_body oid) skus s))
     = map (\<lambda>k. ids_orderItemId (snd s) + int k) [0..<length (fst (forEach (order_item_body oid) skus s))] \<and>
   ids_orderItemId (snd (snd (forEach (order_item_body oid) skus s)))
     = ids_orderItemId (snd s) + int (length (fst (forEach (order_item_body oid) skus s)))"
  using forEach_counter[of skus orderItemId "\<lambda>x. x" "order_item_body oid"
                           "\<lambda>s. ids_orderItemId (snd s)" s]
  by (simp add: order_item_body_out)

lemma items_loop_keep:
  "ids_orderId (snd (snd (forEach (order_item_body oid) skus s))) = ids_orderId (snd s)"
  by (rule forEach_keep[where I = "\<lambda>s. ids_orderId (snd s)"]) (simp add: order_item_body_out)

lemma order_body_shape:
  obtains (ob) ord g2 g3 g4 where
    "fst (order_body cfg acct k s)
       = [(ord, fst (forEach (order_item_body (ids_orderId (snd s)))
                      (slice0 (fst (shuffle g3 ORDER_SKUS))
                         (fst (intBetween g2 (itemsPerOrderMin cfg) (itemsPerOrderMax cfg))))
                      (g4, (snd s)\<lparr>ids_orderId := ids_orderId (snd s) + 1\<rparr>)))]"
    and "snd (order_body cfg acct k s)
       = snd (forEach (order_item_body (ids_orderId (snd s)))
                      (slice0 (fst (shuffle g3 ORDER_SKUS))
                         (fst (intBetween g2 (itemsPerOrderMin cfg) (itemsPerOrderMax cfg))))
                      (g4, (snd s)\<lparr>ids_orderId := ids_orderId (snd s) + 1\<rparr>))"
    and "orderId ord = ids_orderId (snd s)"
    and "ord_accountId ord = accountId acct"
proof (cases s)
  case (Pair g0 ids)
  obtain st g1 where c1: "choice g0 [''submitted'', ''fulfilled'', ''canceled''] = (st, g1)" by force
  obtain h g2 where c2: "intBetween g1 1 36 = (h, g2)" by force
  obtain n g3 where c3: "intBetween g2 (itemsPerOrderMin cfg) (itemsPerOrderMax cfg) = (n, g3)" by force
  obtain sh g4 where c4: "shuffle g3 ORDER_SKUS = (sh, g4)" by force
  show thesis
    by (rule ob[of "\<lparr>orderId = ids_orderId ids, ord_accountId = accountId acct, ord_status = st,
                    ord_createdAt = base - days cfg * dayMs + h * 60 * 60 * 1000\<rparr>" g3 g2 g4])
       (simp_all add: Pair c1 c2 c3 c4 Let_def case_prod_beta)
qed


lemma length_shuffle: "length arr \<le> 2 ^ 21 \<Longrightarrow> length (fst (shuffle g arr)) = length arr"
  using shuffle_mset[of arr g] by (metis size_mset)

lemma order_body_ids:
  "map orderId (map fst (fst (order_body cfg acct k s)))
     = map (\<lambda>k. ids_orderId (snd s) + int k) [0..<length (map fst (fst (order_body cfg acct k s)))] \<and>
   ids_orderId (snd (snd (order_body cfg acct k s)))
     = ids_orderId (snd s) + int (length (map fst (fst (order_body cfg acct k s))))"
  "map orderItemId (concat (map snd (fst (order_body cfg acct k s))))
     = map (\<lambda>k. ids_orderItemId (snd s) + int k) [0..<length (concat (map snd (fst (order_body cfg acct k s))))] \<and>
   ids_orderItemId (snd (snd (order_body cfg acct k s)))
     = ids_orderItemId (snd s) + int (length (concat (map snd (fst (order_body cfg acct k s)))))"
proof -
  show "map orderId (map fst (fst (order_body cfg acct k s)))
     = map (\<lambda>k. ids_orderId (snd s) + int k) [0..<length (map fst (fst (order_body cfg acct k s)))] \<and>
   ids_orderId (snd (snd (order_body cfg acct k s)))
     = ids_orderId (snd s) + int (length (map fst (fst (order_body cfg acct k s))))"
  proof (cases rule: order_body_shape[of cfg acct k s])
    case (ob ord g2 g3 g4)
    show ?thesis unfolding ob(1,2) by (simp add: ob(3) items_loop_keep)
  qed
  show "map orderItemId (concat (map snd (fst (order_body cfg acct k s))))
     = map (\<lambda>k. ids_orderItemId (snd s) + int k) [0..<length (concat (map snd (fst (order_body cfg acct k s))))] \<and>
   ids_orderItemId (snd (snd (order_body cfg acct k s)))
     = ids_orderItemId (snd s) + int (length (concat (map snd (fst (order_body cfg acct k s)))))"
  proof (cases rule: order_body_shape[of cfg acct k s])
    case (ob ord g2 g3 g4)
    let ?s' = "(g4, (snd s)\<lparr>ids_orderId := ids_orderId (snd s) + 1\<rparr>)"
    let ?skus = "slice0 (fst (shuffle g3 ORDER_SKUS))
                   (fst (intBetween g2 (itemsPerOrderMin cfg) (itemsPerOrderMax cfg)))"
    show ?thesis
      unfolding ob(1,2) using items_loop_ids[of "ids_orderId (snd s)" ?skus ?s'] by simp
  qed
qed

lemma order_body_length: "length (fst (order_body cfg acct k s)) = 1"
  by (cases rule: order_body_shape[of cfg acct k s]) simp

lemma order_body_block:
  assumes b: "0 \<le> itemsPerOrderMin cfg" "itemsPerOrderMin cfg \<le> itemsPerOrderMax cfg"
      "itemsPerOrderMax cfg \<le> 8"
    and p: "p \<in> set (fst (order_body cfg acct k s))"
  shows "ord_accountId (fst p) = accountId acct \<and>
     itemsPerOrderMin cfg \<le> int (length (snd p)) \<and>
     int (length (snd p)) \<le> itemsPerOrderMax cfg \<and>
     (\<forall>it \<in> set (snd p). qty it = 1 \<and> item_orderId it = orderId (fst p)) \<and>
     (\<exists>g'. map (\<lambda>it. \<lparr>cat_sku = sku it, cat_priceCents = priceCents it\<rparr>) (snd p)
             = take (length (snd p)) (fst (shuffle g' ORDER_SKUS))) \<and>
     sorted (map orderItemId (snd p))"
proof (cases rule: order_body_shape[of cfg acct k s])
  case (ob ord g2 g3 g4)
  let ?oid = "ids_orderId (snd s)"
  let ?s' = "(g4, (snd s)\<lparr>ids_orderId := ids_orderId (snd s) + 1\<rparr>)"
  let ?n = "fst (intBetween g2 (itemsPerOrderMin cfg) (itemsPerOrderMax cfg))"
  let ?sh = "fst (shuffle g3 ORDER_SKUS)"
  let ?its = "fst (forEach (order_item_body ?oid) (slice0 ?sh ?n) ?s')"
  have pe: "p = (ord, ?its)" using p unfolding ob(1) by simp
  have n: "itemsPerOrderMin cfg \<le> ?n" "?n \<le> itemsPerOrderMax cfg"
    using intBetween_range[of "itemsPerOrderMin cfg" "itemsPerOrderMax cfg" g2] b by simp_all
  have lsh: "length ?sh = 8"
    using length_shuffle[of ORDER_SKUS g3] by (simp add: ORDER_SKUS_def)
  have sl: "slice0 ?sh ?n = take (nat ?n) ?sh"
    using n b by (simp add: slice0_def)
  have lsl: "length (slice0 ?sh ?n) = nat ?n"
    unfolding sl using lsh n b by simp
  have li: "length ?its = nat ?n"
    by (simp add: items_loop_length lsl)
  have rows: "map (\<lambda>it. (\<lparr>cat_sku = sku it, cat_priceCents = priceCents it\<rparr>, qty it, item_orderId it)) ?its
               = map (\<lambda>k. (k, 1, ?oid)) (slice0 ?sh ?n)"
    by (rule items_loop_rows)
  have "map fst (map (\<lambda>it. (\<lparr>cat_sku = sku it, cat_priceCents = priceCents it\<rparr>, qty it, item_orderId it)) ?its)
          = map fst (map (\<lambda>k. (k, 1::int, ?oid)) (slice0 ?sh ?n))"
    by (rule arg_cong[OF rows])
  then have ent: "map (\<lambda>it. \<lparr>cat_sku = sku it, cat_priceCents = priceCents it\<rparr>) ?its = take (length ?its) ?sh"
    unfolding li sl[symmetric] by (simp add: comp_def)
  have q: "qty it = 1 \<and> item_orderId it = orderId ord" if "it \<in> set ?its" for it
  proof -
    have "(\<lparr>cat_sku = sku it, cat_priceCents = priceCents it\<rparr>, qty it, item_orderId it)
            \<in> set (map (\<lambda>it. (\<lparr>cat_sku = sku it, cat_priceCents = priceCents it\<rparr>, qty it, item_orderId it)) ?its)"
      using that by (simp add: image_iff) blast
    then have "(\<lparr>cat_sku = sku it, cat_priceCents = priceCents it\<rparr>, qty it, item_orderId it)
            \<in> set (map (\<lambda>k. (k, 1, ?oid)) (slice0 ?sh ?n))"
      unfolding rows .
    then show ?thesis by (auto simp: ob(3))
  qed
  have so: "sorted (map orderItemId ?its)"
    using items_loop_ids[of ?oid "slice0 ?sh ?n" ?s', THEN conjunct1] by (rule counter_sorted)
  have l1: "itemsPerOrderMin cfg \<le> int (length ?its)" "int (length ?its) \<le> itemsPerOrderMax cfg"
    unfolding li using n b by simp_all
  have ex: "\<exists>g'. map (\<lambda>it. \<lparr>cat_sku = sku it, cat_priceCents = priceCents it\<rparr>) ?its
             = take (length ?its) (fst (shuffle g' ORDER_SKUS))"
    using ent by (rule exI)
  show ?thesis
    unfolding pe fst_conv snd_conv
    using ob(4) l1 q ex so by (intro conjI ballI) blast+
qed

lemma orders_of_account_length:
  "length (fst (orders_of_account cfg acct s))
     = nat (fst (intBetween (fst s) (ordersPerAccountMin cfg) (ordersPerAccountMax cfg)))"
  by (cases s) (simp add: Let_def case_prod_beta forEach_single order_body_length)

lemma orders_of_account_all:
  assumes b: "0 \<le> itemsPerOrderMin cfg" "itemsPerOrderMin cfg \<le> itemsPerOrderMax cfg"
      "itemsPerOrderMax cfg \<le> 8"
    and p: "p \<in> set (fst (orders_of_account cfg acct s))"
  shows "ord_accountId (fst p) = accountId acct \<and>
     itemsPerOrderMin cfg \<le> int (length (snd p)) \<and>
     int (length (snd p)) \<le> itemsPerOrderMax cfg \<and>
     (\<forall>it \<in> set (snd p). qty it = 1 \<and> item_orderId it = orderId (fst p)) \<and>
     (\<exists>g'. map (\<lambda>it. \<lparr>cat_sku = sku it, cat_priceCents = priceCents it\<rparr>) (snd p)
             = take (length (snd p)) (fst (shuffle g' ORDER_SKUS))) \<and>
     sorted (map orderItemId (snd p))"
proof (cases s)
  case (Pair g ids)
  let ?n = "nat (fst (intBetween g (ordersPerAccountMin cfg) (ordersPerAccountMax cfg)))"
  let ?s = "(snd (intBetween g (ordersPerAccountMin cfg) (ordersPerAccountMax cfg)), ids)"
  have "p \<in> set (fst (forEach (order_body cfg acct) [0..<?n] ?s))"
    using p Pair by (simp add: Let_def case_prod_beta)
  then obtain k s' where "p \<in> set (fst (order_body cfg acct k s'))"
    using forEach_in[of p "order_body cfg acct" "[0..<?n]" ?s] by blast
  then show ?thesis by (rule order_body_block[OF b])
qed

lemma gen_orders_all:
  assumes b: "0 \<le> itemsPerOrderMin cfg" "itemsPerOrderMin cfg \<le> itemsPerOrderMax cfg"
      "itemsPerOrderMax cfg \<le> 8"
    and p: "p \<in> set (fst (gen_orders cfg accts s))"
  shows "ord_accountId (fst p) \<in> accountId ` set accts \<and>
     itemsPerOrderMin cfg \<le> int (length (snd p)) \<and>
     int (length (snd p)) \<le> itemsPerOrderMax cfg \<and>
     (\<forall>it \<in> set (snd p). qty it = 1 \<and> item_orderId it = orderId (fst p)) \<and>
     (\<exists>g'. map (\<lambda>it. \<lparr>cat_sku = sku it, cat_priceCents = priceCents it\<rparr>) (snd p)
             = take (length (snd p)) (fst (shuffle g' ORDER_SKUS))) \<and>
     sorted (map orderItemId (snd p))"
proof -
  obtain a s' where a: "a \<in> set accts" "p \<in> set (fst (orders_of_account cfg a s'))"
    using forEach_in[of p "orders_of_account cfg" accts s] p unfolding gen_orders_def by blast
  show ?thesis
    using orders_of_account_all[OF b a(2)] a(1) by simp
qed

lemma orders_of_account_ids:
  "map orderId (map fst (fst (orders_of_account cfg acct s)))
     = map (\<lambda>k. ids_orderId (snd s) + int k) [0..<length (map fst (fst (orders_of_account cfg acct s)))] \<and>
   ids_orderId (snd (snd (orders_of_account cfg acct s)))
     = ids_orderId (snd s) + int (length (map fst (fst (orders_of_account cfg acct s))))"
  "map orderItemId (concat (map snd (fst (orders_of_account cfg acct s))))
     = map (\<lambda>k. ids_orderItemId (snd s) + int k) [0..<length (concat (map snd (fst (orders_of_account cfg acct s))))] \<and>
   ids_orderItemId (snd (snd (orders_of_account cfg acct s)))
     = ids_orderItemId (snd s) + int (length (concat (map snd (fst (orders_of_account cfg acct s)))))"
proof -
  obtain g ids where s: "s = (g, ids)" by (cases s)
  let ?n = "nat (fst (intBetween g (ordersPerAccountMin cfg) (ordersPerAccountMax cfg)))"
  let ?s = "(snd (intBetween g (ordersPerAccountMin cfg) (ordersPerAccountMax cfg)), ids)"
  have e: "orders_of_account cfg acct s = forEach (order_body cfg acct) [0..<?n] ?s"
    unfolding s by (simp add: Let_def case_prod_beta)
  have i: "ids_orderId (snd ?s) = ids_orderId (snd s)" "ids_orderItemId (snd ?s) = ids_orderItemId (snd s)"
    unfolding s by simp_all
  show "map orderId (map fst (fst (orders_of_account cfg acct s)))
     = map (\<lambda>k. ids_orderId (snd s) + int k) [0..<length (map fst (fst (orders_of_account cfg acct s)))] \<and>
   ids_orderId (snd (snd (orders_of_account cfg acct s)))
     = ids_orderId (snd s) + int (length (map fst (fst (orders_of_account cfg acct s))))"
    unfolding e i[symmetric]
    by (rule forEach_counter[where pr = "map fst" and cnt = "\<lambda>s. ids_orderId (snd s)"])
       (rule order_body_ids(1), simp_all)
  show "map orderItemId (concat (map snd (fst (orders_of_account cfg acct s))))
     = map (\<lambda>k. ids_orderItemId (snd s) + int k) [0..<length (concat (map snd (fst (orders_of_account cfg acct s))))] \<and>
   ids_orderItemId (snd (snd (orders_of_account cfg acct s)))
     = ids_orderItemId (snd s) + int (length (concat (map snd (fst (orders_of_account cfg acct s)))))"
    unfolding e i[symmetric]
    by (rule forEach_counter[where pr = "\<lambda>ps. concat (map snd ps)" and cnt = "\<lambda>s. ids_orderItemId (snd s)"])
       (rule order_body_ids(2), simp_all)
qed

lemma gen_orders_ids:
  "map orderId (map fst (fst (gen_orders cfg accts s)))
     = map (\<lambda>k. ids_orderId (snd s) + int k) [0..<length (map fst (fst (gen_orders cfg accts s)))] \<and>
   ids_orderId (snd (snd (gen_orders cfg accts s)))
     = ids_orderId (snd s) + int (length (map fst (fst (gen_orders cfg accts s))))"
  "map orderItemId (concat (map snd (fst (gen_orders cfg accts s))))
     = map (\<lambda>k. ids_orderItemId (snd s) + int k) [0..<length (concat (map snd (fst (gen_orders cfg accts s))))] \<and>
   ids_orderItemId (snd (snd (gen_orders cfg accts s)))
     = ids_orderItemId (snd s) + int (length (concat (map snd (fst (gen_orders cfg accts s)))))"
proof -
  show "map orderId (map fst (fst (gen_orders cfg accts s)))
     = map (\<lambda>k. ids_orderId (snd s) + int k) [0..<length (map fst (fst (gen_orders cfg accts s)))] \<and>
   ids_orderId (snd (snd (gen_orders cfg accts s)))
     = ids_orderId (snd s) + int (length (map fst (fst (gen_orders cfg accts s))))"
    unfolding gen_orders_def
    by (rule forEach_counter[where pr = "map fst" and cnt = "\<lambda>s. ids_orderId (snd s)"])
       (rule orders_of_account_ids(1), simp_all)
  show "map orderItemId (concat (map snd (fst (gen_orders cfg accts s))))
     = map (\<lambda>k. ids_orderItemId (snd s) + int k) [0..<length (concat (map snd (fst (gen_orders cfg accts s))))] \<and>
   ids_orderItemId (snd (snd (gen_orders cfg accts s)))
     = ids_orderItemId (snd s) + int (length (concat (map snd (fst (gen_orders cfg accts s)))))"
    unfolding gen_orders_def
    by (rule forEach_counter[where pr = "\<lambda>ps. concat (map snd ps)" and cnt = "\<lambda>s. ids_orderItemId (snd s)"])
       (rule orders_of_account_ids(2), simp_all)
qed

lemma gen_orders_length:
  assumes "0 \<le> ordersPerAccountMin cfg" "ordersPerAccountMin cfg \<le> ordersPerAccountMax cfg"
    "ordersPerAccountMax cfg - ordersPerAccountMin cfg < 2 ^ 21"
  shows "nat (ordersPerAccountMin cfg) * length accts \<le> length (fst (gen_orders cfg accts s)) \<and>
         length (fst (gen_orders cfg accts s)) \<le> nat (ordersPerAccountMax cfg) * length accts"
  unfolding gen_orders_def
proof (rule forEach_length_bounds)
  fix a s'
  show "nat (ordersPerAccountMin cfg) \<le> length (fst (orders_of_account cfg a s')) \<and>
        length (fst (orders_of_account cfg a s')) \<le> nat (ordersPerAccountMax cfg)"
    using intBetween_range[OF assms(2,3), of "fst s'"] assms(1)
    unfolding orders_of_account_length by arith
qed

section \<open>Counters that the earlier stages leave alone\<close>

lemma account_body_keep:
  "(ids_orderId (snd (snd (account_body cfg i s))), ids_orderItemId (snd (snd (account_body cfg i s))))
     = (ids_orderId (snd s), ids_orderItemId (snd s))"
  by (cases s) (simp add: Let_def case_prod_beta)

lemma gen_accounts_keep:
  "(ids_orderId (snd (snd (gen_accounts cfg s))), ids_orderItemId (snd (snd (gen_accounts cfg s))))
     = (ids_orderId (snd s), ids_orderItemId (snd s))"
  unfolding gen_accounts_def
  by (rule forEach_keep[where I = "\<lambda>s. (ids_orderId (snd s), ids_orderItemId (snd s))"])
     (rule account_body_keep)

lemma subscriber_body_keep:
  "(ids_orderId (snd (snd (subscriber_body cfg acct j s))),
    ids_orderItemId (snd (snd (subscriber_body cfg acct j s))))
     = (ids_orderId (snd s), ids_orderItemId (snd s))"
  by (cases s) (simp add: Let_def case_prod_beta)

lemma subscribers_of_account_keep:
  "(ids_orderId (snd (snd (subscribers_of_account cfg acct s))),
    ids_orderItemId (snd (snd (subscribers_of_account cfg acct s))))
     = (ids_orderId (snd s), ids_orderItemId (snd s))"
proof (cases s)
  case (Pair g ids)
  let ?n = "nat (fst (intBetween g (subsPerAccountMin cfg) (subsPerAccountMax cfg)))"
  let ?s = "(snd (intBetween g (subsPerAccountMin cfg) (subsPerAccountMax cfg)), ids)"
  have e: "subscribers_of_account cfg acct s = forEach (subscriber_body cfg acct) [0..<?n] ?s"
    unfolding Pair by (simp add: Let_def case_prod_beta)
  have "(ids_orderId (snd (snd (forEach (subscriber_body cfg acct) [0..<?n] ?s))),
         ids_orderItemId (snd (snd (forEach (subscriber_body cfg acct) [0..<?n] ?s))))
          = (ids_orderId (snd ?s), ids_orderItemId (snd ?s))"
    by (rule forEach_keep[where I = "\<lambda>s. (ids_orderId (snd s), ids_orderItemId (snd s))"])
       (rule subscriber_body_keep)
  then show ?thesis unfolding e by (simp add: Pair)
qed

lemma gen_subscribers_keep:
  "(ids_orderId (snd (snd (gen_subscribers cfg accts s))),
    ids_orderItemId (snd (snd (gen_subscribers cfg accts s))))
     = (ids_orderId (snd s), ids_orderItemId (snd s))"
  unfolding gen_subscribers_def
  by (rule forEach_keep[where I = "\<lambda>s. (ids_orderId (snd s), ids_orderItemId (snd s))"])
     (rule subscribers_of_account_keep)

lemma device_body_keep:
  "(ids_orderId (snd (snd (device_body sub s))), ids_orderItemId (snd (snd (device_body sub s))))
     = (ids_orderId (snd s), ids_orderItemId (snd s))"
  by (cases s) (simp add: Let_def case_prod_beta)

lemma gen_devices_keep:
  "(ids_orderId (snd (snd (gen_devices subs s))), ids_orderItemId (snd (snd (gen_devices subs s))))
     = (ids_orderId (snd s), ids_orderItemId (snd s))"
  unfolding gen_devices_def
  by (rule forEach_keep[where I = "\<lambda>s. (ids_orderId (snd s), ids_orderItemId (snd s))"])
     (rule device_body_keep)

lemma length_block_le:
  "p \<in> set ps \<Longrightarrow> length (snd p) \<le> length (concat (map snd ps))"
  by (induction ps) auto

section \<open>Identifiers of orders and order items\<close>

lemma order_ids_of_graph:
  obtains (ids) oi where
    "c_orders (generateCanonical g cfg) = sort_key orderId (map fst oi)"
    "c_order_items (generateCanonical g cfg) = sort_key orderItemId (concat (map snd oi))"
    "map orderId (map fst oi) = map (\<lambda>k. 4001 + int k) [0..<length (map fst oi)]"
    "map orderItemId (concat (map snd oi)) = map (\<lambda>k. 4101 + int k) [0..<length (concat (map snd oi))]"
    "\<exists>accts s. oi = fst (gen_orders cfg accts s) \<and> length accts = nat (accounts cfg)"
proof (cases rule: generateCanonical_stages[of cfg g])
  case (stages plans regions dcs ids3 accts s1 sp s2 devs s3 oi s4 sfs s5 sfst s6 tks s7 nts s8 evs s9 urs s10)
  have k1: "(ids_orderId (snd s1), ids_orderItemId (snd s1)) = (4001, 4101)"
    using gen_accounts_keep[of cfg "(g, ids3)", unfolded stages(5)]
    by (simp add: stages(4) idRanges_def)
  have k2: "(ids_orderId (snd s2), ids_orderItemId (snd s2)) = (4001, 4101)"
    using gen_subscribers_keep[of cfg accts s1, unfolded stages(6)] k1 by simp
  have k3: "(ids_orderId (snd s3), ids_orderItemId (snd s3)) = (4001, 4101)"
    using gen_devices_keep[of "map fst sp" s2, unfolded stages(7)] k2 by simp
  have k: "ids_orderId (snd s3) = 4001" "ids_orderItemId (snd s3) = 4101"
    using k3 by simp_all
  have la: "length accts = nat (accounts cfg)"
    using gen_accounts_length[of cfg "(g, ids3)"] unfolding stages(5) by simp
  show ?thesis
  proof (rule ids[of oi])
    show "c_orders (generateCanonical g cfg) = sort_key orderId (map fst oi)"
      by (simp add: stages(15))
    show "c_order_items (generateCanonical g cfg) = sort_key orderItemId (concat (map snd oi))"
      by (simp add: stages(15))
    show "map orderId (map fst oi) = map (\<lambda>k. 4001 + int k) [0..<length (map fst oi)]"
      using gen_orders_ids(1)[of cfg accts s3, THEN conjunct1] unfolding stages(8) k fst_conv .
    show "map orderItemId (concat (map snd oi)) = map (\<lambda>k. 4101 + int k) [0..<length (concat (map snd oi))]"
      using gen_orders_ids(2)[of cfg accts s3, THEN conjunct1] unfolding stages(8) k fst_conv .
    show "\<exists>accts s. oi = fst (gen_orders cfg accts s) \<and> length accts = nat (accounts cfg)"
      using stages(8) la by (intro exI[of _ accts] exI[of _ s3]) simp
  qed
qed

text \<open>
  Claim C3. In the graph generated for size \<open>L\<close>, whatever the seed, the identifier
  4101 is the identifier of an order and also the identifier of an order item: orders
  are numbered from 4001 and there are at least 200 of them, order items are numbered
  from 4101.
\<close>

theorem large_order_ids_collide:
  "4101 \<in> orderId ` set (c_orders (generateCanonical (mulberry32 seed) (presets ''L''))) \<and>
   4101 \<in> orderItemId ` set (c_order_items (generateCanonical (mulberry32 seed) (presets ''L'')))"
proof (cases rule: order_ids_of_graph[of "mulberry32 seed" "presets ''L''"])
  case (ids oi)
  obtain accts s where oi: "oi = fst (gen_orders (presets ''L'') accts s)"
    and la: "length accts = nat (accounts (presets ''L''))"
    using ids(5) by blast
  have "nat (ordersPerAccountMin (presets ''L'')) * length accts
          \<le> length (fst (gen_orders (presets ''L'') accts s))"
    by (rule gen_orders_length[THEN conjunct1]) (simp_all add: presets_def)
  then have lo: "200 \<le> length oi" unfolding oi la by (simp add: presets_def)
  have "4001 + int 100 \<in> orderId ` set (map fst oi)"
    using ids(3) by (rule counter_mem) (use lo in simp)
  then have 1: "4101 \<in> orderId ` set (c_orders (generateCanonical (mulberry32 seed) (presets ''L'')))"
    unfolding ids(1) by simp
  have "oi \<noteq> []" using lo by auto
  then have h: "hd oi \<in> set oi" by simp
  have "itemsPerOrderMin (presets ''L'') \<le> int (length (snd (hd oi)))"
    using gen_orders_all[of "presets ''L''" "hd oi" accts s] h unfolding oi
    by (simp add: presets_def)
  then have "0 < length (snd (hd oi))" by (auto simp add: presets_def)
  then have "0 < length (concat (map snd oi))"
    using length_block_le[OF h] by linarith
  then have "4101 + int 0 \<in> orderItemId ` set (concat (map snd oi))"
    using ids(4) by (intro counter_mem)
  then have 2: "4101 \<in> orderItemId ` set (c_order_items (generateCanonical (mulberry32 seed) (presets ''L'')))"
    unfolding ids(2) by simp
  show ?thesis using 1 2 by (rule conjI)
qed


section \<open>The items of an order\<close>

lemma presets_item_bounds:
  "0 \<le> itemsPerOrderMin (presets sz)" "itemsPerOrderMin (presets sz) \<le> itemsPerOrderMax (presets sz)"
  "itemsPerOrderMax (presets sz) \<le> 8"
  by (simp_all add: presets_def)

lemma catalog_distinct: "distinct (map cat_sku ORDER_SKUS)"
  by (simp add: ORDER_SKUS_def)

lemma shuffled_catalog:
  "mset (fst (shuffle g' ORDER_SKUS)) = mset ORDER_SKUS"
  by (rule shuffle_mset) (simp add: ORDER_SKUS_def)


lemma catalog_prefix_price:
  assumes "map (\<lambda>it. \<lparr>cat_sku = sku it, cat_priceCents = priceCents it\<rparr>) its = take n (fst (shuffle g' ORDER_SKUS))" and "it \<in> set its"
  shows "map_of (map (\<lambda>e. (cat_sku e, cat_priceCents e)) ORDER_SKUS) (sku it) = Some (priceCents it)"
proof -
  have "(\<lambda>it. \<lparr>cat_sku = sku it, cat_priceCents = priceCents it\<rparr>) it \<in> set (map (\<lambda>it. \<lparr>cat_sku = sku it, cat_priceCents = priceCents it\<rparr>) its)" using assms(2) by (auto simp: image_iff intro: bexI[of _ it])
  then have "(\<lambda>it. \<lparr>cat_sku = sku it, cat_priceCents = priceCents it\<rparr>) it \<in> set (fst (shuffle g' ORDER_SKUS))"
    unfolding assms(1) by (rule in_set_takeD)
  then have "(\<lambda>it. \<lparr>cat_sku = sku it, cat_priceCents = priceCents it\<rparr>) it \<in> set ORDER_SKUS"
    using shuffled_catalog[of g'] by (metis set_mset_mset)
  then have "(sku it, priceCents it) \<in> set (map (\<lambda>e. (cat_sku e, cat_priceCents e)) ORDER_SKUS)"
    by (force simp: image_iff)
  moreover have "distinct (map fst (map (\<lambda>e. (cat_sku e, cat_priceCents e)) ORDER_SKUS))"
    using catalog_distinct by (simp add: comp_def)
  ultimately show ?thesis by (rule map_of_is_SomeI[rotated])
qed


lemma order_items_of_graph:
  assumes b: "0 \<le> itemsPerOrderMin cfg" "itemsPerOrderMin cfg \<le> itemsPerOrderMax cfg"
      "itemsPerOrderMax cfg \<le> 8"
    and i: "it \<in> set (c_order_items (generateCanonical g cfg))"
  shows "qty it = 1 \<and> map_of (map (\<lambda>e. (cat_sku e, cat_priceCents e)) ORDER_SKUS) (sku it) = Some (priceCents it) \<and>
         item_orderId it \<in> orderId ` set (c_orders (generateCanonical g cfg))"
proof (cases rule: order_ids_of_graph[of g cfg])
  case (ids oi)
  obtain accts s where oi: "oi = fst (gen_orders cfg accts s)" using ids(5) by blast
  obtain p where p: "p \<in> set oi" "it \<in> set (snd p)"
    using i unfolding ids(2) by auto
  have all: "(\<forall>it \<in> set (snd p). qty it = 1 \<and> item_orderId it = orderId (fst p)) \<and>
     (\<exists>g'. map (\<lambda>it. \<lparr>cat_sku = sku it, cat_priceCents = priceCents it\<rparr>) (snd p) = take (length (snd p)) (fst (shuffle g' ORDER_SKUS)))"
    using gen_orders_all[OF b, of p accts s] p(1) unfolding oi by blast
  then obtain g' where g': "map (\<lambda>it. \<lparr>cat_sku = sku it, cat_priceCents = priceCents it\<rparr>) (snd p) = take (length (snd p)) (fst (shuffle g' ORDER_SKUS))"
    by blast
  have "fst p \<in> set (map fst oi)" using p(1) by simp
  then have "orderId (fst p) \<in> orderId ` set (c_orders (generateCanonical g cfg))"
    unfolding ids(1) by simp
  then show ?thesis
    using all p(2) catalog_prefix_price[OF g' p(2)] by auto
qed





section \<open>References between the stages\<close>

lemma slice0_shuffle_subset:
  "length xs \<le> 2 ^ 21 \<Longrightarrow> set (slice0 (fst (shuffle g xs)) n) \<subseteq> set xs"
  using set_slice0[of "fst (shuffle g xs)" n] shuffle_set[of xs g] by simp

lemma device_body_out:
  "length (fst (device_body sub s)) = 1"
  "d \<in> set (fst (device_body sub s)) \<Longrightarrow> dev_subscriberId d = subscriberId sub"
  by (cases s; auto simp add: Let_def case_prod_beta)+

lemma gen_devices_tag:
  assumes "d \<in> set (fst (gen_devices subs s))"
  shows "dev_subscriberId d \<in> subscriberId ` set subs"
proof -
  obtain sub s' where "sub \<in> set subs" "d \<in> set (fst (device_body sub s'))"
    using forEach_in[of d device_body subs s] assms unfolding gen_devices_def by blast
  then show ?thesis using device_body_out(2) by blast
qed

lemma gen_devices_length: "length (fst (gen_devices subs s)) = length subs"
  unfolding gen_devices_def by (simp add: forEach_single device_body_out)

lemma subscriber_features_body_out:
  assumes "length features \<le> 2 ^ 21"
    and "r \<in> set (fst (subscriber_features_body features sub s))"
  shows "sf_subscriberId r = subscriberId sub \<and> sf_featureId r \<in> featureId ` set features"
proof (cases s)
  case (Pair g ids)
  let ?g1 = "snd (intBetween g 1 2)"
  let ?chosen = "slice0 (fst (shuffle ?g1 features)) (fst (intBetween g 1 2))"
  have "r \<in> (\<lambda>f. \<lparr>sf_subscriberId = subscriberId sub, sf_featureId = featureId f\<rparr>) ` set ?chosen"
    using assms(2) unfolding Pair by (simp add: Let_def case_prod_beta)
  then obtain f where f: "f \<in> set ?chosen"
    "r = \<lparr>sf_subscriberId = subscriberId sub, sf_featureId = featureId f\<rparr>" by blast
  have "f \<in> set features" using f(1) slice0_shuffle_subset[OF assms(1)] by blast
  then show ?thesis using f(2) by simp
qed

lemma gen_subscriberFeatures_tag:
  assumes "length features \<le> 2 ^ 21"
    and "r \<in> set (fst (gen_subscriberFeatures features subs s))"
  shows "sf_subscriberId r \<in> subscriberId ` set subs \<and> sf_featureId r \<in> featureId ` set features"
proof -
  obtain sub s' where "sub \<in> set subs" "r \<in> set (fst (subscriber_features_body features sub s'))"
    using forEach_in[of r "subscriber_features_body features" subs s] assms(2)
    unfolding gen_subscriberFeatures_def by blast
  then show ?thesis using subscriber_features_body_out[OF assms(1)] by blast
qed

lemma feature_state_body_out:
  assumes "r \<in> set (fst (feature_state_body cfg sf s))"
  shows "sfs_subscriberId r = sf_subscriberId sf \<and> sfs_featureId r = sf_featureId sf"
  using assms by (cases s) (auto simp add: Let_def case_prod_beta split: if_splits)

lemma gen_subscriberFeatureState_tag:
  assumes "r \<in> set (fst (gen_subscriberFeatureState cfg sfs s))"
  shows "(sfs_subscriberId r, sfs_featureId r) \<in> (\<lambda>x. (sf_subscriberId x, sf_featureId x)) ` set sfs"
proof -
  obtain sf s' where sf: "sf \<in> set sfs" "r \<in> set (fst (feature_state_body cfg sf s'))"
    using forEach_in[of r "feature_state_body cfg" sfs s] assms
    unfolding gen_subscriberFeatureState_def by blast
  have "(sfs_subscriberId r, sfs_featureId r) = (sf_subscriberId sf, sf_featureId sf)"
    using feature_state_body_out[OF sf(2)] by simp
  then show ?thesis using sf(1) by (rule image_eqI)
qed

lemma ticket_body_out:
  "length (fst (ticket_body cfg codes sub i s)) = 1"
  "codes \<noteq> [] \<Longrightarrow> length codes \<le> 2 ^ 21 \<Longrightarrow> t \<in> set (fst (ticket_body cfg codes sub i s)) \<Longrightarrow>
     tkt_subscriberId t = subscriberId sub \<and> statusCode t \<in> tsc_code ` set codes"
proof -
  show "length (fst (ticket_body cfg codes sub i s)) = 1"
    by (cases s) (simp add: Let_def case_prod_beta)
  assume c: "codes \<noteq> []" "length codes \<le> 2 ^ 21"
    and t: "t \<in> set (fst (ticket_body cfg codes sub i s))"
  have "fst (choice g codes) \<in> set codes" for g
    using c by (rule choice_in_set)
  then show "tkt_subscriberId t = subscriberId sub \<and> statusCode t \<in> tsc_code ` set codes"
    using t by (cases s) (auto simp add: Let_def case_prod_beta)
qed

lemma tickets_of_subscriber_length:
  "length (fst (tickets_of_subscriber cfg codes sub s))
     = nat (fst (intBetween (fst s) (ticketsPerSubscriberMin cfg) (ticketsPerSubscriberMax cfg)))"
  by (cases s) (simp add: Let_def case_prod_beta forEach_single ticket_body_out)

lemma tickets_of_subscriber_tag:
  assumes "codes \<noteq> []" "length codes \<le> 2 ^ 21"
    and "t \<in> set (fst (tickets_of_subscriber cfg codes sub s))"
  shows "tkt_subscriberId t = subscriberId sub \<and> statusCode t \<in> tsc_code ` set codes"
proof (cases s)
  case (Pair g ids)
  let ?n = "nat (fst (intBetween g (ticketsPerSubscriberMin cfg) (ticketsPerSubscriberMax cfg)))"
  let ?s = "(snd (intBetween g (ticketsPerSubscriberMin cfg) (ticketsPerSubscriberMax cfg)), ids)"
  have "t \<in> set (fst (forEach (ticket_body cfg codes sub) [0..<?n] ?s))"
    using assms(3) Pair by (simp add: Let_def case_prod_beta)
  then obtain i s' where "t \<in> set (fst (ticket_body cfg codes sub i s'))"
    using forEach_in[of t "ticket_body cfg codes sub" "[0..<?n]" ?s] by blast
  then show ?thesis by (rule ticket_body_out(2)[OF assms(1,2)])
qed

lemma gen_tickets_tag:
  assumes "codes \<noteq> []" "length codes \<le> 2 ^ 21"
    and "t \<in> set (fst (gen_tickets cfg codes subs s))"
  shows "tkt_subscriberId t \<in> subscriberId ` set subs \<and> statusCode t \<in> tsc_code ` set codes"
proof -
  obtain sub s' where "sub \<in> set subs" "t \<in> set (fst (tickets_of_subscriber cfg codes sub s'))"
    using forEach_in[of t "tickets_of_subscriber cfg codes" subs s] assms(3)
    unfolding gen_tickets_def by blast
  then show ?thesis using tickets_of_subscriber_tag[OF assms(1,2)] by blast
qed

lemma gen_tickets_length:
  assumes "0 \<le> ticketsPerSubscriberMin cfg" "ticketsPerSubscriberMin cfg \<le> ticketsPerSubscriberMax cfg"
    "ticketsPerSubscriberMax cfg - ticketsPerSubscriberMin cfg < 2 ^ 21"
  shows "length (fst (gen_tickets cfg codes subs s)) \<le> nat (ticketsPerSubscriberMax cfg) * length subs"
  unfolding gen_tickets_def
proof (rule forEach_length_bounds[where lo = 0, THEN conjunct2])
  fix a s'
  show "0 \<le> length (fst (tickets_of_subscriber cfg codes a s')) \<and>
        length (fst (tickets_of_subscriber cfg codes a s')) \<le> nat (ticketsPerSubscriberMax cfg)"
    using intBetween_range[OF assms(2,3), of "fst s'"] assms(1)
    unfolding tickets_of_subscriber_length by arith
qed

lemma note_body_out:
  assumes "n \<in> set (fst (note_body cfg ref s))"
  shows "(refType n, refId n) = ref"
  using assms by (cases s; cases ref) (auto simp add: Let_def case_prod_beta)

lemma gen_notes_tag:
  assumes "length subs \<le> 2 ^ 21" "length ords \<le> 2 ^ 21" "length tkts \<le> 2 ^ 21"
    and "n \<in> set (fst (gen_notes cfg subs ords tkts s))"
  shows "(refType n = ''subscriber'' \<and> refId n \<in> subscriberId ` set subs) \<or>
         (refType n = ''order'' \<and> refId n \<in> orderId ` set ords) \<or>
         (refType n = ''ticket'' \<and> refId n \<in> ticketId ` set tkts)"
proof (cases s)
  case (Pair g0 ids)
  let ?g1 = "snd (shuffle g0 subs)"
  let ?g2 = "snd (shuffle ?g1 ords)"
  let ?g3 = "snd (shuffle ?g2 tkts)"
  let ?ss = "slice0 (fst (shuffle g0 subs)) (min 4 (int (length subs)))"
  let ?so = "slice0 (fst (shuffle ?g1 ords)) (min 3 (int (length ords)))"
  let ?st = "slice0 (fst (shuffle ?g2 tkts)) (min 4 (int (length tkts)))"
  let ?refs = "map (\<lambda>s. (''subscriber'', subscriberId s)) ?ss
            @ map (\<lambda>o'. (''order'', orderId o')) ?so
            @ map (\<lambda>t. (''ticket'', ticketId t)) ?st"
  have e: "gen_notes cfg subs ords tkts s = forEach (note_body cfg) ?refs (?g3, ids)"
    unfolding Pair by (simp add: Let_def case_prod_beta)
  obtain ref s' where r: "ref \<in> set ?refs" "n \<in> set (fst (note_body cfg ref s'))"
    using forEach_in[of n "note_body cfg" ?refs "(?g3, ids)"] assms(4) unfolding e by blast
  have n: "(refType n, refId n) = ref" using r(2) by (rule note_body_out)
  have ss: "set ?ss \<subseteq> set subs" using assms(1) by (rule slice0_shuffle_subset)
  have so: "set ?so \<subseteq> set ords" using assms(2) by (rule slice0_shuffle_subset)
  have st: "set ?st \<subseteq> set tkts" using assms(3) by (rule slice0_shuffle_subset)
  from r(1) consider
      (a) x where "x \<in> set ?ss" "ref = (''subscriber'', subscriberId x)"
    | (b) x where "x \<in> set ?so" "ref = (''order'', orderId x)"
    | (c) x where "x \<in> set ?st" "ref = (''ticket'', ticketId x)"
    by auto
  then show ?thesis
  proof cases
    case a
    then have "refType n = ''subscriber''" "refId n \<in> subscriberId ` set subs"
      using n ss by auto
    then show ?thesis by simp
  next
    case b
    then have "refType n = ''order''" "refId n \<in> orderId ` set ords"
      using n so by auto
    then show ?thesis by simp
  next
    case c
    then have "refType n = ''ticket''" "refId n \<in> ticketId ` set tkts"
      using n st by auto
    then show ?thesis by simp
  qed
qed

lemma device_event_body_out:
  assumes "e \<in> set (fst (device_event_body cfg d i s))"
  shows "ev_deviceId e = deviceId d"
  using assms by (cases s) (auto simp add: Let_def case_prod_beta)

lemma gen_deviceEvents_tag:
  assumes "e \<in> set (fst (gen_deviceEvents cfg devs s))"
  shows "ev_deviceId e \<in> deviceId ` set devs"
proof -
  obtain d s' where d: "d \<in> set devs" "e \<in> set (fst (events_of_device cfg d s'))"
    using forEach_in[of e "events_of_device cfg" devs s] assms
    unfolding gen_deviceEvents_def by blast
  obtain g ids where s': "s' = (g, ids)" by (cases s')
  let ?n = "nat (fst (intBetween g (deviceEventsPerDeviceMin cfg) (deviceEventsPerDeviceMax cfg)))"
  let ?s = "(snd (intBetween g (deviceEventsPerDeviceMin cfg) (deviceEventsPerDeviceMax cfg)), ids)"
  have "e \<in> set (fst (forEach (device_event_body cfg d) [0..<?n] ?s))"
    using d(2) unfolding s' by (simp add: Let_def case_prod_beta)
  then obtain i s'' where "e \<in> set (fst (device_event_body cfg d i s''))"
    using forEach_in[of e "device_event_body cfg d" "[0..<?n]" ?s] by blast
  then show ?thesis using device_event_body_out d(1) by blast
qed

lemma gen_rates_tag:
  assumes "r \<in> set (gen_rates plans regions dcs)"
  shows "rate_planId r \<in> planId ` set plans \<and> rate_regionId r \<in> regionId ` set regions \<and>
         rate_deviceClassId r \<in> deviceClassId ` set dcs"
  using assms by (auto simp add: gen_rates_def gen_rate_def Let_def)

lemma orgUnits_parent:
  "u \<in> set orgUnits \<Longrightarrow> parentOrgUnitId u = Some p \<Longrightarrow> p \<in> orgUnitId ` set orgUnits"
  by (auto simp add: orgUnits_def)

section \<open>Referential integrity\<close>

lemma presets_bounds:
  "0 \<le> accounts (presets sz)" "accounts (presets sz) \<le> 200"
  "0 \<le> subsPerAccountMin (presets sz)" "subsPerAccountMin (presets sz) \<le> subsPerAccountMax (presets sz)"
  "subsPerAccountMax (presets sz) \<le> 6"
  "0 \<le> ordersPerAccountMin (presets sz)" "ordersPerAccountMin (presets sz) \<le> ordersPerAccountMax (presets sz)"
  "ordersPerAccountMax (presets sz) \<le> 5"
  "0 \<le> ticketsPerSubscriberMin (presets sz)"
  "ticketsPerSubscriberMin (presets sz) \<le> ticketsPerSubscriberMax (presets sz)"
  "ticketsPerSubscriberMax (presets sz) \<le> 2"
  by (simp_all add: presets_def)

lemma product_bound:
  fixes a b :: nat
  shows "n \<le> a * b \<Longrightarrow> a \<le> a' \<Longrightarrow> b \<le> b' \<Longrightarrow> n \<le> a' * b'"
  using mult_le_mono[of a a' b b'] by linarith

lemma graph_sizes:
  assumes "gen_accounts (presets sz) s0 = (accts, s1)"
    and "gen_subscribers (presets sz) accts s1 = (sp, s2)"
    and "gen_orders (presets sz) accts s3 = (oi, s4)"
    and "gen_tickets (presets sz) codes (map fst sp) s6 = (tks, s7)"
  shows "length accts \<le> 200" "length sp \<le> 1200" "length oi \<le> 1000" "length tks \<le> 2400"
proof -
  note b = presets_bounds[of sz]
  show la: "length accts \<le> 200"
    using gen_accounts_length[of "presets sz" s0] b(1,2) unfolding assms(1) by simp
  have "length (fst (gen_subscribers (presets sz) accts s1))
          \<le> nat (subsPerAccountMax (presets sz)) * length accts"
    using b(3,4,5) by (intro gen_subscribers_length[THEN conjunct2]) simp_all
  moreover have "nat (subsPerAccountMax (presets sz)) \<le> 6" using b(5) by simp
  ultimately have "length sp \<le> 6 * 200"
    unfolding assms(2) fst_conv using la by (rule product_bound)
  then show ls: "length sp \<le> 1200" by simp
  have "length (fst (gen_orders (presets sz) accts s3))
          \<le> nat (ordersPerAccountMax (presets sz)) * length accts"
    using b(6,7,8) by (intro gen_orders_length[THEN conjunct2]) simp_all
  moreover have "nat (ordersPerAccountMax (presets sz)) \<le> 5" using b(8) by simp
  ultimately have "length oi \<le> 5 * 200"
    unfolding assms(3) fst_conv using la by (rule product_bound)
  then show "length oi \<le> 1000" by simp
  have "length (fst (gen_tickets (presets sz) codes (map fst sp) s6))
          \<le> nat (ticketsPerSubscriberMax (presets sz)) * length (map fst sp)"
    using b(9,10,11) by (intro gen_tickets_length) simp_all
  moreover have "nat (ticketsPerSubscriberMax (presets sz)) \<le> 2" using b(11) by simp
  moreover have "length (map fst sp) \<le> 1200" using ls by simp
  ultimately have "length tks \<le> 2 * 1200"
    unfolding assms(4) fst_conv by (rule product_bound)
  then show "length tks \<le> 2400" by simp
qed

text \<open>
  Claim C4. In the graph generated for any size and from any state of the random
  source, every reference resolves: a subscriber's account, a profile's subscriber, a
  device's subscriber, a device event's device, an order's account, an order item's
  order, a bridge row's subscriber and feature, a feature-state row's bridge row (the
  pair of subscriber and feature), a ticket's subscriber and status code, a note's
  subscriber, order or ticket according to its reference type, a rate's plan, region and
  device class, a usage record's subscriber, and an organisation unit's parent. Each
  referenced collection is built by an earlier stage of \<open>generateCanonical\<close> than the
  referring one, or is a static table.
\<close>

theorem referential_integrity:
  "(\<forall>s \<in> set (c_subscribers (generateCanonical g (presets sz))). sub_accountId s \<in> accountId ` set (c_accounts (generateCanonical g (presets sz)))) \<and>
   (\<forall>p \<in> set (c_subscriber_profiles (generateCanonical g (presets sz))). prof_subscriberId p \<in> subscriberId ` set (c_subscribers (generateCanonical g (presets sz)))) \<and>
   (\<forall>d \<in> set (c_devices (generateCanonical g (presets sz))). dev_subscriberId d \<in> subscriberId ` set (c_subscribers (generateCanonical g (presets sz)))) \<and>
   (\<forall>e \<in> set (c_device_events (generateCanonical g (presets sz))). ev_deviceId e \<in> deviceId ` set (c_devices (generateCanonical g (presets sz)))) \<and>
   (\<forall>ord \<in> set (c_orders (generateCanonical g (presets sz))). ord_accountId ord \<in> accountId ` set (c_accounts (generateCanonical g (presets sz)))) \<and>
   (\<forall>it \<in> set (c_order_items (generateCanonical g (presets sz))). item_orderId it \<in> orderId ` set (c_orders (generateCanonical g (presets sz)))) \<and>
   (\<forall>r \<in> set (c_subscriber_features (generateCanonical g (presets sz))).
      sf_subscriberId r \<in> subscriberId ` set (c_subscribers (generateCanonical g (presets sz))) \<and>
      sf_featureId r \<in> featureId ` set (c_features (generateCanonical g (presets sz)))) \<and>
   (\<forall>r \<in> set (c_subscriber_feature_state (generateCanonical g (presets sz))).
      (sfs_subscriberId r, sfs_featureId r)
        \<in> (\<lambda>x. (sf_subscriberId x, sf_featureId x)) ` set (c_subscriber_features (generateCanonical g (presets sz)))) \<and>
   (\<forall>t \<in> set (c_tickets (generateCanonical g (presets sz))).
      tkt_subscriberId t \<in> subscriberId ` set (c_subscribers (generateCanonical g (presets sz))) \<and>
      statusCode t \<in> tsc_code ` set (c_ticket_status_codes (generateCanonical g (presets sz)))) \<and>
   (\<forall>n \<in> set (c_notes (generateCanonical g (presets sz))).
      (refType n = ''subscriber'' \<and> refId n \<in> subscriberId ` set (c_subscribers (generateCanonical g (presets sz)))) \<or>
      (refType n = ''order'' \<and> refId n \<in> orderId ` set (c_orders (generateCanonical g (presets sz)))) \<or>
      (refType n = ''ticket'' \<and> refId n \<in> ticketId ` set (c_tickets (generateCanonical g (presets sz))))) \<and>
   (\<forall>r \<in> set (c_rates (generateCanonical g (presets sz))).
      rate_planId r \<in> planId ` set (c_plans (generateCanonical g (presets sz))) \<and>
      rate_regionId r \<in> regionId ` set (c_regions (generateCanonical g (presets sz))) \<and>
      rate_deviceClassId r \<in> deviceClassId ` set (c_device_classes (generateCanonical g (presets sz)))) \<and>
   (\<forall>u \<in> set (c_usage_records (generateCanonical g (presets sz))). ur_subscriberId u \<in> subscriberId ` set (c_subscribers (generateCanonical g (presets sz)))) \<and>
   (\<forall>u \<in> set (c_org_units (generateCanonical g (presets sz))). \<forall>p. parentOrgUnitId u = Some p \<longrightarrow> p \<in> orgUnitId ` set (c_org_units (generateCanonical g (presets sz))))"
proof (cases rule: generateCanonical_stages[of "presets sz" g])
  case (stages plans regions dcs ids3 accts s1 sp s2 devs s3 oi s4 sfs s5 sfst s6 tks s7 nts s8 evs s9 urs s10)
  note f = stages(15) canonical.simps set_sort set_map
  note sz = graph_sizes[OF stages(5) stages(6) stages(8) stages(11)]
  have ls: "length (map fst sp) \<le> 2 ^ 21" using sz(2) by simp
  have lo: "length (map fst oi) \<le> 2 ^ 21" using sz(3) by simp
  have lt: "length tks \<le> 2 ^ 21" using sz(4) by simp
  have lf: "length FEATURE_DEFS \<le> 2 ^ 21" by (simp add: FEATURE_DEFS_def)
  have lc: "TICKET_STATUS \<noteq> []" "length TICKET_STATUS \<le> 2 ^ 21" by (simp_all add: TICKET_STATUS_def)
  have subs: "\<forall>s \<in> set (c_subscribers (generateCanonical g (presets sz))). sub_accountId s \<in> accountId ` set (c_accounts (generateCanonical g (presets sz)))"
    using gen_subscribers_tag[of _ "presets sz" accts s1] unfolding stages(6) f by auto
  have profs: "\<forall>p \<in> set (c_subscriber_profiles (generateCanonical g (presets sz))). prof_subscriberId p \<in> subscriberId ` set (c_subscribers (generateCanonical g (presets sz)))"
    using gen_subscribers_tag[of _ "presets sz" accts s1] unfolding stages(6) f by force
  have devs: "\<forall>d \<in> set (c_devices (generateCanonical g (presets sz))). dev_subscriberId d \<in> subscriberId ` set (c_subscribers (generateCanonical g (presets sz)))"
    using gen_devices_tag[of _ "map fst sp" s2] unfolding stages(7) f by auto
  have evs: "\<forall>e \<in> set (c_device_events (generateCanonical g (presets sz))). ev_deviceId e \<in> deviceId ` set (c_devices (generateCanonical g (presets sz)))"
    using gen_deviceEvents_tag[of _ "presets sz" devs s8] unfolding stages(13) f by auto
  have ords: "\<forall>ord \<in> set (c_orders (generateCanonical g (presets sz))). ord_accountId ord \<in> accountId ` set (c_accounts (generateCanonical g (presets sz)))"
    using gen_orders_all[OF presets_item_bounds, of _ sz accts s3] unfolding stages(8) f by auto
  have items: "\<forall>it \<in> set (c_order_items (generateCanonical g (presets sz))). item_orderId it \<in> orderId ` set (c_orders (generateCanonical g (presets sz)))"
    using order_items_of_graph[OF presets_item_bounds, of _ g sz] by blast
  have sfs: "\<forall>r \<in> set (c_subscriber_features (generateCanonical g (presets sz))).
      sf_subscriberId r \<in> subscriberId ` set (c_subscribers (generateCanonical g (presets sz))) \<and>
      sf_featureId r \<in> featureId ` set (c_features (generateCanonical g (presets sz)))"
    using gen_subscriberFeatures_tag[of FEATURE_DEFS _ "map fst sp" s4] lf unfolding stages(9) f by auto
  have sfst: "\<forall>r \<in> set (c_subscriber_feature_state (generateCanonical g (presets sz))).
      (sfs_subscriberId r, sfs_featureId r)
        \<in> (\<lambda>x. (sf_subscriberId x, sf_featureId x)) ` set (c_subscriber_features (generateCanonical g (presets sz)))"
    using gen_subscriberFeatureState_tag[of _ "presets sz" sfs s5] unfolding stages(10) f by auto
  have tks: "\<forall>t \<in> set (c_tickets (generateCanonical g (presets sz))).
      tkt_subscriberId t \<in> subscriberId ` set (c_subscribers (generateCanonical g (presets sz))) \<and>
      statusCode t \<in> tsc_code ` set (c_ticket_status_codes (generateCanonical g (presets sz)))"
    using gen_tickets_tag[of TICKET_STATUS _ "presets sz" "map fst sp" s6] lc unfolding stages(11) f by auto
  have nts: "\<forall>n \<in> set (c_notes (generateCanonical g (presets sz))).
      (refType n = ''subscriber'' \<and> refId n \<in> subscriberId ` set (c_subscribers (generateCanonical g (presets sz)))) \<or>
      (refType n = ''order'' \<and> refId n \<in> orderId ` set (c_orders (generateCanonical g (presets sz)))) \<or>
      (refType n = ''ticket'' \<and> refId n \<in> ticketId ` set (c_tickets (generateCanonical g (presets sz))))"
    using gen_notes_tag[OF ls lo lt, of _ "presets sz" s7] unfolding stages(12) f by auto
  have rates: "\<forall>r \<in> set (c_rates (generateCanonical g (presets sz))).
      rate_planId r \<in> planId ` set (c_plans (generateCanonical g (presets sz))) \<and>
      rate_regionId r \<in> regionId ` set (c_regions (generateCanonical g (presets sz))) \<and>
      rate_deviceClassId r \<in> deviceClassId ` set (c_device_classes (generateCanonical g (presets sz)))"
    using gen_rates_tag[of _ plans regions dcs] unfolding f by auto
  have urs: "\<forall>u \<in> set (c_usage_records (generateCanonical g (presets sz))). ur_subscriberId u \<in> subscriberId ` set (c_subscribers (generateCanonical g (presets sz)))"
    using gen_usageRecords_all[of _ "presets sz" "map fst sp" s9] unfolding stages(14) f by auto
  have ous: "\<forall>u \<in> set (c_org_units (generateCanonical g (presets sz))). \<forall>p. parentOrgUnitId u = Some p \<longrightarrow> p \<in> orgUnitId ` set (c_org_units (generateCanonical g (presets sz)))"
    using orgUnits_parent unfolding f by auto
  show ?thesis
    by (intro conjI) (fact subs profs devs evs ords items sfs sfst tks nts rates urs ous)+
qed


lemma devices_per_subscriber:
  "length (c_devices (generateCanonical g cfg)) = length (c_subscribers (generateCanonical g cfg))"
proof (cases rule: generateCanonical_stages[of cfg g])
  case (stages plans regions dcs ids3 accts s1 sp s2 devs s3 oi s4 sfs s5 sfst s6 tks s7 nts s8 evs s9 urs s10)
  show ?thesis
    using gen_devices_length[of "map fst sp" s2] unfolding stages(7) by (simp add: stages(15))
qed

theorem referential_integrity_witness:
  "hd (c_subscribers (generateCanonical (mulberry32 42) (presets ''S''))) \<in> set (c_subscribers (generateCanonical (mulberry32 42) (presets ''S''))) \<and>
   sub_accountId (hd (c_subscribers (generateCanonical (mulberry32 42) (presets ''S'')))) \<in> accountId ` set (c_accounts (generateCanonical (mulberry32 42) (presets ''S''))) \<and>
   hd (c_devices (generateCanonical (mulberry32 42) (presets ''S''))) \<in> set (c_devices (generateCanonical (mulberry32 42) (presets ''S''))) \<and>
   dev_subscriberId (hd (c_devices (generateCanonical (mulberry32 42) (presets ''S'')))) \<in> subscriberId ` set (c_subscribers (generateCanonical (mulberry32 42) (presets ''S'')))"
proof -
  have "length (c_subscribers (generateCanonical (mulberry32 42) (presets ''S''))) = 6" by (rule small_subscribers)
  then have s: "hd (c_subscribers (generateCanonical (mulberry32 42) (presets ''S''))) \<in> set (c_subscribers (generateCanonical (mulberry32 42) (presets ''S'')))"
    by (metis hd_in_set length_0_conv zero_neq_numeral)
  have "length (c_devices (generateCanonical (mulberry32 42) (presets ''S''))) = 6"
    using devices_per_subscriber[of "mulberry32 42" "presets ''S''"] small_subscribers[of "mulberry32 42"]
    by simp
  then have d: "hd (c_devices (generateCanonical (mulberry32 42) (presets ''S''))) \<in> set (c_devices (generateCanonical (mulberry32 42) (presets ''S'')))"
    by (metis hd_in_set length_0_conv zero_neq_numeral)
  show ?thesis
    using referential_integrity[of "mulberry32 42" "''S''"] s d by blast
qed


end
